(* ===== verification/Prelude.thy ===== *)
theory Prelude
  imports Main "HOL-Library.AList"
begin

text \<open>
  What every component of the model shares: the Python exceptions the service raises, the outcome
  of a computation that may raise after it has already changed the state, Python dictionaries as
  association lists in insertion order, JSON values, the decimal primary keys that cross the wire
  as strings, and database tables with their row operations.
\<close>

named_theorems frame
named_theorems row_simps

section \<open>Exceptions and outcomes\<close>

text \<open>
  One constructor per exception class the modelled code raises or lets through. The argument is
  the message; messages are kept to their leading phrase, and no branch of the code depends on them.
\<close>

datatype exc =
    ValueError string
  | PermissionError string
  | DoesNotExist string
  | IntegrityError string
  | DatabaseError string
  | NotImplementedError string
  | AssertionError string
  | KeyError string
  | IndexError string
  | TypeError string
  | AttributeError string
  | ValidationError string
  | MultipleObjectsReturned string
  | FieldError string
  | ProtectedError string
  | JsonPatchException string
  | UnknownAgentMessage

type_synonym 'a outcome = "exc + 'a"

text \<open>
  A statement sequence: an exception keeps the state reached so far and skips the rest.
\<close>

definition and_then :: "'a outcome \<times> 's \<Rightarrow> ('a \<Rightarrow> 's \<Rightarrow> 'b outcome \<times> 's) \<Rightarrow> 'b outcome \<times> 's" where
  "and_then r k = (case r of (Inl e, s) \<Rightarrow> (Inl e, s) | (Inr x, s) \<Rightarrow> k x s)"

lemma and_then_simps [simp]:
  "and_then (Inl e, s) k = (Inl e, s)"
  "and_then (Inr x, s) k = k x s"
  by (simp_all add: and_then_def)

lemma and_then_snd:
  assumes "P (snd r)" and "\<And>x s. P s \<Longrightarrow> P (snd (k x s))"
  shows "P (snd (and_then r k))"
  using assms by (auto simp: and_then_def split: prod.split sum.split)

lemma list_all2_right: "list_all2 P xs ys \<Longrightarrow> y \<in> set ys \<Longrightarrow> \<exists>x \<in> set xs. P x y"
  by (induction rule: list_all2_induct) auto

section \<open>Dictionaries and JSON\<close>

text \<open>
  A Python dict keeps its keys in insertion order and overwrites in place, which is what
  \<^const>\<open>AList.update\<close> does on an association list. A JSON float is carried as the text
  \<^verbatim>\<open>float.__repr__\<close> gives it.
\<close>

type_synonym 'v dict = "(string \<times> 'v) list"

datatype json =
    JNull
  | JBool bool
  | JInt int
  | JFloat string
  | JStr string
  | JList "json list"
  | JDict "(string \<times> json) list"

definition dict_get :: "'v dict \<Rightarrow> string \<Rightarrow> 'v option" where
  "dict_get d k = map_of d k"

definition dict_has :: "'v dict \<Rightarrow> string \<Rightarrow> bool" where
  "dict_has d k \<longleftrightarrow> map_of d k \<noteq> None"

definition dict_set :: "string \<Rightarrow> 'v \<Rightarrow> 'v dict \<Rightarrow> 'v dict" where
  "dict_set k v d = AList.update k v d"

definition dict_update :: "'v dict \<Rightarrow> 'v dict \<Rightarrow> 'v dict" where
  "dict_update d e = fold (\<lambda>(k, v). dict_set k v) e d"

lemma dict_get_set [simp]:
  "dict_get (dict_set k v d) k' = (if k' = k then Some v else dict_get d k')"
  by (simp add: dict_get_def dict_set_def update_conv')

lemma dict_has_get: "dict_has d k \<longleftrightarrow> dict_get d k \<noteq> None"
  by (simp add: dict_has_def dict_get_def)

lemma distinct_dict_set:
  "distinct (map fst d) \<Longrightarrow> distinct (map fst (dict_set k v d))"
  by (simp add: dict_set_def distinct_update)

lemma dict_get_update:
  "distinct (map fst e) \<Longrightarrow>
   dict_get (dict_update d e) k = (case dict_get e k of None \<Rightarrow> dict_get d k | Some v \<Rightarrow> Some v)"
proof (induction e arbitrary: d)
  case Nil
  then show ?case by (simp add: dict_update_def dict_get_def)
next
  case (Cons kv e)
  obtain k0 v0 where kv: "kv = (k0, v0)" by (cases kv)
  have "dict_get (dict_update d (kv # e)) k = dict_get (dict_update (dict_set k0 v0 d) e) k"
    by (simp add: dict_update_def kv)
  also have "\<dots> = (case dict_get e k of None \<Rightarrow> dict_get (dict_set k0 v0 d) k | Some v \<Rightarrow> Some v)"
    using Cons by simp
  also have "\<dots> = (case dict_get (kv # e) k of None \<Rightarrow> dict_get d k | Some v \<Rightarrow> Some v)"
  proof (cases "k = k0")
    case True
    with Cons.prems have "dict_get e k = None" by (simp add: kv dict_get_def map_of_eq_None_iff)
    moreover have "dict_get (kv # e) k = Some v0" using True by (simp add: kv dict_get_def)
    ultimately show ?thesis using True by simp
  next
    case False
    then have "dict_get (kv # e) k = dict_get e k" by (simp add: kv dict_get_def)
    with False show ?thesis by (simp split: option.split)
  qed
  finally show ?case .
qed

lemma distinct_dict_update:
  "distinct (map fst d) \<Longrightarrow> distinct (map fst (dict_update d e))"
  by (induction e arbitrary: d)
    (auto simp: dict_update_def distinct_dict_set split: prod.split)

section \<open>Primary keys as wire strings\<close>

text \<open>
  Rows are keyed by natural numbers; messages carry \<^verbatim>\<open>str(pk)\<close>. A lookup by a wire string
  goes through Python's \<^verbatim>\<open>int()\<close>: surrounding blanks, a sign and single underscores between
  digits are accepted, anything else is a \<^const>\<open>ValueError\<close>.
\<close>

definition digit_char :: "nat \<Rightarrow> char" where
  "digit_char n = char_of (48 + n)"

fun str_of_nat :: "nat \<Rightarrow> string" where
  "str_of_nat n =
     (if n < 10 then [digit_char n] else str_of_nat (n div 10) @ [digit_char (n mod 10)])"

declare str_of_nat.simps [simp del]

definition is_digit :: "char \<Rightarrow> bool" where
  "is_digit c \<longleftrightarrow> 48 \<le> (of_char c :: nat) \<and> (of_char c :: nat) \<le> 57"

definition is_blank :: "char \<Rightarrow> bool" where
  "is_blank c \<longleftrightarrow> of_char c \<in> {9, 10, 11, 12, 13, 28, 29, 30, 31, 32, 133, 160 :: nat}"

definition strip :: "string \<Rightarrow> string" where
  "strip s = rev (dropWhile is_blank (rev (dropWhile is_blank s)))"

fun parse_digits :: "nat \<Rightarrow> bool \<Rightarrow> string \<Rightarrow> nat option" where
  "parse_digits acc d [] = (if d then Some acc else None)"
| "parse_digits acc d (c # cs) =
     (if is_digit c then parse_digits (acc * 10 + (of_char c - 48)) True cs
      else if c = CHR ''_'' \<and> d then parse_digits acc False cs
      else None)"

definition py_int :: "string \<Rightarrow> int option" where
  "py_int s =
     (case strip s of
        [] \<Rightarrow> None
      | c # cs \<Rightarrow>
          if c = CHR ''-'' then map_option (\<lambda>n. - int n) (parse_digits 0 False cs)
          else if c = CHR ''+'' then map_option int (parse_digits 0 False cs)
          else map_option int (parse_digits 0 False (c # cs)))"

lemma of_char_digit [simp]: "n < 10 \<Longrightarrow> (of_char (digit_char n) :: nat) = 48 + n"
  by (simp add: digit_char_def)

lemma is_digit_digit_char [simp]: "n < 10 \<Longrightarrow> is_digit (digit_char n)"
  by (simp add: is_digit_def)

lemma parse_digits_snoc:
  "n < 10 \<Longrightarrow> parse_digits acc d cs = Some m \<Longrightarrow> parse_digits acc d (cs @ [digit_char n]) = Some (m * 10 + n)"
  by (induction acc d cs rule: parse_digits.induct) (auto split: if_splits)

lemma parse_digits_str_of_nat: "parse_digits 0 False (str_of_nat n) = Some n"
proof (induction n rule: str_of_nat.induct)
  case (1 n)
  show ?case
  proof (cases "n < 10")
    case True
    then show ?thesis by (simp add: str_of_nat.simps [of n])
  next
    case False
    with 1 have "parse_digits 0 False (str_of_nat (n div 10)) = Some (n div 10)" by simp
    from parse_digits_snoc [OF _ this, of "n mod 10"] False
    show ?thesis by (simp add: str_of_nat.simps [of n])
  qed
qed

lemma str_of_nat_digits: "\<forall>c \<in> set (str_of_nat n). is_digit c"
proof (induction n rule: str_of_nat.induct)
  case (1 n)
  then show ?case by (cases "n < 10") (auto simp: str_of_nat.simps [of n])
qed

lemma digit_not_blank: "is_digit c \<Longrightarrow> \<not> is_blank c"
  by (auto simp: is_digit_def is_blank_def)

lemma dropWhile_none: "\<forall>x \<in> set xs. \<not> P x \<Longrightarrow> dropWhile P xs = xs"
  by (cases xs) auto

lemma strip_str_of_nat [simp]: "strip (str_of_nat n) = str_of_nat n"
  using str_of_nat_digits [of n] by (simp add: strip_def dropWhile_none digit_not_blank)

lemma str_of_nat_not_Nil [simp]: "str_of_nat n \<noteq> []"
  by (subst str_of_nat.simps) auto

text \<open>Serialising a key and reading it back gives the key.\<close>

lemma py_int_str_of_nat [simp]: "py_int (str_of_nat n) = Some (int n)"
proof -
  obtain c cs where eq: "str_of_nat n = c # cs" by (cases "str_of_nat n") auto
  have "is_digit c" using str_of_nat_digits [of n] eq by simp
  then have "c \<noteq> CHR ''-''" "c \<noteq> CHR ''+''" by (auto simp: is_digit_def)
  moreover have "parse_digits 0 False (c # cs) = Some n"
    using parse_digits_str_of_nat [of n] by (simp only: eq)
  moreover have "strip (c # cs) = c # cs" using strip_str_of_nat [of n] by (simp only: eq)
  ultimately show ?thesis unfolding py_int_def eq by (simp del: parse_digits.simps)
qed

lemma str_of_nat_inject [simp]: "str_of_nat m = str_of_nat n \<longleftrightarrow> m = n"
  by (metis py_int_str_of_nat option.inject of_nat_eq_iff)

section \<open>Tables\<close>

text \<open>
  A table is its rows in primary-key order of insertion together with the sequence the next key is
  drawn from. A write is an update of the current row by a function, which is what
  \<^verbatim>\<open>save(update_fields=...)\<close> does: fields it does not name keep what the database holds.
\<close>

record 'r table =
  rows :: "(nat \<times> 'r) list"
  seq :: nat

definition t_empty :: "'r table" where
  "t_empty = \<lparr>rows = [], seq = 0\<rparr>"

definition t_get :: "'r table \<Rightarrow> nat \<Rightarrow> 'r option" where
  "t_get t i = map_of (rows t) i"

definition t_upd :: "nat \<Rightarrow> ('r \<Rightarrow> 'r) \<Rightarrow> 'r table \<Rightarrow> 'r table" where
  "t_upd i f t = t\<lparr>rows := map (\<lambda>(j, r). (j, if j = i then f r else r)) (rows t)\<rparr>"

definition t_add :: "'r \<Rightarrow> 'r table \<Rightarrow> 'r table" where
  "t_add r t = t\<lparr>rows := rows t @ [(Suc (seq t), r)], seq := Suc (seq t)\<rparr>"

definition t_del :: "(nat \<Rightarrow> 'r \<Rightarrow> bool) \<Rightarrow> 'r table \<Rightarrow> 'r table" where
  "t_del P t = t\<lparr>rows := filter (\<lambda>(i, r). \<not> P i r) (rows t)\<rparr>"

definition t_filter :: "('r \<Rightarrow> bool) \<Rightarrow> 'r table \<Rightarrow> (nat \<times> 'r) list" where
  "t_filter P t = filter (\<lambda>(i, r). P r) (rows t)"

definition t_first :: "('r \<Rightarrow> bool) \<Rightarrow> 'r table \<Rightarrow> (nat \<times> 'r) option" where
  "t_first P t = (case t_filter P t of [] \<Rightarrow> None | x # _ \<Rightarrow> Some x)"

text \<open>Keys are distinct and none is ahead of the sequence.\<close>

definition t_wf :: "'r table \<Rightarrow> bool" where
  "t_wf t \<longleftrightarrow> distinct (map fst (rows t)) \<and> (\<forall>i \<in> set (map fst (rows t)). i \<le> seq t)"

text \<open>\<^verbatim>\<open>objects.get(id=s)\<close> for a wire string \<open>s\<close>; \<open>what\<close> names the model.\<close>

definition t_get_wire :: "string \<Rightarrow> 'r table \<Rightarrow> string \<Rightarrow> (nat \<times> 'r) outcome" where
  "t_get_wire what t s =
     (case py_int s of
        None \<Rightarrow> Inl (ValueError ''Field id expected a number'')
      | Some i \<Rightarrow>
          (if i < 0 then Inl (DoesNotExist what)
           else case t_get t (nat i) of
                  None \<Rightarrow> Inl (DoesNotExist what)
                | Some r \<Rightarrow> Inr (nat i, r)))"

lemma map_of_map_upd:
  "map_of (map (\<lambda>(j, r). (j, if j = i then f r else r)) xs) k =
     (if k = i then map_option f (map_of xs k) else map_of xs k)"
  by (induction xs) auto

lemma t_get_upd [row_simps]:
  "t_get (t_upd i f t) k = (if k = i then map_option f (t_get t k) else t_get t k)"
  by (simp add: t_get_def t_upd_def map_of_map_upd)

lemma seq_upd [row_simps]: "seq (t_upd i f t) = seq t"
  by (simp add: t_upd_def)

lemma keys_upd [row_simps]: "map fst (rows (t_upd i f t)) = map fst (rows t)"
  by (auto simp: t_upd_def)

lemma t_wf_upd [row_simps]: "t_wf (t_upd i f t) = t_wf t"
  by (simp add: t_wf_def seq_upd keys_upd del: list.set_map set_map)

lemma t_get_fresh: "t_wf t \<Longrightarrow> t_get t (Suc (seq t)) = None"
  by (auto simp: t_wf_def t_get_def map_of_eq_None_iff image_iff)

lemma t_get_add:
  "t_wf t \<Longrightarrow> t_get (t_add r t) k = (if k = Suc (seq t) then Some r else t_get t k)"
  using t_get_fresh [of t] by (auto simp: t_get_def t_add_def map_add_def split: option.split)

lemma t_get_add_old: "t_get t k = Some x \<Longrightarrow> t_get (t_add r t) k = Some x"
  by (simp add: t_get_def t_add_def)

lemma seq_add [row_simps]: "seq (t_add r t) = Suc (seq t)"
  by (simp add: t_add_def)

lemma t_wf_add [row_simps]: "t_wf t \<Longrightarrow> t_wf (t_add r t)"
  by (auto simp: t_wf_def t_add_def)

lemma t_wf_empty [simp]: "t_wf t_empty"
  by (simp add: t_wf_def t_empty_def)

lemma t_get_le_seq: "t_wf t \<Longrightarrow> t_get t i = Some r \<Longrightarrow> i \<le> seq t"
  by (force simp: t_wf_def t_get_def dest: map_of_SomeD)

lemma t_get_rows: "t_wf t \<Longrightarrow> (i, r) \<in> set (rows t) \<longleftrightarrow> t_get t i = Some r"
  by (auto simp: t_wf_def t_get_def dest: map_of_SomeD)

lemma t_filter_get:
  "t_wf t \<Longrightarrow> (i, r) \<in> set (t_filter P t) \<longleftrightarrow> t_get t i = Some r \<and> P r"
  by (auto simp: t_filter_def t_get_rows)

lemma t_first_Some: "t_wf t \<Longrightarrow> t_first P t = Some (i, r) \<Longrightarrow> t_get t i = Some r \<and> P r"
  using t_filter_get [of t i r P]
  by (auto simp: t_first_def split: list.splits)

lemma t_first_None: "t_first P t = None \<Longrightarrow> t_wf t \<Longrightarrow> t_get t i = Some r \<Longrightarrow> \<not> P r"
  using t_filter_get [of t i r P]
  by (auto simp: t_first_def split: list.splits)

lemma t_get_wire_str [simp]:
  "t_get_wire what t (str_of_nat n) =
     (case t_get t n of None \<Rightarrow> Inl (DoesNotExist what) | Some r \<Rightarrow> Inr (n, r))"
  by (simp add: t_get_wire_def cong: option.case_cong)

lemma t_get_wire_Inr: "t_get_wire what t s = Inr (i, r) \<Longrightarrow> t_get t i = Some r"
  by (auto simp: t_get_wire_def split: option.splits if_splits)

end
