(* ===== verification/Enums.thy ===== *)
theory Enums
  imports Prelude
begin

text \<open>
  The enumerations of \<^verbatim>\<open>facade/enums\<close>, \<^verbatim>\<open>rekuest_core/enums.py\<close> and the tag enumerations of
  \<^verbatim>\<open>facade/messages.py\<close>, one datatype each with the source's members. The members of an
  enumeration whose string values are stored or compared also get their value.
\<close>

section \<open>Task events and instructions\<close>

text \<open>
  The database column is a \<^verbatim>\<open>TaskEventChoices\<close>; the code writes members of \<^verbatim>\<open>TaskEventKind\<close>,
  which are the same strings without \<^verbatim>\<open>UNASSIGN\<close>.
\<close>

datatype task_event_kind =
    QUEUED | BOUND | STARTED | UNASSIGN | PROGRESS | CANCELLING | CANCELLED
  | INTERRUPTING | INTERRUPTED | PAUSING | PAUSED | RESUMING | RESUMED
  | DELEGATE | FAILED | CRITICAL | DISCONNECTED | YIELD | COMPLETED | LOG

definition task_event_kinds :: "task_event_kind list" where
  "task_event_kinds =
     [BOUND, QUEUED, STARTED, PROGRESS, DELEGATE, DISCONNECTED, YIELD, COMPLETED, LOG,
      CANCELLING, CANCELLED, INTERRUPTING, INTERRUPTED, PAUSING, PAUSED, RESUMING, RESUMED,
      FAILED, CRITICAL]"

instantiation task_event_kind :: enum
begin

definition enum_task_event_kind :: "task_event_kind list" where
  "enum_task_event_kind =
     [QUEUED, BOUND, STARTED, UNASSIGN, PROGRESS, CANCELLING, CANCELLED, INTERRUPTING,
      INTERRUPTED, PAUSING, PAUSED, RESUMING, RESUMED, DELEGATE, FAILED, CRITICAL,
      DISCONNECTED, YIELD, COMPLETED, LOG]"

definition enum_all_task_event_kind :: "(task_event_kind \<Rightarrow> bool) \<Rightarrow> bool" where
  "enum_all_task_event_kind P \<longleftrightarrow> list_all P Enum.enum"

definition enum_ex_task_event_kind :: "(task_event_kind \<Rightarrow> bool) \<Rightarrow> bool" where
  "enum_ex_task_event_kind P \<longleftrightarrow> list_ex P Enum.enum"

instance
proof
  show univ: "(UNIV :: task_event_kind set) = set Enum.enum"
  proof (rule set_eqI)
    fix k :: task_event_kind
    show "k \<in> UNIV \<longleftrightarrow> k \<in> set Enum.enum" by (cases k) (simp_all add: enum_task_event_kind_def)
  qed
  show "distinct (Enum.enum :: task_event_kind list)" by (simp add: enum_task_event_kind_def)
  show "Enum.enum_all P \<longleftrightarrow> Ball (UNIV :: task_event_kind set) P" for P
    using univ by (auto simp: enum_all_task_event_kind_def list_all_iff)
  show "Enum.enum_ex P \<longleftrightarrow> Bex (UNIV :: task_event_kind set) P" for P
    using univ by (auto simp: enum_ex_task_event_kind_def list_ex_iff)
qed

end

text \<open>The kinds that end a task (\<^verbatim>\<open>_TERMINAL_KINDS\<close> of \<^verbatim>\<open>persist_backend.py\<close>).\<close>

definition terminal_kinds :: "task_event_kind set" where
  "terminal_kinds = {COMPLETED, CANCELLED, INTERRUPTED, FAILED, CRITICAL}"

lemma terminal_kinds_simps [simp]:
  "COMPLETED \<in> terminal_kinds" "CANCELLED \<in> terminal_kinds" "INTERRUPTED \<in> terminal_kinds"
  "FAILED \<in> terminal_kinds" "CRITICAL \<in> terminal_kinds"
  "QUEUED \<notin> terminal_kinds" "BOUND \<notin> terminal_kinds" "STARTED \<notin> terminal_kinds"
  "UNASSIGN \<notin> terminal_kinds" "PROGRESS \<notin> terminal_kinds" "CANCELLING \<notin> terminal_kinds"
  "INTERRUPTING \<notin> terminal_kinds" "PAUSING \<notin> terminal_kinds" "PAUSED \<notin> terminal_kinds"
  "RESUMING \<notin> terminal_kinds" "RESUMED \<notin> terminal_kinds" "DELEGATE \<notin> terminal_kinds"
  "DISCONNECTED \<notin> terminal_kinds" "YIELD \<notin> terminal_kinds" "LOG \<notin> terminal_kinds"
  by (simp_all add: terminal_kinds_def)

datatype task_instruct_kind =
  I_ASSIGN | I_CANCEL | I_RESUME | I_PAUSE | I_INTERRUPT | I_COLLECT

section \<open>Agents, actions, effects and hooks\<close>

datatype agent_kind = WEBSOCKET | WEBHOOK

datatype effect_class = EFFECT_NONE | PHYSICAL

datatype action_kind = FUNCTION | GENERATOR

datatype action_scope = GLOBAL | LOCAL | BRIDGE_GLOBAL_TO_LOCAL | BRIDGE_LOCAL_TO_GLOBAL

datatype hook_kind = HOOK_CLEANUP | HOOK_INIT

datatype port_kind =
    P_INT | P_STRING | P_STRUCTURE | P_LIST | P_BOOL | P_DICT | P_FLOAT | P_DATE | P_UNION
  | P_ENUM | P_MODEL | P_MEMORY_STRUCTURE | P_INTERFACE | P_QUANTITY

datatype log_level = L_DEBUG | L_INFO | L_ERROR | L_WARN | L_CRITICAL

section \<open>Message tags\<close>

datatype to_agent_message_type =
    T_ASSIGN | T_CANCEL | T_COLLECT | T_RESUME | T_PAUSE | T_INTERRUPT | T_PROVIDE | T_UNPROVIDE
  | T_INIT | T_HEARTBEAT | T_BOUNCE | T_KICK | T_PROTOCOL_ERROR | T_EVENT_ACK | T_ASSIGN_RESPONSE
  | T_BOUND_EVENT | T_QUEUED_EVENT | T_STARTED_EVENT | T_PROGRESS_EVENT | T_DELEGATE_EVENT
  | T_DISCONNECTED_EVENT | T_YIELD_EVENT | T_COMPLETED_EVENT | T_LOG_EVENT | T_CANCELLING_EVENT
  | T_CANCELLED_EVENT | T_INTERRUPTING_EVENT | T_INTERRUPTED_EVENT | T_PAUSING_EVENT
  | T_PAUSED_EVENT | T_RESUMING_EVENT | T_RESUMED_EVENT | T_FAILED_EVENT | T_CRITICAL_EVENT
  | T_CONTROL_RESPONSE

datatype from_agent_message_type =
    F_REGISTER | F_LOG | F_PROGRESS | F_STARTED | F_COMPLETED | F_YIELD | F_FAILED | F_PAUSED
  | F_CRITICAL | F_RESUMED | F_CANCELLED | F_APP_CANCELLED | F_INTERRUPTED | F_HEARTBEAT_ANSWER
  | F_STATE_PATCH | F_LOCK | F_UNLOCK | F_STATE_SNAPSHOT | F_SESSION_INIT | F_ASSIGN_REQUEST
  | F_CANCEL_REQUEST | F_INTERRUPT_REQUEST | F_PAUSE_REQUEST | F_RESUME_REQUEST

section \<open>Close codes\<close>

datatype close_code =
    HEARTBEAT_NOT_RESPONDED_CODE
  | FROM_AGENT_MESSAGE_IS_NOT_VALID_JSON_CODE
  | FROM_AGENT_MESSAGE_DOES_NOT_MATCH_SCHEMA_CODE
  | FROM_AGENT_MESSAGE_RECEIVED_BEFORE_REGISTRATION_CODE
  | AGENT_IS_BLOCKED_CODE
  | AGENT_ALREADY_CONNECTED_CODE
  | AGENT_REPLACED_CODE

fun code_value :: "close_code \<Rightarrow> nat" where
  "code_value HEARTBEAT_NOT_RESPONDED_CODE = 3001"
| "code_value FROM_AGENT_MESSAGE_IS_NOT_VALID_JSON_CODE = 3002"
| "code_value FROM_AGENT_MESSAGE_DOES_NOT_MATCH_SCHEMA_CODE = 3003"
| "code_value FROM_AGENT_MESSAGE_RECEIVED_BEFORE_REGISTRATION_CODE = 3004"
| "code_value AGENT_IS_BLOCKED_CODE = 4003"
| "code_value AGENT_ALREADY_CONNECTED_CODE = 4004"
| "code_value AGENT_REPLACED_CODE = 4005"

end
