(* ===== verification/Messages.thy ===== *)
theory Messages
  imports Enums
begin

text \<open>
  The wire messages of \<^verbatim>\<open>facade/messages.py\<close>: one record per pydantic class, extending the
  record of its base class as the class does, and the two unions. A class that adds no field is a
  synonym of its base. The \<^verbatim>\<open>type\<close> literal of a class is the tag its constructor in the union
  maps to. Serialisation is pydantic's.
\<close>

section \<open>Base classes\<close>

record message =
  msg_id :: string

record from_agent_event = message +
  fae_seq :: "int option"

section \<open>Backend to agent: commands\<close>

record assign = message +
  as_interface :: string
  as_step :: "bool option"
  as_task :: string
  as_root :: "string option"
  as_parent :: "string option"
  as_resolution :: "string option"
  as_capture :: "bool option"
  as_reference :: "string option"
  as_args :: "json dict"
  as_message :: "string option"
  as_user :: string
  as_org :: string
  as_action :: string
  as_implementation :: string
  as_token :: "string option"

record bounce = message +
  bo_duration :: "int option"

record kick = message +
  ki_reason :: "string option"

type_synonym heartbeat = message

record pause = message +
  pa_task :: string

record resume = message +
  rs_task :: string
  rs_step :: bool

record cancel = message +
  ca_task :: string

record collect = message +
  co_drawers :: "string list"

record interrupt = message +
  it_task :: string

section \<open>Agent to backend: reports\<close>

record cancelled = from_agent_event +
  cancelled_task :: string

record interrupted = from_agent_event +
  interrupted_task :: string

record paused = from_agent_event +
  paused_task :: string

record resumed = from_agent_event +
  resumed_task :: string

record started = from_agent_event +
  started_task :: string

record log_report = from_agent_event +
  log_task :: string
  log_message :: string
  log_level_of :: log_level

record progress_report = from_agent_event +
  progress_task :: string
  progress_value :: "int option"
  progress_message :: "string option"

record yield_report = from_agent_event +
  yield_task :: string
  yield_returns :: "json dict option"

record completed = from_agent_event +
  completed_task :: string

record failed = from_agent_event +
  failed_task :: string
  failed_error :: string

record critical = from_agent_event +
  critical_task :: string
  critical_error :: string

type_synonym heartbeat_event = message

record session_init = message +
  si_session_id :: string
  si_states :: "json dict"

record state_patch = message +
  sp_session_id :: string
  sp_global_rev :: int
  sp_state_name :: string
  sp_ts :: string
  sp_op :: string
  sp_path :: string
  sp_value :: json
  sp_old_value :: "json option"
  sp_task_id :: "string option"

record state_snapshot = message +
  ss_session_id :: string
  ss_global_rev :: int
  ss_snapshots :: "json dict"

record lock_message = message +
  lk_key :: string
  lk_task :: string

record unlock_message = message +
  ul_key :: string

section \<open>Registration\<close>

record assign_inquiry =
  aq_task :: string

record register = message +
  rg_token :: string
  rg_force :: bool
  rg_session_id :: "string option"

record protocol_error = message +
  pe_error :: string

record init_message = message +
  in_agent :: string
  in_inquiries :: "assign_inquiry list"

section \<open>Sub-assignment and lifecycle requests\<close>

record hook_input =
  hk_kind :: hook_kind
  hk_hash :: string

record assign_request = message +
  aqr_reference :: string
  aqr_args :: "json dict"
  aqr_action :: "string option"
  aqr_action_hash :: "string option"
  aqr_implementation :: "string option"
  aqr_agent :: "string option"
  aqr_interface :: "string option"
  aqr_parent :: "string option"
  aqr_dependency :: "string option"
  aqr_method :: "string option"
  aqr_resolution :: "string option"
  aqr_hooks :: "json dict list option"
  aqr_capture :: "bool option"
  aqr_ephemeral :: "bool option"
  aqr_step :: "bool option"

record assign_response = message +
  ar_request :: string
  ar_reference :: string
  ar_task :: "string option"
  ar_created :: bool
  ar_error :: "exc option"

record control_request = message +
  ctl_task :: string

record cancel_request = control_request +
  cnr_auto_interrupt :: "int option"

type_synonym interrupt_request = control_request

type_synonym pause_request = control_request

record resume_request = control_request +
  rsr_step :: bool

record control_response = message +
  cr_request :: string
  cr_task :: "string option"
  cr_accepted :: bool
  cr_error :: "exc option"

record event_ack = message +
  ea_event :: string
  ea_task :: "string option"
  ea_seq :: "int option"

section \<open>Backend to caller: the event stream\<close>

record execution_event = message +
  ee_task :: string
  ee_event :: string
  ee_seq :: int

type_synonym bound_event = execution_event
type_synonym queued_event = execution_event
type_synonym started_event = execution_event

record progress_event = execution_event +
  pge_progress :: "int option"
  pge_message :: "string option"

type_synonym delegate_event = execution_event

record disconnected_event = execution_event +
  dce_message :: "string option"

record yield_event = execution_event +
  yde_returns :: "json dict option"

type_synonym completed_event = execution_event

record log_event = execution_event +
  lge_message :: "string option"
  lge_level :: log_level

type_synonym cancelling_event = execution_event
type_synonym cancelled_event = execution_event
type_synonym interrupting_event = execution_event
type_synonym interrupted_event = execution_event
type_synonym pausing_event = execution_event
type_synonym paused_event = execution_event
type_synonym resuming_event = execution_event
type_synonym resumed_event = execution_event

record failed_event = execution_event +
  fle_error :: "string option"

record critical_event = execution_event +
  cre_error :: "string option"

datatype execution_event_message =
    BoundEvent bound_event
  | QueuedEvent queued_event
  | StartedEvent started_event
  | ProgressEvent progress_event
  | DelegateEvent delegate_event
  | DisconnectedEvent disconnected_event
  | YieldEvent yield_event
  | CompletedEvent completed_event
  | LogEvent log_event
  | CancellingEvent cancelling_event
  | CancelledEvent cancelled_event
  | InterruptingEvent interrupting_event
  | InterruptedEvent interrupted_event
  | PausingEvent pausing_event
  | PausedEvent paused_event
  | ResumingEvent resuming_event
  | ResumedEvent resumed_event
  | FailedEvent failed_event
  | CriticalEvent critical_event

section \<open>The two unions\<close>

datatype to_agent_message =
    Init init_message
  | Assign assign
  | Cancel cancel
  | Interrupt interrupt
  | Heartbeat heartbeat
  | Pause pause
  | Resume resume
  | Collect collect
  | ProtocolError protocol_error
  | Bounce bounce
  | Kick kick
  | EventAck event_ack
  | AssignResponse assign_response
  | ControlResponse control_response
  | ExecutionEvent execution_event_message

datatype from_agent_message =
    Critical critical
  | Log log_report
  | Progress progress_report
  | Started started
  | Completed completed
  | Failed failed
  | Yield yield_report
  | Register register
  | HeartbeatEvent heartbeat_event
  | Resumed resumed
  | Paused paused
  | Cancelled cancelled
  | Interrupted interrupted
  | StatePatch state_patch
  | StateSnapshot state_snapshot
  | LockMessage lock_message
  | UnlockMessage unlock_message
  | SessionInit session_init
  | AssignRequest assign_request
  | CancelRequest cancel_request
  | InterruptRequest interrupt_request
  | PauseRequest pause_request
  | ResumeRequest resume_request

fun mirror_type :: "execution_event_message \<Rightarrow> to_agent_message_type" where
  "mirror_type (BoundEvent _) = T_BOUND_EVENT"
| "mirror_type (QueuedEvent _) = T_QUEUED_EVENT"
| "mirror_type (StartedEvent _) = T_STARTED_EVENT"
| "mirror_type (ProgressEvent _) = T_PROGRESS_EVENT"
| "mirror_type (DelegateEvent _) = T_DELEGATE_EVENT"
| "mirror_type (DisconnectedEvent _) = T_DISCONNECTED_EVENT"
| "mirror_type (YieldEvent _) = T_YIELD_EVENT"
| "mirror_type (CompletedEvent _) = T_COMPLETED_EVENT"
| "mirror_type (LogEvent _) = T_LOG_EVENT"
| "mirror_type (CancellingEvent _) = T_CANCELLING_EVENT"
| "mirror_type (CancelledEvent _) = T_CANCELLED_EVENT"
| "mirror_type (InterruptingEvent _) = T_INTERRUPTING_EVENT"
| "mirror_type (InterruptedEvent _) = T_INTERRUPTED_EVENT"
| "mirror_type (PausingEvent _) = T_PAUSING_EVENT"
| "mirror_type (PausedEvent _) = T_PAUSED_EVENT"
| "mirror_type (ResumingEvent _) = T_RESUMING_EVENT"
| "mirror_type (ResumedEvent _) = T_RESUMED_EVENT"
| "mirror_type (FailedEvent _) = T_FAILED_EVENT"
| "mirror_type (CriticalEvent _) = T_CRITICAL_EVENT"

fun mirror_base :: "execution_event_message \<Rightarrow> string \<times> string \<times> int" where
  "mirror_base (BoundEvent m) = (ee_task m, ee_event m, ee_seq m)"
| "mirror_base (QueuedEvent m) = (ee_task m, ee_event m, ee_seq m)"
| "mirror_base (StartedEvent m) = (ee_task m, ee_event m, ee_seq m)"
| "mirror_base (ProgressEvent m) = (ee_task m, ee_event m, ee_seq m)"
| "mirror_base (DelegateEvent m) = (ee_task m, ee_event m, ee_seq m)"
| "mirror_base (DisconnectedEvent m) = (ee_task m, ee_event m, ee_seq m)"
| "mirror_base (YieldEvent m) = (ee_task m, ee_event m, ee_seq m)"
| "mirror_base (CompletedEvent m) = (ee_task m, ee_event m, ee_seq m)"
| "mirror_base (LogEvent m) = (ee_task m, ee_event m, ee_seq m)"
| "mirror_base (CancellingEvent m) = (ee_task m, ee_event m, ee_seq m)"
| "mirror_base (CancelledEvent m) = (ee_task m, ee_event m, ee_seq m)"
| "mirror_base (InterruptingEvent m) = (ee_task m, ee_event m, ee_seq m)"
| "mirror_base (InterruptedEvent m) = (ee_task m, ee_event m, ee_seq m)"
| "mirror_base (PausingEvent m) = (ee_task m, ee_event m, ee_seq m)"
| "mirror_base (PausedEvent m) = (ee_task m, ee_event m, ee_seq m)"
| "mirror_base (ResumingEvent m) = (ee_task m, ee_event m, ee_seq m)"
| "mirror_base (ResumedEvent m) = (ee_task m, ee_event m, ee_seq m)"
| "mirror_base (FailedEvent m) = (ee_task m, ee_event m, ee_seq m)"
| "mirror_base (CriticalEvent m) = (ee_task m, ee_event m, ee_seq m)"

text \<open>The discriminator of the inbound union.\<close>

fun from_agent_type :: "from_agent_message \<Rightarrow> from_agent_message_type" where
  "from_agent_type (Critical _) = F_CRITICAL"
| "from_agent_type (Log _) = F_LOG"
| "from_agent_type (Progress _) = F_PROGRESS"
| "from_agent_type (Started _) = F_STARTED"
| "from_agent_type (Completed _) = F_COMPLETED"
| "from_agent_type (Failed _) = F_FAILED"
| "from_agent_type (Yield _) = F_YIELD"
| "from_agent_type (Register _) = F_REGISTER"
| "from_agent_type (HeartbeatEvent _) = F_HEARTBEAT_ANSWER"
| "from_agent_type (Resumed _) = F_RESUMED"
| "from_agent_type (Paused _) = F_PAUSED"
| "from_agent_type (Cancelled _) = F_CANCELLED"
| "from_agent_type (Interrupted _) = F_INTERRUPTED"
| "from_agent_type (StatePatch _) = F_STATE_PATCH"
| "from_agent_type (StateSnapshot _) = F_STATE_SNAPSHOT"
| "from_agent_type (LockMessage _) = F_LOCK"
| "from_agent_type (UnlockMessage _) = F_UNLOCK"
| "from_agent_type (SessionInit _) = F_SESSION_INIT"
| "from_agent_type (AssignRequest _) = F_ASSIGN_REQUEST"
| "from_agent_type (CancelRequest _) = F_CANCEL_REQUEST"
| "from_agent_type (InterruptRequest _) = F_INTERRUPT_REQUEST"
| "from_agent_type (PauseRequest _) = F_PAUSE_REQUEST"
| "from_agent_type (ResumeRequest _) = F_RESUME_REQUEST"

end
