(* ===== verification/Port_Inputs.thy ===== *)
theory Port_Inputs
  imports Enums
begin

text \<open>
  The registration inputs of \<^verbatim>\<open>rekuest_core/inputs/models.py\<close>: the port tree of an action with its
  validators, and the definition an implementation is registered under. A port of an argument and a
  port of a return differ in their widget only; their descriptors (\<^verbatim>\<open>requires\<close>, \<^verbatim>\<open>provides\<close>) are of
  classes with the same fields, so both are instances of one datatype.
\<close>

section \<open>Enumerations\<close>

datatype descriptor_operator =
    OP_MATCHES | OP_EXISTS | OP_LTE | OP_GTE | OP_EQUALS | OP_CONTAINS | OP_NOT_EQUALS | OP_IN | OP_NOT_IN

datatype effect_kind = E_MESSAGE | E_HIDE | E_CUSTOM

datatype assign_widget_kind =
    AW_SEARCH | AW_CHOICE | AW_SLIDER | AW_CUSTOM | AW_STRING | AW_STATE_CHOICE | AW_PROXY

datatype return_widget_kind = RW_CHOICE | RW_CUSTOM | RW_PROXY

datatype option_key = O_LABEL | O_DESCRIPTION | O_LOGO | O_VALUE

section \<open>Parts of a port\<close>

record effect_input =
  ef_function :: string
  ef_dependencies :: "string list option"
  ef_message :: "string option"
  ef_kind :: effect_kind
  ef_fade :: bool
  ef_hook :: "string option"
  ef_ward :: "string option"

record choice_input =
  ch_value :: string
  ch_label :: string
  ch_image :: "string option"
  ch_description :: "string option"

record validator_input =
  va_function :: string
  va_dependencies :: "string list option"
  va_label :: "string option"
  va_error_message :: "string option"

record state_accessor_input =
  sa_option_key :: option_key
  sa_sub_path :: "string option"

record descriptor_input =
  ds_key :: string
  ds_operator :: descriptor_operator
  ds_value :: json

text \<open>A float of a slider is carried as its text, as in \<^typ>\<open>json\<close>.\<close>

record return_widget_input =
  rw_kind :: return_widget_kind
  rw_query :: "string option"
  rw_choices :: "choice_input list option"
  rw_min :: "int option"
  rw_max :: "int option"
  rw_step :: "int option"
  rw_placeholder :: "string option"
  rw_hook :: "string option"
  rw_ward :: "string option"

section \<open>Ports\<close>

datatype 'w port =
  Port
    (po_validators: "validator_input list option")
    (po_key: string)
    (po_label: "string option")
    (po_kind: port_kind)
    (po_description: "string option")
    (po_identifier: "string option")
    (po_nullable: bool)
    (po_effects: "effect_input list option")
    (po_default: "json option")
    (po_choices: "choice_input list option")
    (po_reference_unit: "string option")
    (po_proposed_units: "string list option")
    (po_dimension: "string option")
    (po_widget: "'w option")
    (po_descriptors: "descriptor_input list option")
    (po_children: "'w port list option")

datatype assign_widget_input =
  AssignWidget
    (aw_kind: assign_widget_kind)
    (aw_query: "string option")
    (aw_choices: "choice_input list option")
    (aw_state_choices: "string option")
    (aw_follow_value: "string option")
    (aw_min: "string option")
    (aw_max: "string option")
    (aw_step: "string option")
    (aw_placeholder: "string option")
    (aw_as_paragraph: "bool option")
    (aw_hook: "string option")
    (aw_ward: "string option")
    (aw_fallback: "assign_widget_input option")
    (aw_filters: "assign_widget_input port list option")
    (aw_dependencies: "string list option")
    (aw_dependency: "string option")
    (aw_target_dependency: "string option")
    (aw_target_action: "string option")
    (aw_target_port: "string option")
    (aw_state_path: "string option")
    (aw_state_accessors: "state_accessor_input list option")

type_synonym arg_port = "assign_widget_input port"
type_synonym return_port = "return_widget_input port"

lemma member_size: "c \<in> set cs \<Longrightarrow> size c \<le> size_list size cs"
  by (rule size_list_estimation' [OF _ order_refl])

text \<open>\<^verbatim>\<open>port.children or []\<close>\<close>

definition children :: "'w port \<Rightarrow> 'w port list" where
  "children p = (case po_children p of None \<Rightarrow> [] | Some cs \<Rightarrow> cs)"

lemma child_smaller [termination_simp]: "c \<in> set (children p) \<Longrightarrow> size c < size p"
  by (cases p) (auto simp: children_def less_Suc_eq_le dest!: member_size split: option.splits)

section \<open>Matches and demands\<close>

record match_descriptor =
  md_key :: string
  md_value :: json

datatype port_match =
  PortMatch
    (pm_at: "int option")
    (pm_key: "string option")
    (pm_kind: "port_kind option")
    (pm_identifier: "string option")
    (pm_nullable: "bool option")
    (pm_dimension: "string option")
    (pm_descriptors: "match_descriptor list option")
    (pm_children: "port_match list option")

definition match_children :: "port_match \<Rightarrow> port_match list" where
  "match_children m = (case pm_children m of None \<Rightarrow> [] | Some cs \<Rightarrow> cs)"

lemma match_child_smaller [termination_simp]: "c \<in> set (match_children m) \<Longrightarrow> size c < size m"
  by (cases m) (auto simp: match_children_def less_Suc_eq_le dest!: member_size split: option.splits)

record action_demand =
  ad_hash :: "string option"
  ad_key :: "string option"
  ad_app :: "string option"
  ad_version :: "string option"
  ad_name :: "string option"
  ad_arg_matches :: "port_match list option"
  ad_return_matches :: "port_match list option"
  ad_protocols :: "string list option"
  ad_force_arg_length :: "int option"
  ad_force_return_length :: "int option"
  ad_pure :: "bool option"
  ad_idempotent :: "bool option"
  ad_stateful :: "bool option"

record state_demand =
  sd_hash :: "string option"
  sd_key :: "string option"
  sd_app :: "string option"
  sd_matches :: "port_match list option"
  sd_protocols :: "string list option"

record action_dependency =
  adep_key :: string
  adep_description :: "string option"
  adep_demand :: "action_demand option"
  adep_optional :: bool
  adep_allow_inactive :: bool

record state_dependency =
  sdep_key :: string
  sdep_description :: "string option"
  sdep_demand :: "state_demand option"
  sdep_optional :: bool
  sdep_allow_inactive :: bool

end
