(* ===== verification/Inputs.thy ===== *)
theory Inputs
  imports Messages Port_Inputs
begin

text \<open>
  The pydantic input models the postman and the agent controls take (\<^verbatim>\<open>facade/inputs/task.py\<close>,
  \<^verbatim>\<open>dependency.py\<close>, \<^verbatim>\<open>agent.py\<close>). The strawberry inputs beside them are the same fields.
\<close>

datatype assign_policy = AUTOMATIC | BALANCED | ROUND_ROBIN | LEAST_BUSY | FASTEST_RESPONSE

record mapped_agent_input =
  ma_key :: string
  ma_agent :: string

record resolved_dependency_input =
  rd_key :: string
  rd_mapped_agents :: "mapped_agent_input list"
  rd_auto_resolve :: bool

record assign_input =
  ai_action :: "string option"
  ai_dependency :: "string option"
  ai_resolution :: "string option"
  ai_implementation :: "string option"
  ai_agent :: "string option"
  ai_action_hash :: "string option"
  ai_method :: "string option"
  ai_interface :: "string option"
  ai_hooks :: "hook_input list option"
  ai_args :: "json dict"
  ai_reference :: "string option"
  ai_parent :: "string option"
  ai_cached :: "bool option"
  ai_log :: "bool option"
  ai_capture :: "bool option"
  ai_ephemeral :: "bool option"
  ai_dependencies :: "resolved_dependency_input list option"
  ai_is_hook :: "bool option"
  ai_step :: "bool option"
  ai_policy :: "assign_policy option"

text \<open>An input with the given arguments and every other field at its default.\<close>

definition assign_defaults :: "json dict \<Rightarrow> assign_input" where
  "assign_defaults args =
     \<lparr>ai_action = None, ai_dependency = None, ai_resolution = None, ai_implementation = None,
      ai_agent = None, ai_action_hash = None, ai_method = None, ai_interface = None,
      ai_hooks = None, ai_args = args, ai_reference = None, ai_parent = None, ai_cached = None,
      ai_log = None, ai_capture = None, ai_ephemeral = None, ai_dependencies = None,
      ai_is_hook = None, ai_step = None, ai_policy = None\<rparr>"

record cancel_input =
  cni_task :: string

record pause_input =
  psi_task :: string

record resume_input =
  rsi_task :: string
  rsi_step :: bool

record interrupt_input =
  iti_task :: string

record collect_input =
  cli_drawers :: "string list"

record bounce_input =
  bni_agent :: string

record kick_input =
  kki_agent :: string
  kki_reason :: "string option"

record block_input =
  bki_agent :: string
  bki_reason :: "string option"

record unblock_input =
  ubi_agent :: string

end
