(* ===== verification/Definitions.thy ===== *)
theory Definitions
  imports Port_Inputs "HOL-Library.List_Lexorder" "HOL-Library.Char_ord"
begin

text \<open>
  The definition an implementation is registered under, the validators pydantic runs on it
  (\<^verbatim>\<open>rekuest_core/inputs/models.py\<close>, \<^verbatim>\<open>rekuest_core/units.py\<close>), the inference of an action's scope
  (\<^verbatim>\<open>facade/unique.py\<close>) and of its protocols (\<^verbatim>\<open>facade/infererence\<close>).
\<close>

section \<open>Inputs\<close>

record port_group_input =
  pg_key :: string
  pg_title :: "string option"
  pg_description :: "string option"
  pg_effects :: "effect_input list option"
  pg_ports :: "string list"

record test_target_input =
  tt_hash :: "string option"
  tt_app :: "string option"
  tt_key :: "string option"
  tt_version :: "string option"

record definition_input =
  df_key :: string
  df_version :: string
  df_description :: "string option"
  df_collections :: "string list"
  df_name :: string
  df_stateful :: bool
  df_pure :: bool
  df_idempotent :: bool
  df_port_groups :: "port_group_input list"
  df_args :: "arg_port list"
  df_returns :: "return_port list"
  df_kind :: action_kind
  df_is_test_for :: "test_target_input list"
  df_is_dev :: bool

record agent_dependency_input =
  adp_key :: string
  adp_app :: "string option"
  adp_version :: "string option"
  adp_name :: "string option"
  adp_description :: "string option"
  adp_optional :: bool
  adp_action_dependencies :: "action_dependency list option"
  adp_state_dependencies :: "state_dependency list option"
  adp_auto_resolvable :: bool
  adp_mutually_exclusive_keys :: "string list option"
  adp_min_viable_instances :: "int option"
  adp_max_viable_instances :: "int option"
  adp_prefered_instances :: "int option"

record window_input =
  wi_window_function :: string
  wi_label :: "string option"

record track_input =
  tr_dependency_key :: "string option"
  tr_state_key :: string
  tr_value_key :: string
  tr_label :: "string option"
  tr_description :: "string option"
  tr_windows :: "window_input list option"

record optimistic_input =
  op_state :: string
  op_path :: string
  op_accessor :: "string option"

record implementation_input =
  ii_definition :: definition_input
  ii_dependencies :: "agent_dependency_input list"
  ii_tracks :: "track_input list option"
  ii_interface :: string
  ii_params :: "json dict option"
  ii_instance_id :: "string option"
  ii_locks :: "string list option"
  ii_optimistics :: "optimistic_input list option"
  ii_manipulates :: "string list option"
  ii_needs_token :: bool
  ii_provenance_audience :: "string list option"
  ii_effect :: effect_class

record state_definition_input =
  sdi_ports :: "return_port list"
  sdi_name :: string

record state_implementation_input =
  sii_interface :: string
  sii_key :: "string option"
  sii_app :: "string option"
  sii_definition :: state_definition_input

record lock_definition_input =
  ldi_key :: string
  ldi_description :: "string option"

record lock_implementation_input =
  lii_key :: string
  lii_definition :: lock_definition_input

section \<open>Units\<close>

text \<open>
  A dimensionality is what pint's registry gives for an expression: base dimensions with their
  exponents, here integers below a million in size, which \<^verbatim>\<open>:g\<close> prints as their digits. The registry
  is a parameter; \<open>None\<close> stands for the errors that are caught.
\<close>

type_synonym dimensionality = "(string \<times> int) list"

definition DIMENSIONLESS :: string where
  "DIMENSIONLESS = ''dimensionless''"

definition dim_term :: "string \<times> int \<Rightarrow> string" where
  "dim_term de = (if \<bar>snd de\<bar> = 1 then fst de else fst de @ '' ** '' @ str_of_nat (nat \<bar>snd de\<bar>))"

fun join_with :: "string \<Rightarrow> string list \<Rightarrow> string" where
  "join_with sep [] = []"
| "join_with sep [x] = x"
| "join_with sep (x # y # zs) = x @ sep @ join_with sep (y # zs)"

definition render_dimensionality :: "dimensionality \<Rightarrow> string" where
  "render_dimensionality dims =
     (let positive = sort_key fst (filter (\<lambda>(d, e). 0 < e) dims);
          negative = sort_key fst (filter (\<lambda>(d, e). e < 0) dims) in
      if positive = [] \<and> negative = [] then DIMENSIONLESS
      else fold (\<lambda>de s. s @ '' / '' @ dim_term de) negative
             (if positive = [] then ''1'' else join_with '' * '' (map dim_term positive)))"

definition dimensionality_of :: "(string \<Rightarrow> dimensionality option) \<Rightarrow> string \<Rightarrow> string outcome" where
  "dimensionality_of registry expression =
     (if strip expression = DIMENSIONLESS then Inr DIMENSIONLESS
      else case registry expression of
             None \<Rightarrow> Inl (ValueError ''Unknown or unparseable unit'')
           | Some dims \<Rightarrow> Inr (render_dimensionality dims))"

section \<open>Validation\<close>

definition set_dimension :: "string \<Rightarrow> 'w port \<Rightarrow> 'w port" where
  "set_dimension d p =
     Port (po_validators p) (po_key p) (po_label p) (po_kind p) (po_description p) (po_identifier p)
       (po_nullable p) (po_effects p) (po_default p) (po_choices p) (po_reference_unit p)
       (po_proposed_units p) (Some d) (po_widget p) (po_descriptors p) (po_children p)"

definition set_children :: "'w port list option \<Rightarrow> 'w port \<Rightarrow> 'w port" where
  "set_children cs p =
     Port (po_validators p) (po_key p) (po_label p) (po_kind p) (po_description p) (po_identifier p)
       (po_nullable p) (po_effects p) (po_default p) (po_choices p) (po_reference_unit p)
       (po_proposed_units p) (po_dimension p) (po_widget p) (po_descriptors p) cs"

fun check_proposed :: "(string \<Rightarrow> string outcome) \<Rightarrow> string \<Rightarrow> string list \<Rightarrow> unit outcome" where
  "check_proposed dim derived [] = Inr ()"
| "check_proposed dim derived (u # us) =
     (case dim u of
        Inl e \<Rightarrow> Inl e
      | Inr d \<Rightarrow> (if d \<noteq> derived then Inl (ValueError ''proposed unit'') else check_proposed dim derived us))"

definition check_quantity :: "(string \<Rightarrow> string outcome) \<Rightarrow> 'w port \<Rightarrow> 'w port outcome" where
  "check_quantity dim p =
     (case po_reference_unit p of
        None \<Rightarrow> Inl (ValueError ''QUANTITY port must declare a reference_unit'')
      | Some [] \<Rightarrow> Inl (ValueError ''QUANTITY port must declare a reference_unit'')
      | Some (c # cs) \<Rightarrow>
          (case dim (c # cs) of
             Inl e \<Rightarrow> Inl e
           | Inr derived \<Rightarrow>
               (case (case po_dimension p of None \<Rightarrow> Inr derived | Some d \<Rightarrow> dim d) of
                  Inl e \<Rightarrow> Inl e
                | Inr given \<Rightarrow>
                    (if given \<noteq> derived then Inl (ValueError ''dimension is inconsistent with reference_unit'')
                     else case check_proposed dim derived
                                 (case po_proposed_units p of None \<Rightarrow> [] | Some us \<Rightarrow> us) of
                            Inl e \<Rightarrow> Inl e
                          | Inr _ \<Rightarrow> Inr (set_dimension derived p)))))"

definition check_kind_specific_fields :: "(string \<Rightarrow> string outcome) \<Rightarrow> 'w port \<Rightarrow> 'w port outcome" where
  "check_kind_specific_fields dim p =
     (if po_kind p = P_LIST \<and> (po_children p = None \<or> length (children p) \<noteq> 1) then
        Inl (ValueError ''Port of kind LIST must have exactly one child'')
      else if po_kind p = P_QUANTITY then check_quantity dim p
      else if po_reference_unit p \<noteq> None \<or> po_proposed_units p \<noteq> None \<or> po_dimension p \<noteq> None then
        Inl (ValueError ''Port must not set QUANTITY-only fields'')
      else Inr p)"

text \<open>The children of a port are constructed, and so validated, before the port itself.\<close>

fun map_outcome :: "('a \<Rightarrow> 'b outcome) \<Rightarrow> 'a list \<Rightarrow> 'b list outcome" where
  "map_outcome f [] = Inr []"
| "map_outcome f (x # xs) =
     (case f x of
        Inl e \<Rightarrow> Inl e
      | Inr y \<Rightarrow> (case map_outcome f xs of Inl e \<Rightarrow> Inl e | Inr ys \<Rightarrow> Inr (y # ys)))"

lemma map_outcome_cong [fundef_cong]:
  "xs = ys \<Longrightarrow> (\<And>x. x \<in> set ys \<Longrightarrow> f x = g x) \<Longrightarrow> map_outcome f xs = map_outcome g ys"
  by (induction ys arbitrary: xs) (auto split: sum.split)

fun validate_port :: "(string \<Rightarrow> string outcome) \<Rightarrow> 'w port \<Rightarrow> 'w port outcome" where
  "validate_port dim p =
     (case po_children p of
        None \<Rightarrow> check_kind_specific_fields dim p
      | Some _ \<Rightarrow>
          (case map_outcome (validate_port dim) (children p) of
             Inl e \<Rightarrow> Inl e
           | Inr qs \<Rightarrow> check_kind_specific_fields dim (set_children (Some qs) p)))"

declare validate_port.simps [simp del]

definition check_target :: "test_target_input \<Rightarrow> test_target_input outcome" where
  "check_target t =
     (if tt_hash t \<in> {None, Some []} \<and> tt_key t \<in> {None, Some []}
      then Inl (ValueError ''A test target must provide either a hash or a key'') else Inr t)"

text \<open>What the validators and effects of the arguments refer to must be a root port.\<close>

definition dependencies_known :: "string list \<Rightarrow> string list option \<Rightarrow> bool" where
  "dependencies_known keys deps = (case deps of None \<Rightarrow> True | Some ds \<Rightarrow> list_all (\<lambda>d. d \<in> set keys) ds)"

definition port_dependencies_known :: "string list \<Rightarrow> arg_port \<Rightarrow> bool" where
  "port_dependencies_known keys p \<longleftrightarrow>
     list_all (\<lambda>v. dependencies_known keys (va_dependencies v))
       (case po_validators p of None \<Rightarrow> [] | Some vs \<Rightarrow> vs) \<and>
     list_all (\<lambda>e. dependencies_known keys (ef_dependencies e))
       (case po_effects p of None \<Rightarrow> [] | Some es \<Rightarrow> es)"

definition check_dependencies :: "definition_input \<Rightarrow> definition_input outcome" where
  "check_dependencies d =
     (if list_all (port_dependencies_known (map po_key (df_args d) @ map po_key (df_returns d))) (df_args d)
      then Inr d else Inl (ValueError ''has invalid dependency''))"

section \<open>Scope\<close>

fun traverse_scope :: "'w port \<Rightarrow> bool" where
  "traverse_scope p =
     (if po_kind p = P_MEMORY_STRUCTURE then True
      else if children p \<noteq> [] then list_ex traverse_scope (children p)
      else False)"

declare traverse_scope.simps [simp del]

definition has_locals :: "'w port list \<Rightarrow> bool" where
  "has_locals ports = list_ex traverse_scope ports"

definition infer_action_scope :: "definition_input \<Rightarrow> action_scope" where
  "infer_action_scope d =
     (let local_args = has_locals (df_args d); local_returns = has_locals (df_returns d) in
      if local_args \<and> local_returns then LOCAL
      else if \<not> local_args \<and> \<not> local_returns then GLOBAL
      else if \<not> local_args \<and> local_returns then BRIDGE_GLOBAL_TO_LOCAL
      else BRIDGE_LOCAL_TO_GLOBAL)"

section \<open>Protocols\<close>

text \<open>Each inference names the protocol, with the description of its row.\<close>

definition is_predicate :: "definition_input \<Rightarrow> (string \<times> string) option" where
  "is_predicate d =
     (case df_returns d of
        [p] \<Rightarrow> (if po_kind p = P_BOOL then Some (''predicate'', ''Is this a predicate?'') else None)
      | _ \<Rightarrow> None)"

definition is_hook :: "definition_input \<Rightarrow> (string \<times> string) option" where
  "is_hook d =
     (case df_args d of
        [p] \<Rightarrow> (if po_identifier p = Some ''@rekuest/taskevent'' then Some (''hook'', ''Is this a hook?'') else None)
      | _ \<Rightarrow> None)"

definition is_agent :: "definition_input \<Rightarrow> (string \<times> string) option" where
  "is_agent d =
     (case df_args d of
        [p] \<Rightarrow> (if po_identifier p = Some ''@lok/room'' then Some (''agent'', ''Is this a agent?'') else None)
      | _ \<Rightarrow> None)"

definition infer_protocols :: "definition_input \<Rightarrow> (string \<times> string) list" where
  "infer_protocols d = List.map_filter (\<lambda>f. f d) [is_predicate, is_hook, is_agent]"

end
