(* ===== verification/Grace.thy ===== *)
theory Grace
  imports Prelude
begin

text \<open>
  \<^verbatim>\<open>facade/grace.py\<close>: the keyed single-shot timers that trigger a reconcile, and the windows
  they are armed with. A timer is an asyncio task; its handle is its position in the list of all
  tasks ever created, and \<open>gs_tasks\<close> is the dict \<^verbatim>\<open>_tasks\<close> from key to handle. The coroutine
  \<^verbatim>\<open>_run\<close> has three moments: it wakes up after its sleep (\<open>gs_wake\<close>), runs the action, and
  its \<^verbatim>\<open>finally\<close> pops the key (\<open>gs_finish\<close>). Times and delays are integers, in microseconds.
\<close>

section \<open>The scheduler\<close>

datatype timer_state = Sleeping | Running | Cancelling | Finished

record 'a timer =
  tm_key :: string
  tm_due :: int
  tm_action :: 'a
  tm_state :: timer_state

record 'a grace_scheduler =
  gs_tasks :: "nat dict"
  gs_timers :: "'a timer list"

definition gs_init :: "'a grace_scheduler" where
  "gs_init = \<lparr>gs_tasks = [], gs_timers = []\<rparr>"

text \<open>
  \<^verbatim>\<open>task.cancel()\<close> on a sleeping coroutine makes it return at once; on one whose action is running
  it interrupts the action, after which the \<^verbatim>\<open>finally\<close> still runs; on a done task it does nothing.
\<close>

fun cancel_state :: "timer_state \<Rightarrow> timer_state" where
  "cancel_state Sleeping = Finished"
| "cancel_state Running = Cancelling"
| "cancel_state Cancelling = Cancelling"
| "cancel_state Finished = Finished"

definition gs_set_state :: "nat \<Rightarrow> timer_state \<Rightarrow> 'a grace_scheduler \<Rightarrow> 'a grace_scheduler" where
  "gs_set_state h st g = g\<lparr>gs_timers := (gs_timers g)[h := (gs_timers g ! h)\<lparr>tm_state := st\<rparr>]\<rparr>"

definition gs_cancel :: "string \<Rightarrow> 'a grace_scheduler \<Rightarrow> 'a grace_scheduler" where
  "gs_cancel key g =
     (case dict_get (gs_tasks g) key of
        None \<Rightarrow> g
      | Some h \<Rightarrow>
          gs_set_state h (cancel_state (tm_state (gs_timers g ! h)))
            (g\<lparr>gs_tasks := AList.delete key (gs_tasks g)\<rparr>))"

definition gs_schedule :: "int \<Rightarrow> string \<Rightarrow> int \<Rightarrow> 'a \<Rightarrow> 'a grace_scheduler \<Rightarrow> 'a grace_scheduler" where
  "gs_schedule now key delay act g =
     (let g1 = gs_cancel key g in
      g1\<lparr>gs_tasks := dict_set key (length (gs_timers g1)) (gs_tasks g1),
         gs_timers := gs_timers g1 @
           [\<lparr>tm_key = key, tm_due = now + delay, tm_action = act, tm_state = Sleeping\<rparr>]\<rparr>)"

text \<open>The sleep of handle \<open>h\<close> is over: the action may run.\<close>

definition gs_due :: "int \<Rightarrow> nat \<Rightarrow> 'a grace_scheduler \<Rightarrow> bool" where
  "gs_due now h g \<longleftrightarrow>
     h < length (gs_timers g) \<and> tm_state (gs_timers g ! h) = Sleeping \<and> tm_due (gs_timers g ! h) \<le> now"

definition gs_wake :: "int \<Rightarrow> nat \<Rightarrow> 'a grace_scheduler \<Rightarrow> 'a grace_scheduler" where
  "gs_wake now h g = (if gs_due now h g then gs_set_state h Running g else g)"

text \<open>The action of handle \<open>h\<close> returned or was interrupted: \<^verbatim>\<open>self._tasks.pop(key, None)\<close>.\<close>

definition gs_finish :: "nat \<Rightarrow> 'a grace_scheduler \<Rightarrow> 'a grace_scheduler" where
  "gs_finish h g =
     (if h < length (gs_timers g) \<and> tm_state (gs_timers g ! h) \<in> {Running, Cancelling}
      then gs_set_state h Finished
             (g\<lparr>gs_tasks := AList.delete (tm_key (gs_timers g ! h)) (gs_tasks g)\<rparr>)
      else g)"

definition gs_contains :: "string \<Rightarrow> 'a grace_scheduler \<Rightarrow> bool" where
  "gs_contains key g \<longleftrightarrow> dict_has (gs_tasks g) key"

section \<open>The windows\<close>

text \<open>The settings \<^verbatim>\<open>REKUEST_GRACE\<close>: \<^verbatim>\<open>DEFAULT\<close>, \<^verbatim>\<open>PHYSICAL\<close> and \<^verbatim>\<open>PROGRESS_LEASE\<close>.\<close>

record grace_settings =
  gc_default :: "int option"
  gc_physical :: "int option"
  gc_progress_lease :: "int option"

definition grace_seconds :: "grace_settings \<Rightarrow> bool \<Rightarrow> int" where
  "grace_seconds cfg physical =
     (case (physical, gc_physical cfg) of
        (True, Some p) \<Rightarrow> p
      | _ \<Rightarrow> (case gc_default cfg of None \<Rightarrow> 0 | Some d \<Rightarrow> d))"

definition progress_lease_seconds :: "grace_settings \<Rightarrow> int" where
  "progress_lease_seconds cfg = (case gc_progress_lease cfg of None \<Rightarrow> 0 | Some p \<Rightarrow> p)"

section \<open>The scheduler invariant\<close>

text \<open>
  Every registered handle is a live timer of that key, and every sleeping timer is the one
  registered under its key, so that \<^verbatim>\<open>cancel\<close> reaches it.
\<close>

definition gs_live :: "'a grace_scheduler \<Rightarrow> bool" where
  "gs_live g \<longleftrightarrow>
     (\<forall>k h. dict_get (gs_tasks g) k = Some h \<longrightarrow>
        h < length (gs_timers g) \<and> tm_key (gs_timers g ! h) = k \<and>
        tm_state (gs_timers g ! h) \<in> {Sleeping, Running})"

definition gs_reachable_sleepers :: "'a grace_scheduler \<Rightarrow> bool" where
  "gs_reachable_sleepers g \<longleftrightarrow>
     (\<forall>h < length (gs_timers g). tm_state (gs_timers g ! h) = Sleeping \<longrightarrow>
        dict_get (gs_tasks g) (tm_key (gs_timers g ! h)) = Some h)"

definition gs_wf :: "'a grace_scheduler \<Rightarrow> bool" where
  "gs_wf g \<longleftrightarrow> gs_live g \<and> gs_reachable_sleepers g"

definition gs_sleeping :: "string \<Rightarrow> 'a grace_scheduler \<Rightarrow> nat set" where
  "gs_sleeping key g =
     {h. h < length (gs_timers g) \<and> tm_state (gs_timers g ! h) = Sleeping \<and> tm_key (gs_timers g ! h) = key}"

lemma dict_get_delete [simp]:
  "dict_get (AList.delete k d) k' = (if k' = k then None else dict_get d k')"
  by (simp add: dict_get_def delete_conv')

lemma gs_set_state_simps [simp]:
  "gs_tasks (gs_set_state h st g) = gs_tasks g"
  "length (gs_timers (gs_set_state h st g)) = length (gs_timers g)"
  "h' < length (gs_timers g) \<Longrightarrow> tm_key (gs_timers (gs_set_state h st g) ! h') = tm_key (gs_timers g ! h')"
  "h' < length (gs_timers g) \<Longrightarrow> tm_state (gs_timers (gs_set_state h st g) ! h') =
     (if h' = h then st else tm_state (gs_timers g ! h'))"
  by (cases "h' = h", auto simp: gs_set_state_def nth_list_update)+

lemma gs_wf_init: "gs_wf gs_init"
  by (simp add: gs_wf_def gs_live_def gs_reachable_sleepers_def gs_init_def dict_get_def)

lemma gs_wf_drop:
  assumes "gs_wf g" and "dict_get (gs_tasks g) k = Some h" and "st \<noteq> Sleeping"
  shows "gs_wf (gs_set_state h st (g\<lparr>gs_tasks := AList.delete k (gs_tasks g)\<rparr>))"
proof -
  let ?g = "g\<lparr>gs_tasks := AList.delete k (gs_tasks g)\<rparr>"
  have h: "h < length (gs_timers g)" "tm_key (gs_timers g ! h) = k"
    using assms by (auto simp: gs_wf_def gs_live_def)
  have live: "gs_live (gs_set_state h st ?g)"
    unfolding gs_live_def
  proof (intro allI impI)
    fix k' h'
    assume "dict_get (gs_tasks (gs_set_state h st ?g)) k' = Some h'"
    then have k': "k' \<noteq> k" "dict_get (gs_tasks g) k' = Some h'" by (auto split: if_splits)
    then have "h' < length (gs_timers g)" "tm_key (gs_timers g ! h') = k'"
      "tm_state (gs_timers g ! h') \<in> {Sleeping, Running}"
      using assms(1) unfolding gs_wf_def gs_live_def by blast+
    moreover from this(2) k'(1) h(2) have "h' \<noteq> h" by auto
    ultimately show "h' < length (gs_timers (gs_set_state h st ?g)) \<and>
      tm_key (gs_timers (gs_set_state h st ?g) ! h') = k' \<and>
      tm_state (gs_timers (gs_set_state h st ?g) ! h') \<in> {Sleeping, Running}" by simp
  qed
  have "gs_reachable_sleepers (gs_set_state h st ?g)"
    unfolding gs_reachable_sleepers_def
  proof (intro allI impI)
    fix h'
    assume h': "h' < length (gs_timers (gs_set_state h st ?g))"
      and sl: "tm_state (gs_timers (gs_set_state h st ?g) ! h') = Sleeping"
    from h' have l: "h' < length (gs_timers g)" by simp
    from sl l assms(3) have ne: "h' \<noteq> h" and s: "tm_state (gs_timers g ! h') = Sleeping"
      by (auto split: if_splits)
    from assms(1) l s have r: "dict_get (gs_tasks g) (tm_key (gs_timers g ! h')) = Some h'"
      by (auto simp: gs_wf_def gs_reachable_sleepers_def)
    with ne assms(2) have "tm_key (gs_timers g ! h') \<noteq> k" by auto
    with r l show "dict_get (gs_tasks (gs_set_state h st ?g))
      (tm_key (gs_timers (gs_set_state h st ?g) ! h')) = Some h'" by simp
  qed
  with live show ?thesis by (simp add: gs_wf_def)
qed

lemma gs_wf_cancel: "gs_wf g \<Longrightarrow> gs_wf (gs_cancel key g)"
proof -
  assume wf: "gs_wf g"
  show ?thesis
  proof (cases "dict_get (gs_tasks g) key")
    case None
    with wf show ?thesis by (simp add: gs_cancel_def)
  next
    case (Some h)
    have "cancel_state (tm_state (gs_timers g ! h)) \<noteq> Sleeping" by (cases "tm_state (gs_timers g ! h)") auto
    from gs_wf_drop [OF wf Some this] Some show ?thesis by (simp add: gs_cancel_def)
  qed
qed

lemma gs_cancel_unregisters: "dict_get (gs_tasks (gs_cancel key g)) key = None"
  by (auto simp: gs_cancel_def split: option.split)

lemma gs_sleeping_registered:
  "gs_wf g \<Longrightarrow> h \<in> gs_sleeping key g \<Longrightarrow> dict_get (gs_tasks g) key = Some h"
  by (auto simp: gs_wf_def gs_reachable_sleepers_def gs_sleeping_def)

lemma gs_sleeping_cancel: "gs_wf g \<Longrightarrow> gs_sleeping key (gs_cancel key g) = {}"
  using gs_wf_cancel [of g key] gs_sleeping_registered [of "gs_cancel key g" _ key]
    gs_cancel_unregisters [of key g] by fastforce

lemma gs_wf_append:
  assumes "gs_wf g" and "dict_get (gs_tasks g) key = None"
  shows "gs_wf (g\<lparr>gs_tasks := dict_set key (length (gs_timers g)) (gs_tasks g),
    gs_timers := gs_timers g @ [\<lparr>tm_key = key, tm_due = d, tm_action = a, tm_state = Sleeping\<rparr>]\<rparr>)"
  using assms
  by (fastforce simp: gs_wf_def gs_live_def gs_reachable_sleepers_def nth_append less_Suc_eq)

lemma gs_wf_schedule: "gs_wf g \<Longrightarrow> gs_wf (gs_schedule now key delay act g)"
  unfolding gs_schedule_def Let_def
  by (rule gs_wf_append [OF gs_wf_cancel gs_cancel_unregisters])

lemma gs_wf_wake: "gs_wf g \<Longrightarrow> gs_wf (gs_wake now h g)"
  by (auto simp: gs_wake_def gs_due_def gs_wf_def gs_live_def gs_reachable_sleepers_def)

text \<open>After \<^const>\<open>gs_schedule\<close> the new timer is the only one of its key that sleeps.\<close>

lemma gs_cancel_timers: "length (gs_timers (gs_cancel key g)) = length (gs_timers g)"
  by (simp add: gs_cancel_def split: option.split)

lemma gs_schedule_new:
  "gs_timers (gs_schedule t key delay act g) ! length (gs_timers g) =
     \<lparr>tm_key = key, tm_due = t + delay, tm_action = act, tm_state = Sleeping\<rparr>"
  "length (gs_timers (gs_schedule t key delay act g)) = Suc (length (gs_timers g))"
  by (simp_all add: gs_schedule_def Let_def gs_cancel_timers nth_append)

lemma gs_sleeping_schedule:
  assumes "gs_wf g"
  shows "gs_sleeping key (gs_schedule t key delay act g) = {length (gs_timers g)}"
proof -
  let ?g = "gs_schedule t key delay act g"
  have "dict_get (gs_tasks ?g) key = Some (length (gs_timers g))"
    by (simp add: gs_schedule_def Let_def gs_cancel_timers)
  moreover have "length (gs_timers g) \<in> gs_sleeping key ?g"
    by (simp add: gs_sleeping_def gs_schedule_new)
  ultimately show ?thesis
    using gs_sleeping_registered [OF gs_wf_schedule [OF assms], of _ key] by fastforce
qed

text \<open>A timer that is still the registered one may finish.\<close>

lemma gs_wf_finish:
  assumes "gs_wf g" and "dict_get (gs_tasks g) (tm_key (gs_timers g ! h)) = Some h"
  shows "gs_wf (gs_finish h g)"
  using assms gs_wf_drop [OF assms, of Finished] by (simp add: gs_finish_def)

end
