(* ===== verification/Agent_Queue.thy ===== *)
theory Agent_Queue
  imports Prelude
begin

text \<open>
  \<^verbatim>\<open>facade/consumers/agent_queue.py\<close> and the relay loop \<^verbatim>\<open>listen_for_tasks\<close> of
  \<^verbatim>\<open>agent_protocol.py\<close>. The port \<^verbatim>\<open>AgentQueue\<close> is the locale \<open>message_queue\<close>; the redis and the
  in-memory queue are its two interpretations. Only the redis queue is a \<open>durable_queue\<close>: it keeps
  a popped message in a holding list until it is acknowledged. A message is of an arbitrary type
  here; the redis server is a map from keys to lists, leftmost element first.
\<close>

section \<open>The redis queue\<close>

type_synonym 'm redis = "string \<Rightarrow> 'm list"

definition QUEUE_SUFFIX :: string where
  "QUEUE_SUFFIX = ''_my_queue''"

definition PROCESSING_SUFFIX :: string where
  "PROCESSING_SUFFIX = ''_processing''"

definition queue_key :: "string \<Rightarrow> string" where
  "queue_key agent_id = agent_id @ QUEUE_SUFFIX"

definition processing_key :: "string \<Rightarrow> string" where
  "processing_key agent_id = agent_id @ PROCESSING_SUFFIX"

text \<open>\<^verbatim>\<open>lpush\<close>; \<^verbatim>\<open>blmove ... src=RIGHT dest=LEFT\<close>, which blocks on an empty list; \<^verbatim>\<open>lrem key 0 m\<close>.\<close>

definition redis_push :: "string \<Rightarrow> 'm \<Rightarrow> 'm redis \<Rightarrow> 'm redis" where
  "redis_push a m r = r(queue_key a := m # r (queue_key a))"

definition redis_pop :: "string \<Rightarrow> 'm redis \<Rightarrow> ('m \<times> 'm redis) option" where
  "redis_pop a r =
     (case r (queue_key a) of
        [] \<Rightarrow> None
      | ms \<Rightarrow> Some (last ms, r(queue_key a := butlast ms,
                               processing_key a := last ms # r (processing_key a))))"

definition redis_ack :: "string \<Rightarrow> 'm \<Rightarrow> 'm redis \<Rightarrow> 'm redis" where
  "redis_ack a m r = r(processing_key a := filter (\<lambda>x. x \<noteq> m) (r (processing_key a)))"

section \<open>The in-memory queue\<close>

type_synonym 'm memory_queue = "string \<Rightarrow> 'm list"

definition memory_push :: "string \<Rightarrow> 'm \<Rightarrow> 'm memory_queue \<Rightarrow> 'm memory_queue" where
  "memory_push a m q = q(a := q a @ [m])"

definition memory_pop :: "string \<Rightarrow> 'm memory_queue \<Rightarrow> ('m \<times> 'm memory_queue) option" where
  "memory_pop a q = (case q a of [] \<Rightarrow> None | m # ms \<Rightarrow> Some (m, q(a := ms)))"

definition memory_ack :: "string \<Rightarrow> 'm \<Rightarrow> 'm memory_queue \<Rightarrow> 'm memory_queue" where
  "memory_ack a m q = q"

section \<open>The relay loop\<close>

text \<open>
  \<^verbatim>\<open>listen_for_tasks\<close>: pop, send, ack. An iteration may be cut by a crash after the pop or after
  the send; a run is a list of iterations. The loop blocks on an empty queue, which ends the run.
\<close>

datatype iteration = Whole | Crash_after_pop | Crash_after_send

fun listen :: "(string \<Rightarrow> 'q \<Rightarrow> ('m \<times> 'q) option) \<Rightarrow> (string \<Rightarrow> 'm \<Rightarrow> 'q \<Rightarrow> 'q) \<Rightarrow> string
    \<Rightarrow> iteration list \<Rightarrow> 'q \<Rightarrow> 'm list \<times> 'q" where
  "listen pop ack a [] q = ([], q)"
| "listen pop ack a (it # its) q =
     (case pop a q of
        None \<Rightarrow> ([], q)
      | Some (m, q1) \<Rightarrow>
          (case it of
             Crash_after_pop \<Rightarrow> ([], q1)
           | Crash_after_send \<Rightarrow> ([m], q1)
           | Whole \<Rightarrow> (let (sent, q2) = listen pop ack a its (ack a m q1) in (m # sent, q2))))"

section \<open>The port\<close>

locale message_queue =
  fixes push :: "string \<Rightarrow> 'm \<Rightarrow> 'q \<Rightarrow> 'q"
    and pop :: "string \<Rightarrow> 'q \<Rightarrow> ('m \<times> 'q) option"
    and ack :: "string \<Rightarrow> 'm \<Rightarrow> 'q \<Rightarrow> 'q"
    and waiting :: "string \<Rightarrow> 'q \<Rightarrow> 'm list"
  assumes waiting_push: "waiting b (push a m q) = (if b = a then waiting a q @ [m] else waiting b q)"
    and pop_None: "pop a q = None \<longleftrightarrow> waiting a q = []"
    and pop_Some: "pop a q = Some (m, q') \<Longrightarrow> waiting a q = m # waiting a q'"
    and pop_other: "pop a q = Some (m, q') \<Longrightarrow> b \<noteq> a \<Longrightarrow> waiting b q' = waiting b q"
    and waiting_ack: "waiting b (ack a m q) = waiting b q"
begin

lemma waiting_push_all: "waiting a (fold (push a) ms q) = waiting a q @ ms"
  by (induction ms arbitrary: q) (simp_all add: waiting_push)

text \<open>Uninterrupted, the loop sends what waits, oldest first, and leaves nothing behind.\<close>

lemma listen_fifo:
  "length (waiting a q) \<le> n \<Longrightarrow>
   fst (listen pop ack a (replicate n Whole) q) = waiting a q \<and>
   waiting a (snd (listen pop ack a (replicate n Whole) q)) = []"
proof (induction n arbitrary: q)
  case 0
  then show ?case by simp
next
  case (Suc n)
  show ?case
  proof (cases "pop a q")
    case None
    have "waiting a q = []" using None by (simp add: pop_None)
    with None show ?thesis by simp
  next
    case (Some mq)
    obtain m q1 where mq: "mq = (m, q1)" by (cases mq)
    with Some have w: "waiting a q = m # waiting a q1" by (simp add: pop_Some)
    then have "length (waiting a (ack a m q1)) \<le> n" using Suc.prems by (simp add: waiting_ack)
    from Suc.IH [OF this] Some w show ?thesis by (simp add: mq waiting_ack split_beta)
  qed
qed

lemma listen_delivers_pushed:
  assumes "waiting a q = []"
  shows "fst (listen pop ack a (replicate (length ms) Whole) (fold (push a) ms q)) = ms"
  using listen_fifo [of a "fold (push a) ms q" "length ms"] assms by (simp add: waiting_push_all)

lemma listen_other: "b \<noteq> a \<Longrightarrow> waiting b (snd (listen pop ack a its q)) = waiting b q"
proof (induction its arbitrary: q)
  case Nil
  then show ?case by simp
next
  case (Cons it its)
  then show ?case
    by (auto simp: waiting_ack pop_other split_beta split: option.split iteration.split)
qed

text \<open>What a run sends are messages that were waiting: nothing is delivered that was not pushed.\<close>

lemma listen_sent_waiting: "set (fst (listen pop ack a its q)) \<subseteq> set (waiting a q)"
proof (induction its arbitrary: q)
  case Nil
  then show ?case by simp
next
  case (Cons it its)
  show ?case
  proof (cases "pop a q")
    case None
    then show ?thesis by simp
  next
    case (Some mq)
    obtain m q1 where mq: "mq = (m, q1)" by (cases mq)
    with Some have w: "waiting a q = m # waiting a q1" by (simp add: pop_Some)
    have "set (fst (listen pop ack a its (ack a m q1))) \<subseteq> set (waiting a q1)"
      using Cons.IH [of "ack a m q1"] by (simp add: waiting_ack)
    with Some w show ?thesis by (auto simp: mq split_beta split: iteration.split)
  qed
qed

end

text \<open>A queue that holds a popped message until it is acknowledged.\<close>

locale durable_queue = message_queue +
  fixes holding :: "string \<Rightarrow> 'b \<Rightarrow> 'a list"
  assumes holding_push: "holding b (push a m q) = holding b q"
    and holding_pop: "pop a q = Some (m, q') \<Longrightarrow> holding b q' = (if b = a then m # holding a q else holding b q)"
    and holding_ack: "holding b (ack a m q) =
      (if b = a then filter (\<lambda>x. x \<noteq> m) (holding a q) else holding b q)"
begin

text \<open>
  At least once: wherever a run is cut, a message that was waiting has been sent, still waits, or
  is held.
\<close>

lemma listen_no_loss:
  "set (waiting a q) \<subseteq>
     set (fst (listen pop ack a its q)) \<union> set (waiting a (snd (listen pop ack a its q)))
       \<union> set (holding a (snd (listen pop ack a its q)))"
proof (induction its arbitrary: q)
  case Nil
  then show ?case by simp
next
  case (Cons it its)
  show ?case
  proof (cases "pop a q")
    case None
    then show ?thesis by simp
  next
    case (Some mq)
    obtain m q1 where mq: "mq = (m, q1)" by (cases mq)
    with Some have w: "waiting a q = m # waiting a q1" by (simp add: pop_Some)
    from Some mq have h: "holding a q1 = m # holding a q" using holding_pop by fastforce
    show ?thesis
    proof (cases it)
      case Whole
      with Cons.IH [of "ack a m q1"] Some w show ?thesis by (auto simp: mq waiting_ack split_beta)
    next
      case Crash_after_pop
      with Some w h show ?thesis by (auto simp: mq)
    next
      case Crash_after_send
      with Some w h show ?thesis by (auto simp: mq)
    qed
  qed
qed

text \<open>No operation of the port takes a held message back: it is sent again only if pushed again.\<close>

lemma held_not_redelivered:
  assumes "m \<notin> set (waiting a q)"
  shows "m \<notin> set (fst (listen pop ack a its q))"
  using listen_sent_waiting assms by blast

end

section \<open>The providers\<close>

definition redis_waiting :: "string \<Rightarrow> 'm redis \<Rightarrow> 'm list" where
  "redis_waiting a r = rev (r (queue_key a))"

definition redis_holding :: "string \<Rightarrow> 'm redis \<Rightarrow> 'm list" where
  "redis_holding a r = r (processing_key a)"

lemma queue_key_inject [simp]: "queue_key a = queue_key b \<longleftrightarrow> a = b"
  by (simp add: queue_key_def)

lemma processing_key_inject [simp]: "processing_key a = processing_key b \<longleftrightarrow> a = b"
  by (simp add: processing_key_def)

lemma keys_disjoint [simp]: "queue_key a \<noteq> processing_key b" "processing_key b \<noteq> queue_key a"
proof -
  have "last (queue_key a) \<noteq> last (processing_key b)"
    by (simp add: queue_key_def processing_key_def QUEUE_SUFFIX_def PROCESSING_SUFFIX_def)
  then show "queue_key a \<noteq> processing_key b" "processing_key b \<noteq> queue_key a" by auto
qed

lemma redis_pop_Some:
  "redis_pop a r = Some (m, r') \<longleftrightarrow>
     r (queue_key a) \<noteq> [] \<and> m = last (r (queue_key a)) \<and>
     r' = r(queue_key a := butlast (r (queue_key a)), processing_key a := m # r (processing_key a))"
  by (cases "r (queue_key a)") (auto simp: redis_pop_def)

lemma redis_pop_None: "redis_pop a r = None \<longleftrightarrow> r (queue_key a) = []"
  by (auto simp: redis_pop_def split: list.split)

lemma rev_last_butlast: "xs \<noteq> [] \<Longrightarrow> rev xs = last xs # rev (butlast xs)"
  by (cases xs rule: rev_cases) auto

interpretation redis_queue: durable_queue redis_push redis_pop redis_ack redis_waiting redis_holding
  by unfold_locales
    (auto simp: redis_push_def redis_pop_Some redis_pop_None redis_ack_def redis_waiting_def
      redis_holding_def rev_last_butlast)

definition memory_waiting :: "string \<Rightarrow> 'm memory_queue \<Rightarrow> 'm list" where
  "memory_waiting a q = q a"

interpretation in_memory_queue: message_queue memory_push memory_pop memory_ack memory_waiting
  by unfold_locales
    (auto simp: memory_push_def memory_pop_def memory_ack_def memory_waiting_def split: list.splits)

end
