(* ===== verification/Models.thy ===== *)
theory Models
  imports Inputs Definitions Grace Agent_Queue
begin

text \<open>
  The rows of \<^verbatim>\<open>facade/models\<close>, the configuration and third-party functions a request runs under
  (\<open>env\<close>), and the state every operation reads and writes (\<open>world\<close>): the tables, the redis
  lists, what was posted to webhooks and broadcast on the channel layer, and the in-memory timers.

  Columns nothing in the modelled code reads or writes (the \<^verbatim>\<open>pinned_by\<close> relations and the
  \<^verbatim>\<open>updated_at\<close> stamps) are left out. A foreign key is the key of its row; users, clients,
  organisations, apps and releases are rows of the authentication package and stay keys.
\<close>

section \<open>Agents and callers\<close>

record lock_row =
  lo_agent :: nat
  lo_key :: string
  lo_description :: "string option"
  lo_hold_by :: "nat option"

record agent =
  ag_app :: nat
  ag_hash :: string
  ag_release :: nat
  ag_name :: string
  ag_health_check_interval :: int
  ag_user :: nat
  ag_unique :: string
  ag_active_connection_id :: "string option"
  ag_active_session_id :: "string option"
  ag_lease_epoch :: int
  ag_on_instance :: string
  ag_kind :: agent_kind
  ag_hook_url :: "string option"
  ag_hook_url_secret :: "string option"
  ag_connected :: bool
  ag_last_seen :: "int option"
  ag_client :: nat
  ag_organization :: nat
  ag_blocked :: bool

record memory_shelve =
  sh_agent :: nat
  sh_name :: string
  sh_description :: string
  sh_creator :: nat

record memory_drawer =
  dr_shelve :: nat
  dr_resource_id :: "string option"
  dr_identifier :: string
  dr_label :: "string option"
  dr_description :: "string option"

record caller =
  cl_client :: nat
  cl_user :: nat
  cl_organization :: nat

section \<open>Actions and implementations\<close>

record action =
  ac_app :: nat
  ac_key :: string
  ac_version :: string
  ac_pure :: bool
  ac_idempotent :: bool
  ac_stateful :: bool
  ac_kind :: action_kind
  ac_name :: string
  ac_description :: string
  ac_scope :: action_scope
  ac_is_dev :: bool
  ac_hash :: string
  ac_organization :: nat
  ac_args :: "json list"
  ac_returns :: "json list"
  ac_port_groups :: "json list"
  ac_collections :: "nat list"
  ac_is_test_for :: "nat list"
  ac_protocols :: "nat list"
  ac_arg_count :: int
  ac_return_count :: int

text \<open>A row of the argument or of the return port table, which have the same columns.\<close>

record port_row =
  pr_action :: nat
  pr_parent :: "nat option"
  pr_index :: int
  pr_key :: string
  pr_key_path :: string
  pr_kind :: port_kind
  pr_identifier :: "string option"
  pr_dimension :: "string option"
  pr_compiled_jsonpath :: "string option"
  pr_nullable :: bool

record protocol_row =
  pt_name :: string
  pt_description :: string

record collection_row =
  co_name :: string
  co_creator :: nat
  co_organization :: nat

record dependency =
  de_implementation :: nat
  de_key :: string
  de_action_demands :: "action_dependency list"
  de_state_demands :: "state_dependency list"
  de_auto_resolvable :: bool
  de_app_filter :: "string option"
  de_version_filter :: "string option"
  de_optional :: bool
  de_min_viable_instances :: "int option"
  de_max_viable_instances :: "int option"
  de_prefered_instances :: "int option"

record implementation =
  im_release :: nat
  im_interface :: string
  im_action :: nat
  im_agent :: nat
  im_name :: string
  im_higher_order_for :: "nat option"
  im_higher_order_config :: "json dict"
  im_params :: "json dict"
  im_tracks :: "json list"
  im_manipulates :: "nat list"
  im_needs_token :: bool
  im_provenance_audience :: "string list option"
  im_effect :: effect_class

section \<open>Resolutions\<close>

record resolution =
  rsn_name :: "string option"
  rsn_is_template :: bool
  rsn_implementation :: nat
  rsn_creator :: nat
  rsn_organization :: nat

record resolved_dependency =
  rsd_resolution :: nat
  rsd_dependency :: "nat option"
  rsd_key :: string
  rsd_resolution_key :: "string option"
  rsd_implementation :: nat
  rsd_down_stream_resolution :: "nat option"

section \<open>Tasks and their events\<close>

record task =
  tk_acted_on :: "string list"
  tk_implementation :: "nat option"
  tk_resolution :: "nat option"
  tk_action :: nat
  tk_ephemeral :: bool
  tk_hooks :: "json list"
  tk_reference :: string
  tk_dependency :: "string option"
  tk_dependency_method :: "string option"
  tk_capture :: bool
  tk_parent :: "nat option"
  tk_root :: "nat option"
  tk_args :: "json dict"
  tk_args_hash :: "string option"
  tk_dependencies :: "json dict"
  tk_caller :: "nat option"
  tk_agent :: nat
  tk_latest_event_kind :: task_event_kind
  tk_latest_instruct_kind :: task_instruct_kind
  tk_is_done :: bool
  tk_created_at :: int
  tk_finished_at :: "int option"

text \<open>The column \<^verbatim>\<open>level\<close> is declared over the event kinds, not over the log levels.\<close>

record task_event =
  te_created_at :: int
  te_task :: nat
  te_delegated_to :: "nat option"
  te_returns :: "json dict option"
  te_progress :: "int option"
  te_message :: "string option"
  te_kind :: task_event_kind
  te_level :: "task_event_kind option"

section \<open>States\<close>

record state_definition =
  sdf_name :: string
  sdf_hash :: string
  sdf_ports :: "json list"
  sdf_description :: string

record state =
  st_definition :: nat
  st_interface :: string
  st_key :: "string option"
  st_app_identifier :: "string option"
  st_agent :: nat
  st_value :: "json dict"

record session =
  se_agent :: nat
  se_session_id :: string
  se_active :: bool
  se_created_at :: int

record patch =
  pt_state :: nat
  pt_agent :: "nat option"
  pt_interface :: string
  pt_session :: "nat option"
  pt_op :: string
  pt_path :: string
  pt_value :: json
  pt_timestamp :: int
  pt_global_rev :: int
  pt_task :: "nat option"

record snapshot =
  sn_state :: nat
  sn_agent :: "nat option"
  sn_session :: "nat option"
  sn_value :: json
  sn_timestamp :: int
  sn_global_rev :: int

section \<open>Channel events\<close>

text \<open>\<^verbatim>\<open>facade/channel_events.py\<close> and, per event class, the channels of \<^verbatim>\<open>facade/channels.py\<close>.\<close>

record task_event_created =
  tec_event :: "nat option"
  tec_create :: "nat option"

record child_task_event =
  cte_create :: "nat option"
  cte_update :: "nat option"

record agent_change =
  agc_create :: "nat option"
  agc_update :: "nat option"
  agc_delete :: "nat option"

record patch_event =
  pev_create :: nat
  pev_state :: nat
  pev_agent :: "nat option"

datatype broadcast =
    On_task_event task_event_created "string list"
  | On_agent_task child_task_event "string list"
  | On_child_task child_task_event "string list"
  | On_agent_updated agent_change "string list"
  | On_patch patch_event "string list"

section \<open>Environment and world\<close>

text \<open>
  A POST to a webhook: the address, the message and its HMAC header when the agent has a secret.
\<close>

record hook_post =
  hp_url :: string
  hp_body :: to_agent_message
  hp_signature :: "string option"

text \<open>
  What the code takes from outside \<^verbatim>\<open>src\<close>: the settings, the identity columns of the
  authentication package, pydantic's \<^verbatim>\<open>model_dump_json\<close> and \<^verbatim>\<open>model_dump\<close>, SHA-256 and HMAC, the
  JWS signature, the supply of \<^verbatim>\<open>uuid4\<close> strings, the draws of \<^verbatim>\<open>random.choice\<close>, whether a POST
  succeeds, whether the database's \<^verbatim>\<open>jsonb_path_match\<close> of an object and a predicate is true, and
  what \<^verbatim>\<open>jsonpatch\<close> makes of an operation and a document.
  Windows are in microseconds, the unit of every time stamp.
\<close>

record ('claims) env =
  agent_stale_after :: "int option"
  agent_heartbeat_interval :: int
  grace_cfg :: grace_settings
  prov_strict :: bool
  prov_human_roles :: "string list"
  prov_issuer :: string
  prov_kid :: string
  prov_ttl_seconds :: int
  user_sub :: "nat \<Rightarrow> string"
  org_slug :: "nat \<Rightarrow> string"
  client_id_of :: "nat \<Rightarrow> string"
  app_identifier_of :: "nat \<Rightarrow> string"
  client_release :: "nat \<Rightarrow> nat"
  release_app :: "nat \<Rightarrow> nat"
  memberships :: "(nat \<times> nat \<times> string list) list"
  dump_json :: "to_agent_message \<Rightarrow> string"
  sha256_hex :: "string \<Rightarrow> string"
  hmac_sha256_hex :: "string \<Rightarrow> string \<Rightarrow> string"
  jws_encode :: "'claims \<Rightarrow> string"
  uuid4 :: "nat \<Rightarrow> string"
  random_choice :: "nat \<Rightarrow> nat"
  post_succeeds :: "hook_post \<Rightarrow> bool"
  dump_arg_port :: "arg_port \<Rightarrow> json"
  dump_return_port :: "return_port \<Rightarrow> json"
  dump_port_group :: "port_group_input \<Rightarrow> json"
  dump_track :: "track_input \<Rightarrow> json"
  dump_definition :: "definition_input \<Rightarrow> json dict"
  dump_state_definition :: "state_definition_input \<Rightarrow> json dict"
  jsonb_path_match :: "string \<Rightarrow> string \<Rightarrow> bool"
  json_patch :: "json \<Rightarrow> json \<Rightarrow> json option"

text \<open>
  The action a timer runs: the two reconciles and the escalation, each with the key it closes over.
\<close>

datatype timer_action =
    Reconcile_orphans nat
  | Reconcile_silent string
  | Escalate string

record world =
  now :: int
  draws :: nat
  w_agents :: "agent table"
  w_callers :: "caller table"
  w_actions :: "action table"
  w_implementations :: "implementation table"
  w_dependencies :: "dependency table"
  w_resolutions :: "resolution table"
  w_resolved :: "resolved_dependency table"
  w_arg_ports :: "port_row table"
  w_return_ports :: "port_row table"
  w_protocols :: "protocol_row table"
  w_collections :: "collection_row table"
  w_state_definitions :: "state_definition table"
  w_tasks :: "task table"
  w_events :: "task_event table"
  w_locks :: "lock_row table"
  w_states :: "state table"
  w_sessions :: "session table"
  w_patches :: "patch table"
  w_snapshots :: "snapshot table"
  w_shelves :: "memory_shelve table"
  w_drawers :: "memory_drawer table"
  w_redis :: "to_agent_message redis"
  w_posts :: "hook_post list"
  w_channel :: "broadcast list"
  executor_grace :: "timer_action grace_scheduler"
  progress_leases :: "timer_action grace_scheduler"
  auto_interrupt :: "timer_action grace_scheduler"

text \<open>\<^verbatim>\<open>str(uuid.uuid4())\<close>, the default id of every message.\<close>

definition fresh_uuid :: "'c env \<Rightarrow> world \<Rightarrow> string \<times> world" where
  "fresh_uuid env w = (uuid4 env (draws w), w\<lparr>draws := Suc (draws w)\<rparr>)"

definition emit :: "broadcast \<Rightarrow> world \<Rightarrow> world" where
  "emit b w = w\<lparr>w_channel := w_channel w @ [b]\<rparr>"

definition empty_world :: world where
  "empty_world =
     \<lparr>now = 0, draws = 0, w_agents = t_empty, w_callers = t_empty, w_actions = t_empty,
      w_implementations = t_empty, w_dependencies = t_empty,
      w_resolutions = t_empty, w_resolved = t_empty,
      w_arg_ports = t_empty, w_return_ports = t_empty, w_protocols = t_empty,
      w_collections = t_empty, w_state_definitions = t_empty, w_tasks = t_empty, w_events = t_empty,
      w_locks = t_empty, w_states = t_empty, w_sessions = t_empty, w_patches = t_empty,
      w_snapshots = t_empty, w_shelves = t_empty, w_drawers = t_empty, w_redis = (\<lambda>_. []),
      w_posts = [], w_channel = [], executor_grace = gs_init, progress_leases = gs_init,
      auto_interrupt = gs_init\<rparr>"

end
