(* ===== verification/Caller_Events.thy ===== *)
theory Caller_Events
  imports Models
begin

text \<open>
  \<^verbatim>\<open>facade/caller_events.py\<close>: the mirror message a caller receives for a persisted task event. The
  message id (a fresh uuid by default) and the key of the event row are arguments.
\<close>

definition base_kwargs :: "string \<Rightarrow> nat \<Rightarrow> task_event \<Rightarrow> execution_event" where
  "base_kwargs mid event_id ev =
     \<lparr>msg_id = mid, ee_task = str_of_nat (te_task ev), ee_event = str_of_nat event_id,
      ee_seq = int event_id\<rparr>"

text \<open>
  \<^verbatim>\<open>event.level if event.level in _LOG_LEVELS else "INFO"\<close>: the column holds an event kind, and the
  only event kind that is also the name of a log level is \<^const>\<open>CRITICAL\<close>.
\<close>

fun mirrored_level :: "task_event_kind option \<Rightarrow> log_level" where
  "mirrored_level (Some CRITICAL) = L_CRITICAL"
| "mirrored_level _ = L_INFO"

definition build_execution_event :: "string \<Rightarrow> nat \<Rightarrow> task_event \<Rightarrow> execution_event_message option" where
  "build_execution_event mid event_id ev =
     (let base = base_kwargs mid event_id ev in
      case te_kind ev of
        PROGRESS \<Rightarrow> Some (ProgressEvent
          (execution_event.extend base \<lparr>pge_progress = te_progress ev, pge_message = te_message ev\<rparr>))
      | YIELD \<Rightarrow> Some (YieldEvent (execution_event.extend base \<lparr>yde_returns = te_returns ev\<rparr>))
      | LOG \<Rightarrow> Some (LogEvent
          (execution_event.extend base \<lparr>lge_message = te_message ev, lge_level = mirrored_level (te_level ev)\<rparr>))
      | FAILED \<Rightarrow> Some (FailedEvent (execution_event.extend base \<lparr>fle_error = te_message ev\<rparr>))
      | CRITICAL \<Rightarrow> Some (CriticalEvent (execution_event.extend base \<lparr>cre_error = te_message ev\<rparr>))
      | DISCONNECTED \<Rightarrow> Some (DisconnectedEvent (execution_event.extend base \<lparr>dce_message = te_message ev\<rparr>))
      | COMPLETED \<Rightarrow> Some (CompletedEvent base)
      | BOUND \<Rightarrow> Some (BoundEvent base)
      | QUEUED \<Rightarrow> Some (QueuedEvent base)
      | STARTED \<Rightarrow> Some (StartedEvent base)
      | DELEGATE \<Rightarrow> Some (DelegateEvent base)
      | CANCELLING \<Rightarrow> Some (CancellingEvent base)
      | CANCELLED \<Rightarrow> Some (CancelledEvent base)
      | INTERRUPTING \<Rightarrow> Some (InterruptingEvent base)
      | INTERRUPTED \<Rightarrow> Some (InterruptedEvent base)
      | PAUSING \<Rightarrow> Some (PausingEvent base)
      | PAUSED \<Rightarrow> Some (PausedEvent base)
      | RESUMING \<Rightarrow> Some (ResumingEvent base)
      | RESUMED \<Rightarrow> Some (ResumedEvent base)
      | UNASSIGN \<Rightarrow> None)"

text \<open>The tag each forwarded kind is mirrored under.\<close>

fun mirror_tag :: "task_event_kind \<Rightarrow> to_agent_message_type option" where
  "mirror_tag QUEUED = Some T_QUEUED_EVENT"
| "mirror_tag BOUND = Some T_BOUND_EVENT"
| "mirror_tag STARTED = Some T_STARTED_EVENT"
| "mirror_tag UNASSIGN = None"
| "mirror_tag PROGRESS = Some T_PROGRESS_EVENT"
| "mirror_tag CANCELLING = Some T_CANCELLING_EVENT"
| "mirror_tag CANCELLED = Some T_CANCELLED_EVENT"
| "mirror_tag INTERRUPTING = Some T_INTERRUPTING_EVENT"
| "mirror_tag INTERRUPTED = Some T_INTERRUPTED_EVENT"
| "mirror_tag PAUSING = Some T_PAUSING_EVENT"
| "mirror_tag PAUSED = Some T_PAUSED_EVENT"
| "mirror_tag RESUMING = Some T_RESUMING_EVENT"
| "mirror_tag RESUMED = Some T_RESUMED_EVENT"
| "mirror_tag DELEGATE = Some T_DELEGATE_EVENT"
| "mirror_tag FAILED = Some T_FAILED_EVENT"
| "mirror_tag CRITICAL = Some T_CRITICAL_EVENT"
| "mirror_tag DISCONNECTED = Some T_DISCONNECTED_EVENT"
| "mirror_tag YIELD = Some T_YIELD_EVENT"
| "mirror_tag COMPLETED = Some T_COMPLETED_EVENT"
| "mirror_tag LOG = Some T_LOG_EVENT"

lemma mirror_type_build:
  "map_option mirror_type (build_execution_event mid i ev) = mirror_tag (te_kind ev)"
  by (cases "te_kind ev") (simp_all add: build_execution_event_def)

lemma mirror_base_build:
  "build_execution_event mid i ev = Some m \<Longrightarrow>
   mirror_base m = (str_of_nat (te_task ev), str_of_nat i, int i)"
  by (cases "te_kind ev")
    (auto simp: build_execution_event_def base_kwargs_def execution_event.extend_def)

lemma mirror_tag_inj: "mirror_tag k = mirror_tag k' \<Longrightarrow> k = k'"
  by (cases k; cases k'; simp)

end
