(* ===== verification/Transport.thy ===== *)
theory Transport
  imports Caller_Events
begin

text \<open>
  Reaching participants and observers: the webhook transport of \<^verbatim>\<open>facade/hooks.py\<close>, the two
  notifiers of \<^verbatim>\<open>facade/transport.py\<close>, \<^verbatim>\<open>AgentConsumer.broadcast\<close>, the \<^verbatim>\<open>post_save\<close> signals of
  \<^verbatim>\<open>facade/signals.py\<close>, and the row writes that trigger them. Outside a transaction
  \<^verbatim>\<open>on_commit\<close> runs its callback at once; inside one it runs when the block ends, which none of the
  modelled blocks can observe.
\<close>

section \<open>Webhooks\<close>

definition sign :: "'c env \<Rightarrow> string \<Rightarrow> string \<Rightarrow> string" where
  "sign env secret body = hmac_sha256_hex env secret body"

definition verify :: "'c env \<Rightarrow> string option \<Rightarrow> string \<Rightarrow> string option \<Rightarrow> bool" where
  "verify env secret body signature =
     (case (secret, signature) of
        (Some s, Some g) \<Rightarrow> (if s = [] \<or> g = [] then False else sign env s body = g)
      | _ \<Rightarrow> False)"

definition deliver_to_hook :: "'c env \<Rightarrow> agent \<Rightarrow> to_agent_message \<Rightarrow> world \<Rightarrow> bool \<times> world" where
  "deliver_to_hook env a m w =
     (case ag_hook_url a of
        None \<Rightarrow> (False, w)
      | Some url \<Rightarrow>
          (if url = [] then (False, w)
           else
             let sig = (case ag_hook_url_secret a of
                          None \<Rightarrow> None
                        | Some s \<Rightarrow> (if s = [] then None else Some (sign env s (dump_json env m))));
                 post = \<lparr>hp_url = url, hp_body = m, hp_signature = sig\<rparr>
             in (post_succeeds env post, w\<lparr>w_posts := w_posts w @ [post]\<rparr>)))"

section \<open>Commands to agents\<close>

definition deliver_to_agent :: "'c env \<Rightarrow> nat \<Rightarrow> agent \<Rightarrow> to_agent_message \<Rightarrow> world \<Rightarrow> world" where
  "deliver_to_agent env i a m w =
     (if ag_kind a = WEBHOOK then snd (deliver_to_hook env a m w)
      else w\<lparr>w_redis := redis_push (str_of_nat i) m (w_redis w)\<rparr>)"

definition broadcast_to :: "'c env \<Rightarrow> nat \<Rightarrow> to_agent_message \<Rightarrow> world \<Rightarrow> unit outcome \<times> world" where
  "broadcast_to env i m w =
     (case t_get (w_agents w) i of
        None \<Rightarrow> (Inl (DoesNotExist ''Agent''), w)
      | Some a \<Rightarrow> (Inr (), deliver_to_agent env i a m w))"

section \<open>Task events to callers\<close>

definition hook_caller_agent :: "caller \<Rightarrow> world \<Rightarrow> (nat \<times> agent) option" where
  "hook_caller_agent c w =
     t_first (\<lambda>a. ag_client a = cl_client c \<and> ag_user a = cl_user c \<and>
                  ag_organization a = cl_organization c \<and> ag_kind a = WEBHOOK \<and>
                  ag_hook_url a \<noteq> None \<and> ag_hook_url a \<noteq> Some []) (w_agents w)"

definition deliver_caller_event_to_webhook :: "'c env \<Rightarrow> nat \<Rightarrow> task_event \<Rightarrow> task \<Rightarrow> world \<Rightarrow> world" where
  "deliver_caller_event_to_webhook env i ev t w =
     (case Option.bind (tk_caller t) (t_get (w_callers w)) of
        None \<Rightarrow> w
      | Some c \<Rightarrow>
          (case hook_caller_agent c w of
             None \<Rightarrow> w
           | Some (_, a) \<Rightarrow>
               (case build_execution_event (uuid4 env (draws w)) i ev of
                  None \<Rightarrow> w
                | Some m \<Rightarrow>
                    snd (deliver_to_hook env a (ExecutionEvent m) (w\<lparr>draws := Suc (draws w)\<rparr>)))))"

definition caller_topic :: "nat \<Rightarrow> string" where
  "caller_topic c = ''task_caller_'' @ str_of_nat c"

definition root_caller_topic :: "nat \<Rightarrow> string" where
  "root_caller_topic c = ''root_tasks_caller_'' @ str_of_nat c"

definition root_org_topic :: "nat \<Rightarrow> string" where
  "root_org_topic o' = ''root_tasks_org_'' @ str_of_nat o'"

definition caller_org :: "world \<Rightarrow> nat \<Rightarrow> nat" where
  "caller_org w c = (case t_get (w_callers w) c of None \<Rightarrow> 0 | Some r \<Rightarrow> cl_organization r)"

definition publish_task_event :: "'c env \<Rightarrow> nat \<Rightarrow> task_event \<Rightarrow> world \<Rightarrow> world" where
  "publish_task_event env i ev w =
     (case t_get (w_tasks w) (te_task ev) of
        None \<Rightarrow> w
      | Some t \<Rightarrow>
          (case tk_caller t of
             None \<Rightarrow> w
           | Some c \<Rightarrow>
               (let topics = caller_topic c #
                      (if tk_root t = None then [root_caller_topic c, root_org_topic (caller_org w c)] else [])
                in deliver_caller_event_to_webhook env i ev t
                     (emit (On_task_event \<lparr>tec_event = Some i, tec_create = None\<rparr> topics) w))))"

section \<open>Signals\<close>

definition agent_post_save :: "nat \<Rightarrow> agent \<Rightarrow> bool \<Rightarrow> world \<Rightarrow> world" where
  "agent_post_save i a created w =
     emit (On_agent_updated
             (if created then \<lparr>agc_create = Some i, agc_update = None, agc_delete = None\<rparr>
              else \<lparr>agc_create = None, agc_update = Some i, agc_delete = None\<rparr>)
             [''agents_for_'' @ str_of_nat (ag_organization a)]) w"

definition child_event :: "nat \<Rightarrow> bool \<Rightarrow> child_task_event" where
  "child_event i created =
     (if created then \<lparr>cte_create = Some i, cte_update = None\<rparr>
      else \<lparr>cte_create = None, cte_update = Some i\<rparr>)"

definition child_topic :: "nat \<Rightarrow> string" where
  "child_topic i = ''child_tasks_'' @ str_of_nat i"

text \<open>The topics are a set in the code; the model lists the parent before a different root.\<close>

definition task_post_save :: "nat \<Rightarrow> task \<Rightarrow> bool \<Rightarrow> world \<Rightarrow> world" where
  "task_post_save i t created w =
     (let w1 = (case (created \<and> tk_root t = None, tk_caller t) of
                  (True, Some c) \<Rightarrow>
                    emit (On_task_event \<lparr>tec_event = None, tec_create = Some i\<rparr>
                            [root_caller_topic c, root_org_topic (caller_org w c)]) w
                | _ \<Rightarrow> w);
          w2 = emit (On_agent_task (child_event i created) [''agent_tasks_'' @ str_of_nat (tk_agent t)]) w1
      in case tk_parent t of
           None \<Rightarrow> w2
         | Some p \<Rightarrow>
             emit (On_child_task (child_event i created)
                     (case tk_root t of
                        None \<Rightarrow> [child_topic p]
                      | Some r \<Rightarrow> (if r = p then [child_topic p] else [child_topic p, child_topic r]))) w2)"

definition task_event_post_save :: "'c env \<Rightarrow> nat \<Rightarrow> task_event \<Rightarrow> world \<Rightarrow> world" where
  "task_event_post_save env i ev w = publish_task_event env i ev w"

definition patch_post_save :: "nat \<Rightarrow> patch \<Rightarrow> bool \<Rightarrow> world \<Rightarrow> world" where
  "patch_post_save i p created w =
     (if created then
        emit (On_patch \<lparr>pev_create = i, pev_state = pt_state p, pev_agent = pt_agent p\<rparr>
                ((''patches_state_'' @ str_of_nat (pt_state p)) #
                 (case pt_agent p of None \<Rightarrow> [] | Some a \<Rightarrow> [''patches_agent_'' @ str_of_nat a]))) w
      else w)"

section \<open>Row writes\<close>

text \<open>
  \<^verbatim>\<open>TaskEvent.objects.create(task_id=i, ...)\<close>: the foreign key is checked as the row is inserted,
  before the signal. \<open>new_event\<close> is an event with the columns a caller does not set at their
  defaults.
\<close>

definition new_event :: "nat \<Rightarrow> task_event_kind \<Rightarrow> world \<Rightarrow> task_event" where
  "new_event i k w =
     \<lparr>te_created_at = now w, te_task = i, te_delegated_to = None, te_returns = None,
      te_progress = None, te_message = None, te_kind = k, te_level = None\<rparr>"

definition create_event :: "'c env \<Rightarrow> task_event \<Rightarrow> world \<Rightarrow> unit outcome \<times> world" where
  "create_event env ev w =
     (if t_get (w_tasks w) (te_task ev) = None then (Inl (IntegrityError ''task_id''), w)
      else (Inr (), task_event_post_save env (Suc (seq (w_events w))) ev
                      (w\<lparr>w_events := t_add ev (w_events w)\<rparr>)))"

text \<open>\<^verbatim>\<open>task.save(update_fields=...)\<close> and \<^verbatim>\<open>agent.save(...)\<close> of an existing row.\<close>

definition save_task :: "nat \<Rightarrow> (task \<Rightarrow> task) \<Rightarrow> world \<Rightarrow> world" where
  "save_task i f w =
     (case t_get (w_tasks w) i of
        None \<Rightarrow> w
      | Some t \<Rightarrow> task_post_save i (f t) False (w\<lparr>w_tasks := t_upd i f (w_tasks w)\<rparr>))"

definition save_agent :: "nat \<Rightarrow> (agent \<Rightarrow> agent) \<Rightarrow> world \<Rightarrow> world" where
  "save_agent i f w =
     (case t_get (w_agents w) i of
        None \<Rightarrow> w
      | Some a \<Rightarrow> agent_post_save i (f a) False (w\<lparr>w_agents := t_upd i f (w_agents w)\<rparr>))"

definition insert_task :: "task \<Rightarrow> world \<Rightarrow> nat \<times> world" where
  "insert_task t w =
     (Suc (seq (w_tasks w)),
      task_post_save (Suc (seq (w_tasks w))) t True (w\<lparr>w_tasks := t_add t (w_tasks w)\<rparr>))"

definition insert_patch :: "patch \<Rightarrow> world \<Rightarrow> world" where
  "insert_patch p w =
     patch_post_save (Suc (seq (w_patches w))) p True (w\<lparr>w_patches := t_add p (w_patches w)\<rparr>)"

section \<open>What a notification leaves alone\<close>

text \<open>
  \<open>db\<close> forgets the redis lists, the posts, the broadcasts and the supply of random draws. What has
  the same \<open>db\<close> has the same clock, tables and timers.
\<close>

definition db :: "world \<Rightarrow> world" where
  "db w = w\<lparr>draws := 0, w_redis := (\<lambda>_. []), w_posts := [], w_channel := []\<rparr>"

lemma db_eqD:
  assumes "db w' = db w"
  shows "now w' = now w" "w_agents w' = w_agents w" "w_callers w' = w_callers w"
    "w_actions w' = w_actions w" "w_implementations w' = w_implementations w"
    "w_dependencies w' = w_dependencies w" "w_tasks w' = w_tasks w" "w_events w' = w_events w"
    "w_locks w' = w_locks w" "w_states w' = w_states w" "w_sessions w' = w_sessions w"
    "w_patches w' = w_patches w" "w_snapshots w' = w_snapshots w" "w_shelves w' = w_shelves w"
    "w_drawers w' = w_drawers w" "executor_grace w' = executor_grace w"
    "progress_leases w' = progress_leases w" "auto_interrupt w' = auto_interrupt w"
proof -
  show "now w' = now w" using arg_cong [OF assms, of now] by (simp add: db_def)
  show "w_agents w' = w_agents w" using arg_cong [OF assms, of w_agents] by (simp add: db_def)
  show "w_callers w' = w_callers w" using arg_cong [OF assms, of w_callers] by (simp add: db_def)
  show "w_actions w' = w_actions w" using arg_cong [OF assms, of w_actions] by (simp add: db_def)
  show "w_implementations w' = w_implementations w"
    using arg_cong [OF assms, of w_implementations] by (simp add: db_def)
  show "w_dependencies w' = w_dependencies w"
    using arg_cong [OF assms, of w_dependencies] by (simp add: db_def)
  show "w_tasks w' = w_tasks w" using arg_cong [OF assms, of w_tasks] by (simp add: db_def)
  show "w_events w' = w_events w" using arg_cong [OF assms, of w_events] by (simp add: db_def)
  show "w_locks w' = w_locks w" using arg_cong [OF assms, of w_locks] by (simp add: db_def)
  show "w_states w' = w_states w" using arg_cong [OF assms, of w_states] by (simp add: db_def)
  show "w_sessions w' = w_sessions w" using arg_cong [OF assms, of w_sessions] by (simp add: db_def)
  show "w_patches w' = w_patches w" using arg_cong [OF assms, of w_patches] by (simp add: db_def)
  show "w_snapshots w' = w_snapshots w" using arg_cong [OF assms, of w_snapshots] by (simp add: db_def)
  show "w_shelves w' = w_shelves w" using arg_cong [OF assms, of w_shelves] by (simp add: db_def)
  show "w_drawers w' = w_drawers w" using arg_cong [OF assms, of w_drawers] by (simp add: db_def)
  show "executor_grace w' = executor_grace w"
    using arg_cong [OF assms, of executor_grace] by (simp add: db_def)
  show "progress_leases w' = progress_leases w"
    using arg_cong [OF assms, of progress_leases] by (simp add: db_def)
  show "auto_interrupt w' = auto_interrupt w"
    using arg_cong [OF assms, of auto_interrupt] by (simp add: db_def)
qed

lemma db_simps [simp]:
  "db (w\<lparr>draws := d\<rparr>) = db w" "db (w\<lparr>w_redis := r\<rparr>) = db w" "db (w\<lparr>w_posts := ps\<rparr>) = db w"
  "db (w\<lparr>w_channel := c\<rparr>) = db w" "db (db w) = db w"
  by (simp_all add: db_def)

lemma db_emit [simp]: "db (emit b w) = db w"
  by (simp add: emit_def)

lemma db_fresh_uuid [simp]: "db (snd (fresh_uuid env w)) = db w"
  by (simp add: fresh_uuid_def)

lemma db_deliver_to_hook [simp]: "db (snd (deliver_to_hook env a m w)) = db w"
  by (simp add: deliver_to_hook_def Let_def split: option.split)

lemma db_deliver_to_agent [simp]: "db (deliver_to_agent env i a m w) = db w"
  by (simp add: deliver_to_agent_def)

lemma db_broadcast_to [simp]: "db (snd (broadcast_to env i m w)) = db w"
  by (simp add: broadcast_to_def split: option.split)

lemma db_deliver_caller_event [simp]: "db (deliver_caller_event_to_webhook env i ev t w) = db w"
  by (simp add: deliver_caller_event_to_webhook_def split: option.split prod.split)

lemma db_publish_task_event [simp]: "db (publish_task_event env i ev w) = db w"
  by (simp add: publish_task_event_def Let_def split: option.split)

lemma db_agent_post_save [simp]: "db (agent_post_save i a c w) = db w"
  by (simp add: agent_post_save_def)

lemma db_task_post_save [simp]: "db (task_post_save i t c w) = db w"
  by (simp add: task_post_save_def Let_def split: option.split bool.split)

lemma db_task_event_post_save [simp]: "db (task_event_post_save env i ev w) = db w"
  by (simp add: task_event_post_save_def)

lemma db_patch_post_save [simp]: "db (patch_post_save i p c w) = db w"
  by (simp add: patch_post_save_def)

lemmas emit_frame [simp] = db_eqD [OF db_emit]
lemmas fresh_uuid_frame [simp] = db_eqD [OF db_fresh_uuid]
lemmas deliver_to_hook_frame [simp] = db_eqD [OF db_deliver_to_hook]
lemmas deliver_to_agent_frame [simp] = db_eqD [OF db_deliver_to_agent]
lemmas broadcast_to_frame [simp] = db_eqD [OF db_broadcast_to]
lemmas agent_post_save_frame [simp] = db_eqD [OF db_agent_post_save]
lemmas task_post_save_frame [simp] = db_eqD [OF db_task_post_save]
lemmas task_event_post_save_frame [simp] = db_eqD [OF db_task_event_post_save]
lemmas patch_post_save_frame [simp] = db_eqD [OF db_patch_post_save]

section \<open>What a row write changes\<close>

text \<open>Up to notifications, a row write is the update of its table.\<close>

lemma t_upd_absent: "t_get t i = None \<Longrightarrow> t_upd i f t = t"
proof -
  assume "t_get t i = None"
  then have "map (\<lambda>(j, r). (j, if j = i then f r else r)) (rows t) = rows t"
    by (intro map_idI) (force simp: t_get_def map_of_eq_None_iff)
  then show ?thesis by (simp add: t_upd_def)
qed

lemma db_save_task: "db (save_task i f w) = db (w\<lparr>w_tasks := t_upd i f (w_tasks w)\<rparr>)"
  by (simp add: save_task_def t_upd_absent split: option.split)

lemma db_save_agent: "db (save_agent i f w) = db (w\<lparr>w_agents := t_upd i f (w_agents w)\<rparr>)"
  by (simp add: save_agent_def t_upd_absent split: option.split)

lemmas save_task_frame [simp] = db_eqD [OF db_save_task, simplified]
lemmas save_agent_frame [simp] = db_eqD [OF db_save_agent, simplified]

lemma db_insert_task: "db (snd (insert_task t w)) = db (w\<lparr>w_tasks := t_add t (w_tasks w)\<rparr>)"
  by (simp add: insert_task_def)

lemmas insert_task_frame [simp] = db_eqD [OF db_insert_task, simplified]

lemma insert_task_key [simp]: "fst (insert_task t w) = Suc (seq (w_tasks w))"
  by (simp add: insert_task_def)

lemma db_insert_patch: "db (insert_patch p w) = db (w\<lparr>w_patches := t_add p (w_patches w)\<rparr>)"
  by (simp add: insert_patch_def)

lemmas insert_patch_frame [simp] = db_eqD [OF db_insert_patch, simplified]

lemma create_event_ok:
  "t_get (w_tasks w) (te_task ev) = Some t \<Longrightarrow> fst (create_event env ev w) = Inr ()"
  by (simp add: create_event_def)

lemma create_event_missing:
  "t_get (w_tasks w) (te_task ev) = None \<Longrightarrow>
   create_event env ev w = (Inl (IntegrityError ''task_id''), w)"
  by (simp add: create_event_def)

lemma db_create_event:
  "db (snd (create_event env ev w)) =
   db (w\<lparr>w_events := (if t_get (w_tasks w) (te_task ev) = None then w_events w
                       else t_add ev (w_events w))\<rparr>)"
  by (simp add: create_event_def)

lemmas create_event_frame [simp] = db_eqD [OF db_create_event, simplified]

text \<open>Row writes leave the redis lists alone: only \<^const>\<open>broadcast_to\<close> reaches an agent's queue.\<close>

lemma redis_emit [simp]: "w_redis (emit b w) = w_redis w"
  by (simp add: emit_def)

lemma redis_deliver_to_hook [simp]: "w_redis (snd (deliver_to_hook env a m w)) = w_redis w"
  by (simp add: deliver_to_hook_def Let_def split: option.split)

lemma redis_deliver_caller_event [simp]:
  "w_redis (deliver_caller_event_to_webhook env i ev t w) = w_redis w"
  by (simp add: deliver_caller_event_to_webhook_def split: option.split prod.split)

lemma redis_writes [simp]:
  "w_redis (task_post_save i t c w) = w_redis w"
  "w_redis (agent_post_save i a c w) = w_redis w"
  "w_redis (save_task i f w) = w_redis w"
  "w_redis (save_agent i g w) = w_redis w"
  "w_redis (snd (insert_task t w)) = w_redis w"
  "w_redis (snd (create_event env ev w)) = w_redis w"
  "w_redis (snd (fresh_uuid env w)) = w_redis w"
  by (auto simp: task_post_save_def agent_post_save_def save_task_def save_agent_def insert_task_def
      create_event_def task_event_post_save_def publish_task_event_def fresh_uuid_def Let_def
      split: option.split bool.split)

lemma redis_broadcast_to:
  "w_redis (snd (broadcast_to env i m w)) =
   (case t_get (w_agents w) i of
      None \<Rightarrow> w_redis w
    | Some a \<Rightarrow> (if ag_kind a = WEBHOOK then w_redis w
                 else redis_push (str_of_nat i) m (w_redis w)))"
  by (simp add: broadcast_to_def deliver_to_agent_def split: option.split)

section \<open>Signatures\<close>

text \<open>What the transport signs, the intake verifies; without a secret nothing verifies.\<close>

lemma verify_sign: "secret \<noteq> [] \<Longrightarrow> sign env secret body \<noteq> [] \<Longrightarrow>
  verify env (Some secret) body (Some (sign env secret body))"
  by (simp add: verify_def)

lemma verify_iff:
  "verify env secret body signature \<longleftrightarrow>
   (\<exists>s. secret = Some s \<and> s \<noteq> [] \<and> signature = Some (sign env s body) \<and> sign env s body \<noteq> [])"
  by (auto simp: verify_def split: option.split)

end
