(* ===== verification/Task_Ledger.thy ===== *)
theory Task_Ledger
  imports Transport
begin

text \<open>
  The contract of the task rows and their event log, which every operation of the backend keeps.
  A wrapper is a task whose implementation is higher-order: its rows are written by the child's
  reports as well, and the contract says less about it.

  \<^item> \<open>ledger\<close>: a task is done exactly when it has a finishing time, every event belongs to a task,
    and the terminal events of a task that is no wrapper are the one its status names when it is
    done and none when it is not;
  \<^item> \<open>evolves\<close>: a task keeps its identity columns, a done task stays done, and a done task that is no
    wrapper keeps its status and its finishing time; an agent keeps its identity and never lowers
    its lease epoch;
  \<^item> \<open>keeps\<close>: from a world with a ledger, a step reaches one with a ledger by evolving.
\<close>

definition is_wrapper :: "implementation table \<Rightarrow> task \<Rightarrow> bool" where
  "is_wrapper imps t \<longleftrightarrow>
     (case Option.bind (tk_implementation t) (t_get imps) of
        None \<Rightarrow> False
      | Some im \<Rightarrow> im_higher_order_for im \<noteq> None)"

definition terminal_log :: "task_event table \<Rightarrow> nat \<Rightarrow> task_event_kind list" where
  "terminal_log evs i =
     map (\<lambda>(j, ev). te_kind ev)
       (filter (\<lambda>(j, ev). te_task ev = i \<and> te_kind ev \<in> terminal_kinds) (rows evs))"

definition task_ledger :: "implementation table \<Rightarrow> task_event table \<Rightarrow> nat \<Rightarrow> task \<Rightarrow> bool" where
  "task_ledger imps evs i t \<longleftrightarrow>
     (tk_is_done t \<longleftrightarrow> tk_finished_at t \<noteq> None) \<and>
     (\<not> is_wrapper imps t \<longrightarrow>
        terminal_log evs i = (if tk_is_done t then [tk_latest_event_kind t] else []))"

definition ledger :: "world \<Rightarrow> bool" where
  "ledger w \<longleftrightarrow>
     t_wf (w_tasks w) \<and>
     (\<forall>(j, ev) \<in> set (rows (w_events w)). t_get (w_tasks w) (te_task ev) \<noteq> None) \<and>
     (\<forall>i t. t_get (w_tasks w) i = Some t \<longrightarrow> task_ledger (w_implementations w) (w_events w) i t)"

definition task_evolves :: "implementation table \<Rightarrow> task \<Rightarrow> task \<Rightarrow> bool" where
  "task_evolves imps t t' \<longleftrightarrow>
     tk_parent t' = tk_parent t \<and> tk_root t' = tk_root t \<and> tk_caller t' = tk_caller t \<and>
     tk_agent t' = tk_agent t \<and> tk_action t' = tk_action t \<and>
     tk_implementation t' = tk_implementation t \<and> tk_reference t' = tk_reference t \<and>
     tk_args t' = tk_args t \<and> tk_args_hash t' = tk_args_hash t \<and>
     tk_dependencies t' = tk_dependencies t \<and>
     (tk_is_done t \<longrightarrow> tk_is_done t') \<and>
     (tk_is_done t \<and> \<not> is_wrapper imps t \<longrightarrow>
        tk_latest_event_kind t' = tk_latest_event_kind t \<and> tk_finished_at t' = tk_finished_at t)"

definition agent_kept :: "agent \<Rightarrow> agent \<Rightarrow> bool" where
  "agent_kept a a' \<longleftrightarrow>
     ag_lease_epoch a \<le> ag_lease_epoch a' \<and> ag_kind a' = ag_kind a \<and> ag_client a' = ag_client a \<and>
     ag_user a' = ag_user a \<and> ag_organization a' = ag_organization a"

definition agents_evolve :: "world \<Rightarrow> world \<Rightarrow> bool" where
  "agents_evolve w w' \<longleftrightarrow>
     (\<forall>i a. t_get (w_agents w) i = Some a \<longrightarrow>
        (\<exists>a'. t_get (w_agents w') i = Some a' \<and> agent_kept a a'))"

definition evolves :: "world \<Rightarrow> world \<Rightarrow> bool" where
  "evolves w w' \<longleftrightarrow>
     w_implementations w' = w_implementations w \<and> agents_evolve w w' \<and>
     (\<forall>i t. t_get (w_tasks w) i = Some t \<longrightarrow>
        (\<exists>t'. t_get (w_tasks w') i = Some t' \<and> task_evolves (w_implementations w) t t'))"

definition keeps :: "world \<Rightarrow> world \<Rightarrow> bool" where
  "keeps w w' \<longleftrightarrow> (ledger w \<longrightarrow> ledger w' \<and> evolves w w')"

section \<open>Composition\<close>

lemma task_evolves_refl [simp]: "task_evolves imps t t"
  by (simp add: task_evolves_def)

lemma is_wrapper_cong: "tk_implementation t' = tk_implementation t \<Longrightarrow> is_wrapper imps t' = is_wrapper imps t"
  by (simp add: is_wrapper_def)

lemma task_evolves_trans:
  "task_evolves imps t t' \<Longrightarrow> task_evolves imps t' t'' \<Longrightarrow> task_evolves imps t t''"
proof -
  assume a: "task_evolves imps t t'" and b: "task_evolves imps t' t''"
  from a have "tk_implementation t' = tk_implementation t" by (simp add: task_evolves_def)
  then have "is_wrapper imps t' = is_wrapper imps t" by (rule is_wrapper_cong)
  with a b show ?thesis unfolding task_evolves_def by simp
qed

lemma agent_kept_refl [simp]: "agent_kept a a"
  by (simp add: agent_kept_def)

lemma agent_kept_trans: "agent_kept a b \<Longrightarrow> agent_kept b c \<Longrightarrow> agent_kept a c"
  by (simp add: agent_kept_def)

lemma agents_evolve_refl [simp]: "agents_evolve w w"
  by (simp add: agents_evolve_def)

lemma agents_evolveD:
  "agents_evolve w w' \<Longrightarrow> t_get (w_agents w) i = Some a \<Longrightarrow>
   \<exists>a'. t_get (w_agents w') i = Some a' \<and> ag_lease_epoch a \<le> ag_lease_epoch a'"
  by (fastforce simp: agents_evolve_def agent_kept_def)

lemma agents_evolve_same [simp]: "w_agents w' = w_agents w \<Longrightarrow> agents_evolve w w'"
  by (simp add: agents_evolve_def)

lemma agents_evolve_trans: "agents_evolve w w' \<Longrightarrow> agents_evolve w' w'' \<Longrightarrow> agents_evolve w w''"
  unfolding agents_evolve_def by (blast intro: agent_kept_trans)

lemma evolves_refl [simp]: "evolves w w"
  by (simp add: evolves_def)

lemma evolves_trans:
  assumes a: "evolves w w'" and b: "evolves w' w''"
  shows "evolves w w''"
proof -
  have im: "w_implementations w' = w_implementations w" "w_implementations w'' = w_implementations w"
    using a b by (simp_all add: evolves_def)
  have "agents_evolve w w''" using a b agents_evolve_trans by (auto simp: evolves_def)
  moreover have "\<exists>t''. t_get (w_tasks w'') i = Some t'' \<and> task_evolves (w_implementations w) t t''"
    if "t_get (w_tasks w) i = Some t" for i t
  proof -
    from a that obtain t' where t': "t_get (w_tasks w') i = Some t'" "task_evolves (w_implementations w) t t'"
      by (auto simp: evolves_def)
    from b t'(1) im obtain t'' where "t_get (w_tasks w'') i = Some t''"
      "task_evolves (w_implementations w) t' t''" by (auto simp: evolves_def)
    with t'(2) show ?thesis by (blast intro: task_evolves_trans)
  qed
  ultimately show ?thesis using im by (simp add: evolves_def)
qed

lemma keeps_refl [simp]: "keeps w w"
  by (simp add: keeps_def)

lemma keeps_trans [trans]: "keeps w w' \<Longrightarrow> keeps w' w'' \<Longrightarrow> keeps w w''"
  unfolding keeps_def by (blast intro: evolves_trans)

text \<open>A step that leaves the three tables the ledger reads alone and evolves the agents keeps it.\<close>

definition same_ledger :: "world \<Rightarrow> world \<Rightarrow> bool" where
  "same_ledger w w' \<longleftrightarrow>
     w_tasks w' = w_tasks w \<and> w_events w' = w_events w \<and>
     w_implementations w' = w_implementations w \<and> agents_evolve w w'"

lemma same_ledger_keeps: "same_ledger w w' \<Longrightarrow> keeps w w'"
  by (auto simp: same_ledger_def keeps_def ledger_def evolves_def)

lemma same_ledger_refl [simp]: "same_ledger w w"
  by (simp add: same_ledger_def)

lemma db_same_ledger: "db w' = db w \<Longrightarrow> same_ledger w w'"
  unfolding same_ledger_def by (intro conjI db_eqD agents_evolve_same)

lemma keeps_cong: "same_ledger w1 w1' \<Longrightarrow> keeps w w1 \<Longrightarrow> keeps w w1'"
  by (blast intro: keeps_trans same_ledger_keeps)

lemma keeps_and_then:
  "keeps w (snd r) \<Longrightarrow> (\<And>x w1. r = (Inr x, w1) \<Longrightarrow> keeps w1 (snd (k x w1))) \<Longrightarrow>
   keeps w (snd (and_then r k))"
  by (auto simp: and_then_def split: prod.split sum.split intro: keeps_trans)

section \<open>Row writes\<close>

lemma terminal_log_add:
  "terminal_log (t_add ev evs) i =
   terminal_log evs i @ (if te_task ev = i \<and> te_kind ev \<in> terminal_kinds then [te_kind ev] else [])"
  by (simp add: terminal_log_def t_add_def)

lemma terminal_log_fresh:
  "ledger w \<Longrightarrow> t_get (w_tasks w) i = None \<Longrightarrow> terminal_log (w_events w) i = []"
  by (auto simp: terminal_log_def ledger_def filter_empty_conv)

text \<open>An event that is not terminal, or that is reported on a wrapper.\<close>

lemma keeps_create_event:
  assumes "te_kind ev \<notin> terminal_kinds \<or>
      (\<exists>t. t_get (w_tasks w) (te_task ev) = Some t \<and> is_wrapper (w_implementations w) t)"
  shows "keeps w (snd (create_event env ev w))"
proof (cases "t_get (w_tasks w) (te_task ev)")
  case None
  then show ?thesis by (simp add: create_event_missing)
next
  case (Some t)
  let ?w' = "snd (create_event env ev w)"
  have eqs: "w_tasks ?w' = w_tasks w" "w_implementations ?w' = w_implementations w"
    "w_events ?w' = t_add ev (w_events w)" using Some by simp_all
  have "ledger ?w'" if L: "ledger w"
    unfolding ledger_def eqs
  proof (intro conjI allI impI)
    show "t_wf (w_tasks w)" using L by (simp add: ledger_def)
    show "\<forall>(j, ev) \<in> set (rows (t_add ev (w_events w))). t_get (w_tasks w) (te_task ev) \<noteq> None"
      using L Some by (auto simp: ledger_def t_add_def)
    fix i t' assume t': "t_get (w_tasks w) i = Some t'"
    with L have "task_ledger (w_implementations w) (w_events w) i t'" by (simp add: ledger_def)
    then show "task_ledger (w_implementations w) (t_add ev (w_events w)) i t'"
      using assms t' by (auto simp: task_ledger_def terminal_log_add)
  qed
  then show ?thesis by (simp add: keeps_def evolves_def eqs agents_evolve_same)
qed

text \<open>
  A row update: it keeps the identity columns, and a task it touches that is no wrapper is open
  before and after.
\<close>

definition identity_kept :: "(task \<Rightarrow> task) \<Rightarrow> bool" where
  "identity_kept f \<longleftrightarrow>
     (\<forall>t. tk_parent (f t) = tk_parent t \<and> tk_root (f t) = tk_root t \<and> tk_caller (f t) = tk_caller t \<and>
          tk_agent (f t) = tk_agent t \<and> tk_action (f t) = tk_action t \<and>
          tk_implementation (f t) = tk_implementation t \<and> tk_reference (f t) = tk_reference t \<and>
          tk_args (f t) = tk_args t \<and> tk_args_hash (f t) = tk_args_hash t \<and>
          tk_dependencies (f t) = tk_dependencies t)"

lemma identity_keptD:
  "identity_kept f \<Longrightarrow> is_wrapper imps (f t) = is_wrapper imps t"
  by (simp add: identity_kept_def is_wrapper_def)

lemma keeps_update:
  assumes id: "identity_kept f"
    and upd: "w_tasks w' = t_upd i f (w_tasks w)" "w_implementations w' = w_implementations w"
    and ag: "agents_evolve w w'"
    and evs: "\<And>j. j \<noteq> i \<Longrightarrow> terminal_log (w_events w') j = terminal_log (w_events w) j"
      "\<forall>(j, ev) \<in> set (rows (w_events w')). t_get (w_tasks w) (te_task ev) \<noteq> None \<or>
          (j, ev) \<in> set (rows (w_events w))"
    and row: "\<And>t. t_get (w_tasks w) i = Some t \<Longrightarrow> task_ledger (w_implementations w) (w_events w) i t \<Longrightarrow>
      task_ledger (w_implementations w) (w_events w') i (f t) \<and>
      (tk_is_done t \<longrightarrow> tk_is_done (f t)) \<and>
      (tk_is_done t \<and> \<not> is_wrapper (w_implementations w) t \<longrightarrow>
         tk_latest_event_kind (f t) = tk_latest_event_kind t \<and> tk_finished_at (f t) = tk_finished_at t)"
  shows "keeps w w'"
  unfolding keeps_def
proof (intro impI conjI)
  assume L: "ledger w"
  show "ledger w'"
    unfolding ledger_def upd
  proof (intro conjI allI impI)
    show "t_wf (t_upd i f (w_tasks w))" using L by (simp add: ledger_def t_wf_upd)
    show "\<forall>(j, ev) \<in> set (rows (w_events w')). t_get (t_upd i f (w_tasks w)) (te_task ev) \<noteq> None"
      using evs(2) L by (fastforce simp: ledger_def t_get_upd)
    fix j t' assume t': "t_get (t_upd i f (w_tasks w)) j = Some t'"
    show "task_ledger (w_implementations w) (w_events w') j t'"
    proof (cases "j = i")
      case True
      with t' obtain t where "t_get (w_tasks w) i = Some t" "t' = f t" by (auto simp: t_get_upd)
      with row L True show ?thesis by (auto simp: ledger_def)
    next
      case False
      with t' L have "task_ledger (w_implementations w) (w_events w) j t'"
        by (simp add: ledger_def t_get_upd)
      with evs(1) [OF False] show ?thesis by (simp add: task_ledger_def)
    qed
  qed
  show "evolves w w'"
    unfolding evolves_def upd
  proof (intro conjI refl ag allI impI)
    fix j t assume t: "t_get (w_tasks w) j = Some t"
    show "\<exists>t'. t_get (t_upd i f (w_tasks w)) j = Some t' \<and> task_evolves (w_implementations w) t t'"
    proof (cases "j = i")
      case True
      with t row L have "tk_is_done t \<longrightarrow> tk_is_done (f t)"
        "tk_is_done t \<and> \<not> is_wrapper (w_implementations w) t \<longrightarrow>
           tk_latest_event_kind (f t) = tk_latest_event_kind t \<and> tk_finished_at (f t) = tk_finished_at t"
        by (auto simp: ledger_def)
      with True t id show ?thesis by (auto simp: t_get_upd task_evolves_def identity_kept_def)
    next
      case False
      with t show ?thesis by (auto simp: t_get_upd)
    qed
  qed
qed

section \<open>The transitions of a task\<close>

text \<open>\<^verbatim>\<open>is_done = True; finished_at = now; latest_event_kind = k\<close>, and the status alone.\<close>

definition mark_done :: "task_event_kind \<Rightarrow> int \<Rightarrow> task \<Rightarrow> task" where
  "mark_done k n t = t\<lparr>tk_is_done := True, tk_finished_at := Some n, tk_latest_event_kind := k\<rparr>"

definition mark_kind :: "task_event_kind \<Rightarrow> task \<Rightarrow> task" where
  "mark_kind k t = t\<lparr>tk_latest_event_kind := k\<rparr>"

lemma mark_done_simps [simp]:
  "tk_is_done (mark_done k n t)" "tk_finished_at (mark_done k n t) = Some n"
  "tk_latest_event_kind (mark_done k n t) = k" "identity_kept (mark_done k n)"
  "tk_parent (mark_done k n t) = tk_parent t" "tk_implementation (mark_done k n t) = tk_implementation t"
  by (simp_all add: mark_done_def identity_kept_def)

lemma mark_kind_simps [simp]:
  "tk_is_done (mark_kind k t) = tk_is_done t" "tk_finished_at (mark_kind k t) = tk_finished_at t"
  "tk_latest_event_kind (mark_kind k t) = k" "identity_kept (mark_kind k)"
  "tk_parent (mark_kind k t) = tk_parent t" "tk_implementation (mark_kind k t) = tk_implementation t"
  by (simp_all add: mark_kind_def identity_kept_def)

lemma is_wrapper_mark [simp]:
  "is_wrapper imps (mark_done k n t) = is_wrapper imps t"
  "is_wrapper imps (mark_kind k t) = is_wrapper imps t"
  by (simp_all add: is_wrapper_def)

text \<open>A new status on an open task, or on a wrapper.\<close>

lemma keeps_mark_kind:
  assumes "\<And>t. t_get (w_tasks w) i = Some t \<Longrightarrow> \<not> tk_is_done t \<or> is_wrapper (w_implementations w) t"
  shows "keeps w (save_task i (mark_kind k) w)"
  by (rule keeps_update [where f = "mark_kind k" and i = i])
    (use assms in \<open>auto simp: task_ledger_def agents_evolve_same\<close>)

text \<open>The end of a wrapper.\<close>

lemma keeps_mark_done_wrapper:
  assumes "\<And>t. t_get (w_tasks w) i = Some t \<Longrightarrow> is_wrapper (w_implementations w) t"
  shows "keeps w (save_task i (mark_done k n) w)"
  by (rule keeps_update [where f = "mark_done k n" and i = i])
    (use assms in \<open>auto simp: task_ledger_def agents_evolve_same\<close>)

text \<open>
  The end of an open task: its terminal event and its final status, in either order.
\<close>

lemma keeps_finish:
  assumes t: "t_get (w_tasks w) i = Some t" and open_task: "\<not> tk_is_done t" and k: "k \<in> terminal_kinds"
    and ts: "w_tasks w' = t_upd i (mark_done k n) (w_tasks w)"
    and es: "w_events w' = t_add ev (w_events w)" and ev: "te_task ev = i" "te_kind ev = k"
    and im: "w_implementations w' = w_implementations w" and ag: "w_agents w' = w_agents w"
  shows "keeps w w'"
proof (rule keeps_update [OF _ ts im])
  show "agents_evolve w w'" using ag by (rule agents_evolve_same)
next
  show "identity_kept (mark_done k n)" by simp
  fix j assume "j \<noteq> i"
  then show "terminal_log (w_events w') j = terminal_log (w_events w) j"
    by (simp add: es terminal_log_add ev)
next
  show "\<forall>(j, e) \<in> set (rows (w_events w')). t_get (w_tasks w) (te_task e) \<noteq> None \<or>
          (j, e) \<in> set (rows (w_events w))"
    using t by (auto simp: es t_add_def ev)
next
  fix t' assume "t_get (w_tasks w) i = Some t'" "task_ledger (w_implementations w) (w_events w) i t'"
  then show "task_ledger (w_implementations w) (w_events w') i (mark_done k n t') \<and>
      (tk_is_done t' \<longrightarrow> tk_is_done (mark_done k n t')) \<and>
      (tk_is_done t' \<and> \<not> is_wrapper (w_implementations w) t' \<longrightarrow>
         tk_latest_event_kind (mark_done k n t') = tk_latest_event_kind t' \<and>
         tk_finished_at (mark_done k n t') = tk_finished_at t')"
    using t open_task k by (auto simp: task_ledger_def es terminal_log_add ev)
qed

text \<open>A new task: open, and with no event yet.\<close>

lemma keeps_insert_task:
  assumes "\<not> tk_is_done t" and "tk_finished_at t = None"
  shows "keeps w (snd (insert_task t w))"
  unfolding keeps_def
proof (intro impI conjI)
  assume L: "ledger w"
  then have wf: "t_wf (w_tasks w)" by (simp add: ledger_def)
  let ?n = "Suc (seq (w_tasks w))"
  have fresh: "t_get (w_tasks w) ?n = None" by (rule t_get_fresh [OF wf])
  note get = t_get_add [OF wf, of t]
  show "ledger (snd (insert_task t w))"
    unfolding ledger_def
  proof (intro conjI allI impI)
    show "t_wf (w_tasks (snd (insert_task t w)))" using wf by (simp add: t_wf_add)
    show "\<forall>(j, ev) \<in> set (rows (w_events (snd (insert_task t w)))).
        t_get (w_tasks (snd (insert_task t w))) (te_task ev) \<noteq> None"
      using L by (auto simp: ledger_def get)
    fix i t' assume "t_get (w_tasks (snd (insert_task t w))) i = Some t'"
    then show "task_ledger (w_implementations (snd (insert_task t w)))
        (w_events (snd (insert_task t w))) i t'"
      using L assms terminal_log_fresh [OF L fresh]
      by (auto simp: get task_ledger_def ledger_def split: if_splits)
  qed
  show "evolves w (snd (insert_task t w))"
    using fresh by (auto simp: evolves_def get agents_evolve_same)
qed

text \<open>The timers and the other tables are no part of the contract.\<close>

lemma same_ledger_timers [simp]:
  "same_ledger w (w\<lparr>auto_interrupt := g\<rparr>)" "same_ledger w (w\<lparr>progress_leases := g\<rparr>)"
  "same_ledger w (w\<lparr>executor_grace := g\<rparr>)"
  by (simp_all add: same_ledger_def agents_evolve_same)

text \<open>A change of an agent's row that keeps its identity and does not lower its epoch.\<close>

lemma agents_evolve_upd:
  assumes "t_get (w_agents w) i = Some a" and "agent_kept a (f a)" and "w_agents w' = t_upd i f (w_agents w)"
  shows "agents_evolve w w'"
  using assms by (auto simp: agents_evolve_def agent_kept_def t_get_upd)

lemma same_ledger_save_agent:
  "t_get (w_agents w) i = Some a \<Longrightarrow> agent_kept a (f a) \<Longrightarrow> same_ledger w (save_agent i f w)"
  by (auto simp: same_ledger_def intro: agents_evolve_upd)

lemma same_ledger_broadcast_to [simp]: "same_ledger w (snd (broadcast_to env i m w))"
  by (simp add: same_ledger_def agents_evolve_same)

lemmas keeps_simple [simp] =
  same_ledger_timers [THEN same_ledger_keeps]
  same_ledger_broadcast_to [THEN same_ledger_keeps]

lemma keeps_from_timers:
  "keeps (w\<lparr>auto_interrupt := g\<rparr>) w' \<Longrightarrow> keeps w w'"
  "keeps (w\<lparr>progress_leases := g\<rparr>) w' \<Longrightarrow> keeps w w'"
  "keeps (w\<lparr>executor_grace := g\<rparr>) w' \<Longrightarrow> keeps w w'"
  by (rule keeps_trans [rotated], assumption, simp)+

end
