(* ===== verification/Liveness.thy ===== *)
theory Liveness
  imports Models
begin

text \<open>
  \<^verbatim>\<open>facade/liveness.py\<close>: the one predicate that says whether a websocket agent is alive, its
  counterpart for stuck connections, and the row filters the queries use. The availability
  predicates of \<^verbatim>\<open>facade/backend.py\<close> rest on them.
\<close>

definition stale_after_seconds :: "'c env \<Rightarrow> int" where
  "stale_after_seconds env =
     (case agent_stale_after env of None \<Rightarrow> 3 * agent_heartbeat_interval env | Some s \<Rightarrow> s)"

definition agent_is_live :: "'c env \<Rightarrow> int \<Rightarrow> bool \<Rightarrow> int option \<Rightarrow> bool" where
  "agent_is_live env t connected last_seen =
     (if \<not> connected then False
      else case last_seen of None \<Rightarrow> False | Some s \<Rightarrow> s > t - stale_after_seconds env)"

definition agent_is_stale :: "'c env \<Rightarrow> int \<Rightarrow> bool \<Rightarrow> int option \<Rightarrow> bool" where
  "agent_is_stale env t connected last_seen \<longleftrightarrow> connected \<and> \<not> agent_is_live env t connected last_seen"

definition live_agent_q :: "'c env \<Rightarrow> int \<Rightarrow> agent \<Rightarrow> bool" where
  "live_agent_q env t a \<longleftrightarrow>
     ag_connected a \<and>
     (case ag_last_seen a of None \<Rightarrow> False | Some s \<Rightarrow> s > t - stale_after_seconds env)"

definition stale_agent_q :: "'c env \<Rightarrow> int \<Rightarrow> agent \<Rightarrow> bool" where
  "stale_agent_q env t a \<longleftrightarrow>
     ag_connected a \<and>
     ((case ag_last_seen a of None \<Rightarrow> False | Some s \<Rightarrow> s < t - stale_after_seconds env) \<or>
      ag_last_seen a = None)"

definition is_active :: "'c env \<Rightarrow> int \<Rightarrow> agent \<Rightarrow> bool" where
  "is_active env t a = agent_is_live env t (ag_connected a) (ag_last_seen a)"

definition agent_available_q :: "'c env \<Rightarrow> int \<Rightarrow> agent \<Rightarrow> bool" where
  "agent_available_q env t a \<longleftrightarrow> ag_kind a = WEBHOOK \<or> live_agent_q env t a"

definition agent_is_available :: "'c env \<Rightarrow> int \<Rightarrow> agent \<Rightarrow> bool" where
  "agent_is_available env t a =
     (if ag_kind a = WEBHOOK then True
      else agent_is_live env t (ag_connected a) (ag_last_seen a))"

section \<open>The predicates agree\<close>

lemma agent_is_live_iff:
  "agent_is_live env t c s \<longleftrightarrow> c \<and> (\<exists>u. s = Some u \<and> t - stale_after_seconds env < u)"
  by (auto simp: agent_is_live_def split: option.split)

lemma not_live_disconnected [simp]: "\<not> agent_is_live env t False s"
  by (simp add: agent_is_live_def)

lemma not_live_unseen [simp]: "\<not> agent_is_live env t c None"
  by (simp add: agent_is_live_def)

lemma live_q_is_live: "live_agent_q env t a = is_active env t a"
  by (auto simp: live_agent_q_def is_active_def agent_is_live_iff split: option.split)

lemma available_q_is_available: "agent_available_q env t a = agent_is_available env t a"
  by (auto simp: agent_available_q_def agent_is_available_def live_q_is_live is_active_def)

text \<open>
  The sweep's filter implies the predicate it re-checks under the lock; they differ exactly for a
  heartbeat that sits on the cutoff.
\<close>

lemma stale_q_iff:
  "agent_is_stale env t (ag_connected a) (ag_last_seen a) \<longleftrightarrow>
   stale_agent_q env t a \<or> (ag_connected a \<and> ag_last_seen a = Some (t - stale_after_seconds env))"
  by (auto simp: agent_is_stale_def stale_agent_q_def agent_is_live_iff split: option.split)

text \<open>A connected agent is live or stale, never both; a disconnected one is neither.\<close>

lemma live_or_stale:
  "agent_is_live env t c s \<noteq> agent_is_stale env t c s \<longleftrightarrow> c"
  by (auto simp: agent_is_stale_def agent_is_live_iff)

lemma live_antimono:
  "agent_is_live env t' c s \<Longrightarrow> t \<le> t' \<Longrightarrow> agent_is_live env t c s"
  by (auto simp: agent_is_live_iff)

text \<open>With the default window a heartbeat keeps the agent live for three intervals.\<close>

lemma default_window:
  "agent_stale_after env = None \<Longrightarrow>
   agent_is_live env t True (Some s) \<longleftrightarrow> t < s + 3 * agent_heartbeat_interval env"
  by (auto simp: agent_is_live_iff stale_after_seconds_def)

end
