(* ===== verification/Lease.thy ===== *)
theory Lease
  imports Liveness Transport
begin

text \<open>
  The executor write-lease of \<^verbatim>\<open>facade/persist_backend.py\<close>: claim on connect, renewal on heartbeat,
  revocation by the sweep and release on disconnect, each the body its row lock makes atomic. The
  locale \<open>fencing\<close> states what a lease with a fencing token promises; its interpretation at the end
  discharges it for the rows of one agent.
\<close>

section \<open>The operations\<close>

record lease_claim_result =
  lc_claimed :: bool
  lc_epoch :: "int option"
  lc_prior_session :: "string option"
  lc_displaced :: bool

definition claim_lease_sync ::
  "'c env \<Rightarrow> nat \<Rightarrow> string option \<Rightarrow> string option \<Rightarrow> bool \<Rightarrow> world \<Rightarrow> lease_claim_result outcome \<times> world"
where
  "claim_lease_sync env i connection_id session_id force w =
     (case t_get (w_agents w) i of
        None \<Rightarrow> (Inl (DoesNotExist ''Agent''), w)
      | Some a \<Rightarrow>
          (if agent_is_live env (now w) (ag_connected a) (ag_last_seen a) \<and> \<not> force then
             (Inr \<lparr>lc_claimed = False, lc_epoch = None, lc_prior_session = ag_active_session_id a,
                   lc_displaced = False\<rparr>, w)
           else
             (Inr \<lparr>lc_claimed = True, lc_epoch = Some (ag_lease_epoch a + 1),
                   lc_prior_session = ag_active_session_id a, lc_displaced = ag_connected a\<rparr>,
              save_agent i (\<lambda>r. r\<lparr>ag_lease_epoch := ag_lease_epoch a + 1, ag_connected := True,
                                  ag_last_seen := Some (now w), ag_active_connection_id := connection_id,
                                  ag_active_session_id := session_id\<rparr>) w)))"

text \<open>A lock-free compare-and-set: it runs no signal, and the number of rows is the answer.\<close>

definition renew_agent_lease :: "nat \<Rightarrow> int \<Rightarrow> world \<Rightarrow> bool \<times> world" where
  "renew_agent_lease i epoch w =
     (case t_get (w_agents w) i of
        None \<Rightarrow> (False, w)
      | Some a \<Rightarrow>
          (if ag_lease_epoch a = epoch
           then (True, w\<lparr>w_agents := t_upd i (\<lambda>r. r\<lparr>ag_last_seen := Some (now w)\<rparr>) (w_agents w)\<rparr>)
           else (False, w)))"

definition revoke_lease_sync :: "'c env \<Rightarrow> nat \<Rightarrow> world \<Rightarrow> bool outcome \<times> world" where
  "revoke_lease_sync env i w =
     (case t_get (w_agents w) i of
        None \<Rightarrow> (Inl (DoesNotExist ''Agent''), w)
      | Some a \<Rightarrow>
          (if \<not> agent_is_stale env (now w) (ag_connected a) (ag_last_seen a) then (Inr False, w)
           else (Inr True,
                 save_agent i (\<lambda>r. r\<lparr>ag_connected := False, ag_lease_epoch := ag_lease_epoch a + 1\<rparr>) w)))"

text \<open>
  The first half of \<^verbatim>\<open>on_agent_disconnected\<close>: the generation guard and the release. The result
  says whether the guard let the disconnect through.
\<close>

definition release_connection :: "nat \<Rightarrow> string option \<Rightarrow> world \<Rightarrow> bool outcome \<times> world" where
  "release_connection i connection_id w =
     (case t_get (w_agents w) i of
        None \<Rightarrow> (Inl (DoesNotExist ''Agent''), w)
      | Some a \<Rightarrow>
          (if connection_id \<noteq> None \<and> ag_active_connection_id a \<noteq> connection_id then (Inr False, w)
           else (Inr True,
                 save_agent i (\<lambda>r. r\<lparr>ag_connected := False, ag_last_seen := Some (now w)\<rparr>) w)))"

section \<open>What a fenced lease promises\<close>

datatype 'c lease_op = Claim 'c | Revoke 'c | Renew 'c int | Release 'c

datatype lease_result = Claimed int | Rejected | Revoked | Not_stale | Renewed int | Fenced | Released

fun fences :: "lease_result \<Rightarrow> bool" where
  "fences (Claimed _) \<longleftrightarrow> True"
| "fences Revoked \<longleftrightarrow> True"
| "fences _ \<longleftrightarrow> False"

fun issued :: "lease_result list \<Rightarrow> int list" where
  "issued [] = []"
| "issued (Claimed e # rs) = e # issued rs"
| "issued (_ # rs) = issued rs"

locale fencing =
  fixes epoch :: "'w \<Rightarrow> int option"
    and claim :: "'c \<Rightarrow> 'w \<Rightarrow> int option \<times> 'w"
    and revoke :: "'c \<Rightarrow> 'w \<Rightarrow> bool \<times> 'w"
    and renew :: "'c \<Rightarrow> int \<Rightarrow> 'w \<Rightarrow> bool \<times> 'w"
    and release :: "'c \<Rightarrow> 'w \<Rightarrow> 'w"
  assumes claim_Some: "claim c w = (Some e, w') \<Longrightarrow> epoch w = Some (e - 1) \<and> epoch w' = Some e"
    and claim_None: "claim c w = (None, w') \<Longrightarrow> epoch w' = epoch w"
    and revoke_True: "revoke c w = (True, w') \<Longrightarrow> \<exists>e. epoch w = Some e \<and> epoch w' = Some (e + 1)"
    and revoke_False: "revoke c w = (False, w') \<Longrightarrow> epoch w' = epoch w"
    and renew_iff: "fst (renew c e w) \<longleftrightarrow> epoch w = Some e"
    and renew_epoch: "epoch (snd (renew c e w)) = epoch w"
    and release_epoch: "epoch (release c w) = epoch w"
begin

fun step :: "'c lease_op \<Rightarrow> 'w \<Rightarrow> lease_result \<times> 'w" where
  "step (Claim c) w = (case claim c w of (Some e, w') \<Rightarrow> (Claimed e, w') | (None, w') \<Rightarrow> (Rejected, w'))"
| "step (Revoke c) w = (case revoke c w of (b, w') \<Rightarrow> (if b then Revoked else Not_stale, w'))"
| "step (Renew c e) w = (case renew c e w of (b, w') \<Rightarrow> (if b then Renewed e else Fenced, w'))"
| "step (Release c) w = (Released, release c w)"

fun run :: "'c lease_op list \<Rightarrow> 'w \<Rightarrow> lease_result list \<times> 'w" where
  "run [] w = ([], w)"
| "run (o' # os) w = (let (r, w1) = step o' w; (rs, w2) = run os w1 in (r # rs, w2))"

lemma step_epoch:
  assumes "epoch w = Some n" and "step o' w = (r, w')"
  shows "epoch w' = Some (n + (if fences r then 1 else 0))" and "r = Claimed e \<Longrightarrow> e = n + 1"
    and "r = Renewed e \<Longrightarrow> e = n"
proof -
  have "epoch w' = Some (n + (if fences r then 1 else 0)) \<and> (\<forall>e. r = Claimed e \<longrightarrow> e = n + 1) \<and>
        (\<forall>e. r = Renewed e \<longrightarrow> e = n)"
  proof (cases o')
    case (Claim c)
    with assms show ?thesis
      by (cases "claim c w"; cases "fst (claim c w)") (auto dest: claim_Some claim_None)
  next
    case (Revoke c)
    with assms show ?thesis
      by (cases "revoke c w"; cases "fst (revoke c w)") (auto dest: revoke_True revoke_False)
  next
    case (Renew c e)
    with assms renew_iff [of c e w] renew_epoch [of c e w] show ?thesis
      by (cases "renew c e w"; cases "n = e") auto
  next
    case (Release c)
    with assms show ?thesis by (auto simp: release_epoch)
  qed
  then show "epoch w' = Some (n + (if fences r then 1 else 0))" "r = Claimed e \<Longrightarrow> e = n + 1"
    "r = Renewed e \<Longrightarrow> e = n" by auto
qed

lemma run_Cons:
  obtains r w1 rs w2 where "step o' w = (r, w1)" "run os w1 = (rs, w2)" "run (o' # os) w = (r # rs, w2)"
  by (cases "step o' w"; cases "run os (snd (step o' w))") auto

text \<open>The epoch counts the claims and revocations that went through.\<close>

lemma run_epoch:
  "epoch w = Some n \<Longrightarrow> run os w = (rs, w') \<Longrightarrow>
   epoch w' = Some (n + int (length (filter fences rs)))"
proof (induction os arbitrary: w n rs w')
  case Nil
  then show ?case by simp
next
  case (Cons o' os)
  obtain r w1 rs' w2 where s: "step o' w = (r, w1)" and r: "run os w1 = (rs', w2)"
    and eq: "run (o' # os) w = (r # rs', w2)" by (rule run_Cons)
  from step_epoch(1) [OF Cons.prems(1) s] have "epoch w1 = Some (n + (if fences r then 1 else 0))" .
  from Cons.IH [OF this r] Cons.prems(2) eq show ?case by auto
qed

text \<open>
  After a claim, the token renews exactly as long as nobody else claimed and nobody revoked.
\<close>

lemma renewable_iff:
  assumes "claim c w = (Some e, w1)" and "run os w1 = (rs, w2)"
  shows "fst (renew d e w2) \<longleftrightarrow> (\<forall>r \<in> set rs. \<not> fences r)"
proof -
  have "epoch w1 = Some e" using claim_Some [OF assms(1)] by simp
  from run_epoch [OF this assms(2)] have "fst (renew d e w2) \<longleftrightarrow> length (filter fences rs) = 0"
    by (simp add: renew_iff)
  then show ?thesis by (auto simp: filter_empty_conv)
qed

text \<open>No token is issued twice, and later ones are larger.\<close>

lemma issued_increasing:
  "epoch w = Some n \<Longrightarrow> run os w = (rs, w') \<Longrightarrow>
   sorted_wrt (<) (issued rs) \<and> (\<forall>e \<in> set (issued rs). n < e)"
proof (induction os arbitrary: w n rs w')
  case Nil
  then show ?case by simp
next
  case (Cons o' os)
  obtain r w1 rs' w2 where s: "step o' w = (r, w1)" and r: "run os w1 = (rs', w2)"
    and eq: "run (o' # os) w = (r # rs', w2)" by (rule run_Cons)
  note st = step_epoch [OF Cons.prems(1) s]
  from Cons.IH [OF st(1) r] have IH: "sorted_wrt (<) (issued rs')"
    "\<forall>e \<in> set (issued rs'). n + (if fences r then 1 else 0) < e" by auto
  from Cons.prems(2) eq have rs: "rs = r # rs'" by simp
  show ?case
  proof (cases "\<exists>e. r = Claimed e")
    case True
    then obtain e where e: "r = Claimed e" by blast
    with st(2) have "e = n + 1" by simp
    with e IH rs show ?thesis by auto
  next
    case False
    with IH have "sorted_wrt (<) (issued rs')" "\<forall>e \<in> set (issued rs'). n < e"
      by (auto split: if_splits)
    moreover from False have "issued rs = issued rs'" by (cases r) (auto simp: rs)
    ultimately show ?thesis by simp
  qed
qed

text \<open>At any moment at most one token renews, whichever connection asks.\<close>

lemma one_owner: "fst (renew c e w) \<Longrightarrow> fst (renew d e' w) \<Longrightarrow> e = e'"
  by (simp add: renew_iff)

end

section \<open>The lease of an agent's row\<close>

text \<open>
  An operation comes with the time it happens at: claims carry a connection, a session and the
  \<^verbatim>\<open>force\<close> flag, a release the connection that closes.
\<close>

record lease_call =
  lcl_time :: int
  lcl_connection :: "string option"
  lcl_session :: "string option"
  lcl_force :: bool

definition agent_epoch :: "nat \<Rightarrow> world \<Rightarrow> int option" where
  "agent_epoch i w = map_option ag_lease_epoch (t_get (w_agents w) i)"

definition claim_at :: "'c env \<Rightarrow> nat \<Rightarrow> lease_call \<Rightarrow> world \<Rightarrow> int option \<times> world" where
  "claim_at env i c w =
     (case claim_lease_sync env i (lcl_connection c) (lcl_session c) (lcl_force c) (w\<lparr>now := lcl_time c\<rparr>) of
        (Inr r, w') \<Rightarrow> (lc_epoch r, w')
      | (Inl _, w') \<Rightarrow> (None, w'))"

definition revoke_at :: "'c env \<Rightarrow> nat \<Rightarrow> lease_call \<Rightarrow> world \<Rightarrow> bool \<times> world" where
  "revoke_at env i c w =
     (case revoke_lease_sync env i (w\<lparr>now := lcl_time c\<rparr>) of
        (Inr b, w') \<Rightarrow> (b, w')
      | (Inl _, w') \<Rightarrow> (False, w'))"

definition renew_at :: "nat \<Rightarrow> lease_call \<Rightarrow> int \<Rightarrow> world \<Rightarrow> bool \<times> world" where
  "renew_at i c e w = renew_agent_lease i e (w\<lparr>now := lcl_time c\<rparr>)"

definition release_at :: "nat \<Rightarrow> lease_call \<Rightarrow> world \<Rightarrow> world" where
  "release_at i c w = snd (release_connection i (lcl_connection c) (w\<lparr>now := lcl_time c\<rparr>))"

lemma agent_epoch_get: "t_get (w_agents w) i = Some a \<Longrightarrow> agent_epoch i w = Some (ag_lease_epoch a)"
  by (simp add: agent_epoch_def)

interpretation agent_lease: fencing "agent_epoch i" "claim_at env i" "revoke_at env i" "renew_at i" "release_at i"
proof
  fix c e and w w' :: world
  assume "claim_at env i c w = (Some e, w')"
  then show "agent_epoch i w = Some (e - 1) \<and> agent_epoch i w' = Some e"
    by (auto simp: claim_at_def claim_lease_sync_def agent_epoch_def row_simps t_get_upd
        split: option.splits if_splits)
next
  fix c and w w' :: world
  assume "claim_at env i c w = (None, w')"
  then show "agent_epoch i w' = agent_epoch i w"
    by (auto simp: claim_at_def claim_lease_sync_def agent_epoch_def split: option.splits if_splits)
next
  fix c and w w' :: world
  assume "revoke_at env i c w = (True, w')"
  then show "\<exists>e. agent_epoch i w = Some e \<and> agent_epoch i w' = Some (e + 1)"
    by (auto simp: revoke_at_def revoke_lease_sync_def agent_epoch_def t_get_upd
        split: option.splits if_splits)
next
  fix c and w w' :: world
  assume "revoke_at env i c w = (False, w')"
  then show "agent_epoch i w' = agent_epoch i w"
    by (auto simp: revoke_at_def revoke_lease_sync_def agent_epoch_def split: option.splits if_splits)
next
  fix c e and w :: world
  show "fst (renew_at i c e w) \<longleftrightarrow> agent_epoch i w = Some e"
    by (auto simp: renew_at_def renew_agent_lease_def agent_epoch_def split: option.split)
  show "agent_epoch i (snd (renew_at i c e w)) = agent_epoch i w"
    by (auto simp: renew_at_def renew_agent_lease_def agent_epoch_def t_get_upd split: option.split)
next
  fix c and w :: world
  show "agent_epoch i (release_at i c w) = agent_epoch i w"
    by (auto simp: release_at_def release_connection_def agent_epoch_def t_get_upd split: option.split)
qed

section \<open>The gate\<close>

text \<open>A live incumbent keeps its lease against an unforced claim; every other claim wins.\<close>

lemma claim_rejected_iff:
  assumes "t_get (w_agents w) i = Some a"
  shows "(\<exists>r. fst (claim_lease_sync env i conn sess force w) = Inr r \<and> \<not> lc_claimed r) \<longleftrightarrow>
         is_active env (now w) a \<and> \<not> force"
  using assms by (auto simp: claim_lease_sync_def is_active_def)

lemma claim_rejected_same:
  assumes "t_get (w_agents w) i = Some a" and "is_active env (now w) a" and "\<not> force"
  shows "snd (claim_lease_sync env i conn sess force w) = w"
  using assms by (simp add: claim_lease_sync_def is_active_def)

lemma claim_makes_live:
  assumes "claim_lease_sync env i conn sess force w = (Inr r, w')" and "lc_claimed r"
    and "0 < stale_after_seconds env"
  shows "\<exists>a. t_get (w_agents w') i = Some a \<and> is_active env (now w') a \<and>
             ag_active_connection_id a = conn \<and> lc_epoch r = Some (ag_lease_epoch a)"
  using assms
  by (auto simp: claim_lease_sync_def is_active_def agent_is_live_iff t_get_upd
      split: option.splits if_splits)

lemma release_guard:
  assumes "t_get (w_agents w) i = Some a" and "conn \<noteq> None" and "ag_active_connection_id a \<noteq> conn"
  shows "release_connection i conn w = (Inr False, w)"
  using assms by (simp add: release_connection_def)

text \<open>A revoked agent is neither live nor stale, and the heartbeat that saw it last is kept.\<close>

lemma revoke_heals:
  assumes "revoke_lease_sync env i w = (Inr True, w')"
  shows "\<exists>a a'. t_get (w_agents w) i = Some a \<and> t_get (w_agents w') i = Some a' \<and>
            ag_last_seen a' = ag_last_seen a \<and> ag_active_connection_id a' = ag_active_connection_id a \<and>
            \<not> ag_connected a'"
  using assms by (auto simp: revoke_lease_sync_def t_get_upd split: option.splits if_splits)

text \<open>A second sweep finds nothing left to revoke.\<close>

lemma revoke_once:
  assumes "revoke_lease_sync env i w = (Inr True, w')"
  shows "revoke_lease_sync env i w' = (Inr False, w')"
proof -
  from revoke_heals [OF assms] obtain a' where "t_get (w_agents w') i = Some a'" "\<not> ag_connected a'" by blast
  then show ?thesis by (simp add: revoke_lease_sync_def agent_is_stale_def)
qed

end
