(* ===== verification/Provenance.thy ===== *)
theory Provenance
  imports Transport "HOL-Library.List_Lexorder" "HOL-Library.Char_ord"
begin

text \<open>
  \<^verbatim>\<open>facade/provenance\<close>: the canonical encoding of arguments and its hash, the human-root
  classification, the audience derived from ports, and the claims of the token minted at dispatch.
  SHA-256 and the JWS signature are parameters of the environment.
\<close>

section \<open>Canonical arguments\<close>

text \<open>
  \<^verbatim>\<open>json.dumps(..., sort_keys=True, separators=(",", ":"), ensure_ascii=False)\<close>. Strings are
  escaped as the encoder does without \<^verbatim>\<open>ensure_ascii\<close>: the quote, the backslash and the control
  characters; every other character stands for itself.
\<close>

definition hex_digit :: "nat \<Rightarrow> char" where
  "hex_digit n = (if n < 10 then char_of (48 + n) else char_of (87 + n))"

definition escape_char :: "char \<Rightarrow> string" where
  "escape_char c =
     (let n = (of_char c :: nat) in
      if n = 34 then [char_of (92 :: nat), char_of (34 :: nat)]
      else if n = 92 then [char_of (92 :: nat), char_of (92 :: nat)]
      else if n = 10 then [char_of (92 :: nat), CHR ''n'']
      else if n = 13 then [char_of (92 :: nat), CHR ''r'']
      else if n = 9 then [char_of (92 :: nat), CHR ''t'']
      else if n = 12 then [char_of (92 :: nat), CHR ''f'']
      else if n = 8 then [char_of (92 :: nat), CHR ''b'']
      else if n < 32 then char_of (92 :: nat) # CHR ''u'' # ''00'' @ [hex_digit (n div 16), hex_digit (n mod 16)]
      else [c])"

definition json_string :: "string \<Rightarrow> string" where
  "json_string s = CHR 0x22 # concat (map escape_char s) @ [CHR 0x22]"

definition str_of_int :: "int \<Rightarrow> string" where
  "str_of_int i = (if i < 0 then CHR ''-'' # str_of_nat (nat (- i)) else str_of_nat (nat i))"

definition sort_items :: "(string \<times> 'v) list \<Rightarrow> (string \<times> 'v) list" where
  "sort_items d = sort_key fst d"

fun join :: "string list \<Rightarrow> string" where
  "join [] = []"
| "join [x] = x"
| "join (x # y # zs) = x @ CHR '','' # join (y # zs)"

fun dumps :: "json \<Rightarrow> string" where
  "dumps JNull = ''null''"
| "dumps (JBool b) = (if b then ''true'' else ''false'')"
| "dumps (JInt i) = str_of_int i"
| "dumps (JFloat s) = s"
| "dumps (JStr s) = json_string s"
| "dumps (JList xs) = CHR ''['' # join (map dumps xs) @ '']''"
| "dumps (JDict d) =
     CHR ''{'' # join (map (\<lambda>(k, s). json_string k @ CHR '':'' # s)
                         (sort_items (map (\<lambda>(k, v). (k, dumps v)) d))) @ ''}''"

definition canonicalize_args :: "json dict \<Rightarrow> string" where
  "canonicalize_args args = dumps (JDict args)"

definition args_hash :: "'c env \<Rightarrow> json dict \<Rightarrow> string" where
  "args_hash env args = sha256_hex env (canonicalize_args args)"

section \<open>Human roots\<close>

definition is_human_by_roles :: "'c env \<Rightarrow> string list \<Rightarrow> bool" where
  "is_human_by_roles env roles =
     (if prov_human_roles env = [] then True
      else if roles = [] then False
      else \<exists>r \<in> set roles. r \<in> set (prov_human_roles env))"

definition roles_for_caller :: "'c env \<Rightarrow> caller option \<Rightarrow> string list" where
  "roles_for_caller env c =
     (case c of
        None \<Rightarrow> []
      | Some r \<Rightarrow>
          concat (map (\<lambda>(u, g, roles). roles)
            (filter (\<lambda>(u, g, roles). u = cl_user r \<and> g = cl_organization r) (memberships env))))"

definition is_human_caller :: "'c env \<Rightarrow> caller \<Rightarrow> bool" where
  "is_human_caller env c =
     (if prov_human_roles env = [] then True
      else is_human_by_roles env (roles_for_caller env (Some c)))"

section \<open>Audience\<close>

definition service_from_identifier :: "string \<Rightarrow> string option" where
  "service_from_identifier identifier =
     (let s = strip identifier in
      if s = [] then None
      else let s1 = (if hd s = CHR ''@'' then tl s else s);
               s2 = takeWhile (\<lambda>c. c \<noteq> CHR ''/'') s1
           in if s2 = [] then None else Some s2)"

fun collect_identifiers :: "json \<Rightarrow> string list"
  and collect_children :: "json \<Rightarrow> string list" where
  "collect_identifiers (JDict d) =
     (case dict_get d ''identifier'' of Some (JStr i) \<Rightarrow> (if i = [] then [] else [i]) | _ \<Rightarrow> []) @
     concat (map (\<lambda>(k, v). if k = ''children'' then collect_children v else []) d)"
| "collect_identifiers _ = []"
| "collect_children (JList ps) = concat (map collect_identifiers ps)"
| "collect_children _ = []"

fun dedup_services :: "string list \<Rightarrow> string list \<Rightarrow> string list" where
  "dedup_services [] services = services"
| "dedup_services (i # is) services =
     (case service_from_identifier i of
        None \<Rightarrow> dedup_services is services
      | Some s \<Rightarrow> dedup_services is (if s \<in> set services then services else services @ [s]))"

definition services_from_ports :: "json list list \<Rightarrow> string list" where
  "services_from_ports port_lists =
     dedup_services (concat (map (\<lambda>ports. collect_children (JList ports)) port_lists)) []"

definition derive_from_action :: "action \<Rightarrow> string list" where
  "derive_from_action a = services_from_ports [ac_args a, ac_returns a]"

lemma dedup_services_props:
  "distinct services \<Longrightarrow> distinct (dedup_services is services) \<and>
   set (dedup_services is services) = set services \<union> {s. Some s \<in> service_from_identifier ` set is}"
  by (induction "is" arbitrary: services) (auto split: option.split)

section \<open>The caller context\<close>

record caller_context =
  cx_user :: nat
  cx_client :: "nat option"
  cx_organization :: "nat option"
  cx_roles :: "string list"

definition ctx_from_agent :: "agent \<Rightarrow> string list \<Rightarrow> caller_context" where
  "ctx_from_agent a roles =
     \<lparr>cx_user = ag_user a, cx_client = Some (ag_client a), cx_organization = Some (ag_organization a),
      cx_roles = roles\<rparr>"

section \<open>The token\<close>

record jws_header =
  jh_alg :: string
  jh_kid :: string
  jh_typ :: string

record claims =
  cm_iss :: string
  cm_aud :: "string list"
  cm_sub :: string
  cm_act_sub :: string
  cm_act_cid :: string
  cm_iat :: int
  cm_exp :: int
  cm_jti :: string
  cm_tsk :: string
  cm_ptk :: "string option"
  cm_rtk :: string
  cm_rcb :: "string option"
  cm_ahs :: string
  cm_aha :: string

type_synonym rekuest_env = "(jws_header \<times> claims) env"

definition MAX_LINEAGE_DEPTH :: nat where
  "MAX_LINEAGE_DEPTH = 256"

text \<open>The walk to the root, cut after \<open>n\<close> steps.\<close>

fun resolve_root :: "nat \<Rightarrow> task table \<Rightarrow> nat \<times> task \<Rightarrow> nat \<times> task" where
  "resolve_root 0 tb (i, t) = (i, t)"
| "resolve_root (Suc n) tb (i, t) =
     (case tk_parent t of
        None \<Rightarrow> (i, t)
      | Some p \<Rightarrow> (case t_get tb p of None \<Rightarrow> (i, t) | Some pt \<Rightarrow> resolve_root n tb (p, pt)))"

definition sign_claims :: "rekuest_env \<Rightarrow> claims \<Rightarrow> string" where
  "sign_claims env c =
     jws_encode env (\<lparr>jh_alg = ''Ed25519'', jh_kid = prov_kid env, jh_typ = ''JWT''\<rparr>, c)"

text \<open>The principal at the root and whether it counts as a human.\<close>

definition root_principal ::
  "rekuest_env \<Rightarrow> nat \<times> task \<Rightarrow> nat \<times> task \<Rightarrow> caller_context \<Rightarrow> world \<Rightarrow> string option \<times> bool"
where
  "root_principal env it root ctx w =
     (if tk_parent (snd it) = None then
        (Some (user_sub env (cx_user ctx)), is_human_by_roles env (cx_roles ctx))
      else case Option.bind (tk_caller (snd root)) (t_get (w_callers w)) of
             None \<Rightarrow> (None, False)
           | Some c \<Rightarrow> (Some (user_sub env (cl_user c)), is_human_caller env c))"

definition token_claims ::
  "rekuest_env \<Rightarrow> nat \<Rightarrow> task \<Rightarrow> implementation \<Rightarrow> agent \<Rightarrow> nat \<Rightarrow> string option \<Rightarrow> caller_context
   \<Rightarrow> world \<Rightarrow> claims"
where
  "token_claims env i t impl a root_id root_caused_by ctx w =
     \<lparr>cm_iss = prov_issuer env,
      cm_aud = (case im_provenance_audience impl of None \<Rightarrow> [] | Some aud \<Rightarrow> aud),
      cm_sub = user_sub env (cx_user ctx),
      cm_act_sub = user_sub env (ag_user a),
      cm_act_cid = client_id_of env (ag_client a),
      cm_iat = now w div 1000000,
      cm_exp = (now w + prov_ttl_seconds env * 1000000) div 1000000,
      cm_jti = uuid4 env (draws w),
      cm_tsk = str_of_nat i,
      cm_ptk = map_option str_of_nat (tk_parent t),
      cm_rtk = str_of_nat root_id,
      cm_rcb = root_caused_by,
      cm_ahs = args_hash env (tk_args t),
      cm_aha = ''sha256-canonical-v1''\<rparr>"

definition mint_token_for_task ::
  "rekuest_env \<Rightarrow> nat \<Rightarrow> task \<Rightarrow> caller_context \<Rightarrow> world \<Rightarrow> string option outcome \<times> world"
where
  "mint_token_for_task env i t ctx w =
     (case Option.bind (tk_implementation t) (t_get (w_implementations w)) of
        None \<Rightarrow> (Inr None, w)
      | Some impl \<Rightarrow>
          (if \<not> im_needs_token impl then (Inr None, w)
           else case t_get (w_agents w) (tk_agent t) of
                  None \<Rightarrow> (Inl (DoesNotExist ''Agent''), w)
                | Some a \<Rightarrow>
                    (let root = (if tk_parent t = None then (i, t)
                                 else resolve_root MAX_LINEAGE_DEPTH (w_tasks w) (i, t));
                         (rcb, human) = root_principal env (i, t) root ctx w
                     in if \<not> human then
                          (if prov_strict env then
                             (Inl (ValueError ''Refusing to mint provenance token''), w)
                           else (Inr None, w))
                        else
                          (Inr (Some (sign_claims env (token_claims env i t impl a (fst root) rcb ctx w))),
                           w\<lparr>draws := Suc (draws w)\<rparr>))))"

lemma db_mint [simp]: "db (snd (mint_token_for_task env i t ctx w)) = db w"
  by (simp add: mint_token_for_task_def Let_def split: option.split prod.split)

lemmas mint_frame [simp] = db_eqD [OF db_mint]

lemma redis_mint [simp]: "w_redis (snd (mint_token_for_task env i t ctx w)) = w_redis w"
  by (simp add: mint_token_for_task_def Let_def split: option.split prod.split)

section \<open>The walk to the root\<close>

text \<open>\<open>ancestor n\<close> is the task \<open>n\<close> parents up.\<close>

fun ancestor :: "nat \<Rightarrow> task table \<Rightarrow> nat \<times> task \<Rightarrow> (nat \<times> task) option" where
  "ancestor 0 tb it = Some it"
| "ancestor (Suc n) tb it =
     (case tk_parent (snd it) of
        None \<Rightarrow> None
      | Some p \<Rightarrow> (case t_get tb p of None \<Rightarrow> None | Some pt \<Rightarrow> ancestor n tb (p, pt)))"

lemma resolve_root_parentless [simp]: "tk_parent (snd it) = None \<Longrightarrow> resolve_root n tb it = it"
  by (cases n; cases it) simp_all

lemma resolve_root_reaches:
  "ancestor d tb it = Some r \<Longrightarrow> tk_parent (snd r) = None \<Longrightarrow> d \<le> n \<Longrightarrow> resolve_root n tb it = r"
proof (induction d arbitrary: it n)
  case 0
  then show ?case by simp
next
  case (Suc d)
  obtain i t where it: "it = (i, t)" by (cases it)
  from Suc.prems(3) obtain m where n: "n = Suc m" "d \<le> m" by (cases n) auto
  from Suc.prems(1) it obtain p pt where "tk_parent t = Some p" "t_get tb p = Some pt"
    "ancestor d tb (p, pt) = Some r" by (auto split: option.splits)
  with Suc.IH [OF _ Suc.prems(2) n(2)] show ?case by (simp add: it n(1))
qed

lemma resolve_root_is_ancestor: "\<exists>d \<le> n. ancestor d tb it = Some (resolve_root n tb it)"
proof (induction n arbitrary: it)
  case 0
  show ?case by (cases it) (simp add: exI [of _ 0])
next
  case (Suc n)
  obtain i t where it: "it = (i, t)" by (cases it)
  show ?case
  proof (cases "\<exists>p pt. tk_parent t = Some p \<and> t_get tb p = Some pt")
    case True
    then obtain p pt where p: "tk_parent t = Some p" "t_get tb p = Some pt" by blast
    from Suc.IH [of "(p, pt)"] obtain d where "d \<le> n" "ancestor d tb (p, pt) = Some (resolve_root n tb (p, pt))"
      by blast
    then have "Suc d \<le> Suc n \<and> ancestor (Suc d) tb it = Some (resolve_root (Suc n) tb it)"
      by (simp add: it p)
    then show ?thesis by blast
  next
    case False
    then have "resolve_root (Suc n) tb it = it" by (auto simp: it split: option.split)
    then have "0 \<le> Suc n \<and> ancestor 0 tb it = Some (resolve_root (Suc n) tb it)" by simp
    then show ?thesis by blast
  qed
qed

section \<open>What a minted token says\<close>

lemma mint_SomeE:
  assumes "mint_token_for_task env i t ctx w = (Inr (Some tok), w')"
  obtains impl a root rcb where
    "Option.bind (tk_implementation t) (t_get (w_implementations w)) = Some impl"
    "im_needs_token impl" "t_get (w_agents w) (tk_agent t) = Some a"
    "root = (if tk_parent t = None then (i, t) else resolve_root MAX_LINEAGE_DEPTH (w_tasks w) (i, t))"
    "root_principal env (i, t) root ctx w = (rcb, True)"
    "tok = sign_claims env (token_claims env i t impl a (fst root) rcb ctx w)"
  using assms by (auto simp: mint_token_for_task_def Let_def split: option.splits if_splits prod.splits)

lemma mint_strict:
  assumes "prov_strict env" and "Option.bind (tk_implementation t) (t_get (w_implementations w)) = Some impl"
    and "im_needs_token impl"
  shows "fst (mint_token_for_task env i t ctx w) \<noteq> Inr None"
  using assms by (auto simp: mint_token_for_task_def Let_def split: option.split prod.split)

end
