(* ===== verification/Higher_Order.thy ===== *)
theory Higher_Order
  imports Prelude
begin

text \<open>
  \<^verbatim>\<open>facade/higher_order.py\<close>: the projections of arguments, dependencies and returns between a
  wrapper implementation and the implementation it wraps, and the checks made when they are linked.
  The configuration is the JSON column \<^verbatim>\<open>higher_order_config\<close>; a Python operation on a value that
  is not of the shape it needs is the exception it raises. A \<^verbatim>\<open>bound\<close> entry that is a list of
  pairs and an \<^verbatim>\<open>args_key\<close> that is a number, which Python would also take, count as such a value.
\<close>

section \<open>Reading the configuration\<close>

fun truthy :: "json \<Rightarrow> bool" where
  "truthy JNull \<longleftrightarrow> False"
| "truthy (JBool b) \<longleftrightarrow> b"
| "truthy (JInt i) \<longleftrightarrow> i \<noteq> 0"
| "truthy (JFloat s) \<longleftrightarrow> s \<noteq> ''0.0'' \<and> s \<noteq> ''-0.0''"
| "truthy (JStr s) \<longleftrightarrow> s \<noteq> []"
| "truthy (JList xs) \<longleftrightarrow> xs \<noteq> []"
| "truthy (JDict d) \<longleftrightarrow> d \<noteq> []"

text \<open>\<^verbatim>\<open>config.get(k) or {}\<close> used as a dict.\<close>

definition get_dict :: "json dict \<Rightarrow> string \<Rightarrow> json dict outcome" where
  "get_dict config k =
     (case dict_get config k of
        None \<Rightarrow> Inr []
      | Some v \<Rightarrow>
          (if \<not> truthy v then Inr []
           else case v of JDict d \<Rightarrow> Inr d | _ \<Rightarrow> Inl (AttributeError ''items'')))"

text \<open>\<^verbatim>\<open>(spec or {}).get("from")\<close>\<close>

definition spec_dict :: "json \<Rightarrow> json dict outcome" where
  "spec_dict spec =
     (if \<not> truthy spec then Inr []
      else case spec of JDict d \<Rightarrow> Inr d | _ \<Rightarrow> Inl (AttributeError ''get''))"

definition spec_from :: "json dict \<Rightarrow> string option" where
  "spec_from d = (case dict_get d ''from'' of Some (JStr s) \<Rightarrow> Some s | _ \<Rightarrow> None)"

text \<open>
  \<^verbatim>\<open>spec["key"]\<close> as the key of a lookup in a dict of string keys: a value that is no string is
  not found, a list or dict cannot be hashed.
\<close>

definition spec_key :: "json dict \<Rightarrow> string option outcome" where
  "spec_key d =
     (case dict_get d ''key'' of
        None \<Rightarrow> Inl (KeyError ''key'')
      | Some (JStr s) \<Rightarrow> Inr (Some s)
      | Some (JList _) \<Rightarrow> Inl (TypeError ''unhashable type'')
      | Some (JDict _) \<Rightarrow> Inl (TypeError ''unhashable type'')
      | Some _ \<Rightarrow> Inr None)"

definition lookup_key :: "'v dict \<Rightarrow> string option \<Rightarrow> 'v option" where
  "lookup_key d k = (case k of None \<Rightarrow> None | Some s \<Rightarrow> dict_get d s)"

section \<open>Arguments in\<close>

fun map_args :: "json dict \<Rightarrow> json dict \<Rightarrow> string list \<Rightarrow> json dict \<Rightarrow> (json dict \<times> string list) outcome" where
  "map_args caller_args lower consumed [] = Inr (lower, consumed)"
| "map_args caller_args lower consumed ((lower_key, spec) # rest) =
     (case spec_dict spec of
        Inl e \<Rightarrow> Inl e
      | Inr d \<Rightarrow>
          (if spec_from d = Some ''caller'' then
             (case spec_key d of
                Inl e \<Rightarrow> Inl e
              | Inr k \<Rightarrow>
                  (case (k, lookup_key caller_args k) of
                     (Some ck, Some v) \<Rightarrow>
                       map_args caller_args (dict_set lower_key v lower) (ck # consumed) rest
                   | _ \<Rightarrow> Inl (ValueError ''Higher-order arg map references caller arg'')))
           else map_args caller_args lower consumed rest))"

text \<open>The remaining caller arguments go under \<^verbatim>\<open>args_key\<close> or are spread.\<close>

definition pack_remaining :: "json dict \<Rightarrow> json dict \<Rightarrow> json dict \<Rightarrow> json dict outcome" where
  "pack_remaining config lower remaining =
     (case dict_get config ''args_key'' of
        None \<Rightarrow> Inr (dict_update lower remaining)
      | Some ak \<Rightarrow>
          (if \<not> truthy ak then Inr (dict_update lower remaining)
           else case ak of
                  JStr k \<Rightarrow> Inr (dict_set k (JDict remaining) lower)
                | _ \<Rightarrow> Inl (TypeError ''args_key'')))"

definition build_lower_args :: "json dict \<Rightarrow> json dict \<Rightarrow> json dict outcome" where
  "build_lower_args config caller_args =
     (case get_dict config ''bound'' of
        Inl e \<Rightarrow> Inl e
      | Inr bound \<Rightarrow>
          (case get_dict config ''arg_map'' of
             Inl e \<Rightarrow> Inl e
           | Inr arg_map \<Rightarrow>
               (case map_args caller_args bound [] arg_map of
                  Inl e \<Rightarrow> Inl e
                | Inr (lower, consumed) \<Rightarrow>
                    pack_remaining config lower (filter (\<lambda>(k, v). k \<notin> set consumed) caller_args))))"

section \<open>Dependencies in\<close>

fun map_dependencies :: "json dict \<Rightarrow> json dict \<Rightarrow> json dict \<Rightarrow> json dict outcome" where
  "map_dependencies resolved lower [] = Inr lower"
| "map_dependencies resolved lower ((lower_key, spec) # rest) =
     (case spec_dict spec of
        Inl e \<Rightarrow> Inl e
      | Inr d \<Rightarrow>
          (if spec_from d = Some ''bound'' then
             map_dependencies resolved
               (dict_set lower_key (case dict_get d ''value'' of None \<Rightarrow> JNull | Some v \<Rightarrow> v) lower) rest
           else if spec_from d = Some ''caller'' then
             (case spec_key d of
                Inl e \<Rightarrow> Inl e
              | Inr k \<Rightarrow>
                  (case lookup_key resolved k of
                     None \<Rightarrow> Inl (ValueError ''Higher-order dependency map references declared dependency'')
                   | Some v \<Rightarrow> map_dependencies resolved (dict_set lower_key v lower) rest))
           else Inl (ValueError ''Higher-order dependency map entry must set from'')))"

definition build_lower_dependencies :: "json dict \<Rightarrow> json dict \<Rightarrow> json dict outcome" where
  "build_lower_dependencies config resolved =
     (case get_dict config ''dependency_map'' of
        Inl e \<Rightarrow> Inl e
      | Inr m \<Rightarrow> (if m = [] then Inr resolved else map_dependencies resolved [] m))"

section \<open>Returns out\<close>

definition json_get :: "json dict \<Rightarrow> json \<Rightarrow> json outcome" where
  "json_get d k =
     (case k of
        JStr s \<Rightarrow> Inr (case dict_get d s of None \<Rightarrow> JNull | Some v \<Rightarrow> v)
      | JList _ \<Rightarrow> Inl (TypeError ''unhashable type'')
      | JDict _ \<Rightarrow> Inl (TypeError ''unhashable type'')
      | _ \<Rightarrow> Inr JNull)"

fun map_returns :: "json dict \<Rightarrow> json dict \<Rightarrow> json dict outcome" where
  "map_returns lower_returns [] = Inr []"
| "map_returns lower_returns ((higher_key, lower_key) # rest) =
     (case json_get lower_returns lower_key of
        Inl e \<Rightarrow> Inl e
      | Inr v \<Rightarrow>
          (case map_returns lower_returns rest of
             Inl e \<Rightarrow> Inl e
           | Inr out \<Rightarrow> Inr ((higher_key, v) # out)))"

definition project_returns :: "json dict \<Rightarrow> json dict option \<Rightarrow> json dict option outcome" where
  "project_returns config lower_returns =
     (case lower_returns of
        None \<Rightarrow> Inr None
      | Some r \<Rightarrow>
          (case get_dict config ''return_map'' of
             Inl e \<Rightarrow> Inl e
           | Inr m \<Rightarrow>
               (if m = [] then Inr (Some r)
                else case map_returns r m of Inl e \<Rightarrow> Inl e | Inr out \<Rightarrow> Inr (Some out))))"

section \<open>Checks at link time\<close>

text \<open>
  The sources are collected in a set; the model keeps them in map order, which decides only which
  of several missing keys the error names. \<^verbatim>\<open>spec["key"]\<close> that is no string is never declared.
\<close>

fun required_lower_dependency_sources :: "json dict \<Rightarrow> string option list outcome" where
  "required_lower_dependency_sources [] = Inr []"
| "required_lower_dependency_sources ((lower_key, spec) # rest) =
     (case spec_dict spec of
        Inl e \<Rightarrow> Inl e
      | Inr d \<Rightarrow>
          (if spec_from d = Some ''caller'' then
             (case spec_key d of
                Inl e \<Rightarrow> Inl e
              | Inr k \<Rightarrow>
                  (case required_lower_dependency_sources rest of
                     Inl e \<Rightarrow> Inl e
                   | Inr ks \<Rightarrow> Inr (k # ks)))
           else required_lower_dependency_sources rest))"

definition validate_dependency_coverage :: "json dict \<Rightarrow> string list \<Rightarrow> string list \<Rightarrow> unit outcome" where
  "validate_dependency_coverage config lower_keys declared =
     (case get_dict config ''dependency_map'' of
        Inl e \<Rightarrow> Inl e
      | Inr m \<Rightarrow>
          (case required_lower_dependency_sources m of
             Inl e \<Rightarrow> Inl e
           | Inr sources \<Rightarrow>
               (if \<not> list_all (\<lambda>k. case k of None \<Rightarrow> False | Some s \<Rightarrow> s \<in> set declared) sources
                then Inl (ValueError ''Higher-order dependency map references undeclared dependency'')
                else if m = [] then
                  (if list_all (\<lambda>k. k \<in> set declared) lower_keys then Inr ()
                   else Inl (ValueError ''Lower dependency has no mapping''))
                else if list_all (\<lambda>k. dict_has m k) lower_keys then Inr ()
                else Inl (ValueError ''Lower dependency is neither bound nor mapped''))))"

definition validate_higher_order_pairing :: "'k \<Rightarrow> 'k \<Rightarrow> bool \<Rightarrow> unit outcome" where
  "validate_higher_order_pairing higher_kind lower_kind lower_is_higher_order =
     (if lower_is_higher_order then Inl (ValueError ''Nested higher-order implementations'')
      else if higher_kind \<noteq> lower_kind then Inl (ValueError ''Higher-order kind mismatch'')
      else Inr ())"

section \<open>The argument projection\<close>

text \<open>What the explicit map contributes, and which caller keys it uses up.\<close>

definition arg_source :: "json dict \<Rightarrow> string \<Rightarrow> string option" where
  "arg_source arg_map k =
     (case dict_get arg_map k of
        None \<Rightarrow> None
      | Some spec \<Rightarrow>
          (case spec_dict spec of
             Inl _ \<Rightarrow> None
           | Inr d \<Rightarrow>
               (if spec_from d = Some ''caller'' then
                  (case spec_key d of Inr (Some s) \<Rightarrow> Some s | _ \<Rightarrow> None)
                else None)))"

lemma dict_get_Nil [simp]: "dict_get [] k = None"
  by (simp add: dict_get_def)

lemma dict_get_Cons [simp]: "dict_get ((a, v) # d) k = (if k = a then Some v else dict_get d k)"
  by (simp add: dict_get_def)

lemma arg_source_Nil [simp]: "arg_source [] k = None"
  by (simp add: arg_source_def)

lemma arg_source_fresh: "k \<notin> fst ` set m \<Longrightarrow> arg_source m k = None"
  by (simp add: arg_source_def dict_get_def map_of_eq_None_iff [THEN iffD2])

lemma arg_source_Cons:
  "arg_source ((a, spec) # m) k = (if k = a then arg_source [(a, spec)] k else arg_source m k)"
  by (simp add: arg_source_def)

lemma map_args_step:
  assumes "map_args ca lower consumed ((a, spec) # rest) = Inr (out, used)"
  obtains (keep) "arg_source [(a, spec)] a = None" "map_args ca lower consumed rest = Inr (out, used)"
  | (take) ck v where "arg_source [(a, spec)] a = Some ck" "dict_get ca ck = Some v"
      "map_args ca (dict_set a v lower) (ck # consumed) rest = Inr (out, used)"
  using assms
  by (fastforce simp: arg_source_def lookup_key_def split: sum.splits if_splits option.splits)

lemma map_args_get:
  assumes "map_args ca lower consumed m = Inr (out, used)" and "distinct (map fst m)"
  shows "dict_get out k =
           (case arg_source m k of None \<Rightarrow> dict_get lower k | Some ck \<Rightarrow> dict_get ca ck)"
    and "set used = set consumed \<union> {ck. \<exists>k. arg_source m k = Some ck}"
proof -
  have "dict_get out k = (case arg_source m k of None \<Rightarrow> dict_get lower k | Some ck \<Rightarrow> dict_get ca ck) \<and>
        set used = set consumed \<union> {ck. \<exists>k. arg_source m k = Some ck}"
    using assms
  proof (induction m arbitrary: lower consumed)
    case Nil
    then show ?case by simp
  next
    case (Cons p m)
    obtain a spec where p: "p = (a, spec)" by (cases p)
    have fresh: "arg_source m a = None" using Cons.prems p by (intro arg_source_fresh) auto
    have src: "arg_source (p # m) k' = (if k' = a then arg_source [(a, spec)] a else arg_source m k')" for k'
      by (simp add: p arg_source_Cons [of a spec m])
    from Cons.prems(1) [unfolded p] show ?case
    proof (cases rule: map_args_step)
      case keep
      then have "arg_source (p # m) = arg_source m" using src fresh by (intro ext) simp
      with Cons keep show ?thesis by simp
    next
      case (take ck v)
      from Cons.prems(2) p have "distinct (map fst m)" by simp
      from Cons.IH [OF take(3) this]
      have "dict_get out k = (case arg_source m k of None \<Rightarrow> dict_get (dict_set a v lower) k
          | Some c \<Rightarrow> dict_get ca c)" "set used = insert ck (set consumed) \<union> {c. \<exists>k. arg_source m k = Some c}"
        by simp_all
      moreover have "{c. \<exists>k. arg_source (p # m) k = Some c} = insert ck {c. \<exists>k. arg_source m k = Some c}"
      proof (intro set_eqI iffI)
        fix c assume "c \<in> {c. \<exists>k. arg_source (p # m) k = Some c}"
        then obtain k where "arg_source (p # m) k = Some c" by blast
        then show "c \<in> insert ck {c. \<exists>k. arg_source m k = Some c}"
          using take(1) src [of k] by (cases "k = a") auto
      next
        fix c assume "c \<in> insert ck {c. \<exists>k. arg_source m k = Some c}"
        then have "c = ck \<or> (\<exists>k. arg_source m k = Some c)" by blast
        then consider "c = ck" | k where "arg_source m k = Some c" by blast
        then have "\<exists>k. arg_source (p # m) k = Some c"
        proof cases
          case 1
          with src [of a] take(1) have "arg_source (p # m) a = Some c" by simp
          then show ?thesis by blast
        next
          case 2
          then have "k \<noteq> a" using fresh by (metis option.distinct(1))
          with 2 src [of k] have "arg_source (p # m) k = Some c" by simp
          then show ?thesis by blast
        qed
        then show "c \<in> {c. \<exists>k. arg_source (p # m) k = Some c}" by blast
      qed
      ultimately show ?thesis using take fresh by (auto simp: src split: option.split)
    qed
  qed
  then show "dict_get out k =
           (case arg_source m k of None \<Rightarrow> dict_get lower k | Some ck \<Rightarrow> dict_get ca ck)"
    and "set used = set consumed \<union> {ck. \<exists>k. arg_source m k = Some ck}" by simp_all
qed

text \<open>The value of one lower argument, read off the configuration.\<close>

definition remaining_args :: "json dict \<Rightarrow> json dict \<Rightarrow> json dict" where
  "remaining_args arg_map caller_args =
     filter (\<lambda>(k, v). \<not> (\<exists>a \<in> fst ` set arg_map. arg_source arg_map a = Some k)) caller_args"

definition named_arg :: "json dict \<Rightarrow> json dict \<Rightarrow> json dict \<Rightarrow> string \<Rightarrow> json option" where
  "named_arg bound arg_map caller_args k =
     (case arg_source arg_map k of None \<Rightarrow> dict_get bound k | Some ck \<Rightarrow> dict_get caller_args ck)"

lemma arg_source_dom: "arg_source m k = Some c \<Longrightarrow> k \<in> fst ` set m"
  using arg_source_fresh by force

lemma build_lower_args_split:
  "get_dict config ''bound'' = Inr b \<Longrightarrow> get_dict config ''arg_map'' = Inr m \<Longrightarrow>
   build_lower_args config ca =
     (case map_args ca b [] m of
        Inl e \<Rightarrow> Inl e
      | Inr (lower, used) \<Rightarrow> pack_remaining config lower (filter (\<lambda>(k, v). k \<notin> set used) ca))"
  by (simp add: build_lower_args_def)

lemma pack_remaining_get:
  assumes "pack_remaining config lower rem = Inr out" and "distinct (map fst rem)"
  shows "dict_get out k =
    (case dict_get config ''args_key'' of
       Some (JStr (c # cs)) \<Rightarrow> (if k = c # cs then Some (JDict rem) else dict_get lower k)
     | _ \<Rightarrow> (case dict_get rem k of None \<Rightarrow> dict_get lower k | Some v \<Rightarrow> Some v))"
proof -
  have upd: "dict_get (dict_update lower rem) k =
      (case dict_get rem k of None \<Rightarrow> dict_get lower k | Some v \<Rightarrow> Some v)"
    by (rule dict_get_update [OF assms(2)])
  show ?thesis
  proof (cases "dict_get config ''args_key''")
    case None
    with assms(1) have "out = dict_update lower rem" by (simp add: pack_remaining_def)
    with None upd show ?thesis by simp
  next
    case (Some ak)
    show ?thesis
    proof (cases "\<exists>c cs. ak = JStr (c # cs)")
      case True
      with Some assms(1) show ?thesis by (auto simp: pack_remaining_def)
    next
      case False
      with Some assms(1) have "out = dict_update lower rem"
        by (cases ak) (auto simp: pack_remaining_def neq_Nil_conv split: if_splits)
      with Some False upd show ?thesis by (auto split: json.split list.split)
    qed
  qed
qed

lemma build_lower_args_reads:
  assumes ok: "build_lower_args config ca = Inr out"
    and b: "get_dict config ''bound'' = Inr b" and m: "get_dict config ''arg_map'' = Inr m"
    and dm: "distinct (map fst m)" and dca: "distinct (map fst ca)"
  shows "dict_get out k =
    (case dict_get config ''args_key'' of
       Some (JStr (c # cs)) \<Rightarrow>
         (if k = c # cs then Some (JDict (remaining_args m ca)) else named_arg b m ca k)
     | _ \<Rightarrow>
         (case dict_get (remaining_args m ca) k of
            None \<Rightarrow> named_arg b m ca k
          | Some v \<Rightarrow> Some v))"
proof -
  from ok obtain lower used where ma: "map_args ca b [] m = Inr (lower, used)"
    and out: "pack_remaining config lower (filter (\<lambda>(k, v). k \<notin> set used) ca) = Inr out"
    by (auto simp: build_lower_args_split [OF b m] split: sum.splits)
  have used: "set used = {ck. \<exists>k. arg_source m k = Some ck}"
    using map_args_get(2) [OF ma dm] by simp
  have rem: "filter (\<lambda>(k, v). k \<notin> set used) ca = remaining_args m ca"
    unfolding remaining_args_def used
    by (intro filter_cong refl) (auto dest: arg_source_dom)
  have low: "dict_get lower k' = named_arg b m ca k'" for k'
    using map_args_get(1) [OF ma dm] by (simp add: named_arg_def)
  have "distinct (map fst (remaining_args m ca))"
    unfolding remaining_args_def using dca by (rule distinct_map_filter)
  from pack_remaining_get [OF out [unfolded rem] this, of k] show ?thesis unfolding low .
qed

lemma build_lower_args_identity:
  assumes "distinct (map fst ca)"
  shows "\<exists>out. build_lower_args [] ca = Inr out \<and> (\<forall>k. dict_get out k = dict_get ca k)"
proof -
  obtain out where out: "build_lower_args [] ca = Inr out"
    by (auto simp: build_lower_args_def get_dict_def pack_remaining_def)
  have "dict_get out k = dict_get ca k" for k
    using build_lower_args_reads [OF out _ _ _ assms, of "[]" "[]" k]
    by (simp add: get_dict_def named_arg_def remaining_args_def split: option.split)
  with out show ?thesis by blast
qed

section \<open>The dependency projection\<close>

text \<open>A dependency map whose entries all name one of the two sources.\<close>

definition entries_sourced :: "json dict \<Rightarrow> bool" where
  "entries_sourced m \<longleftrightarrow>
     (\<forall>(k, spec) \<in> set m. \<exists>d. spec_dict spec = Inr d \<and> spec_from d \<in> {Some ''bound'', Some ''caller''})"

lemma map_dependencies_total:
  assumes "required_lower_dependency_sources m = Inr sources" and "entries_sourced m"
    and "\<And>k. k \<in> set sources \<Longrightarrow> \<exists>s. k = Some s \<and> dict_has resolved s"
  shows "\<exists>out. map_dependencies resolved lower m = Inr out \<and>
           (\<forall>k. dict_has lower k \<or> dict_has m k \<longrightarrow> dict_has out k)"
  using assms
proof (induction m arbitrary: lower sources)
  case Nil
  then show ?case by (simp add: dict_has_get)
next
  case (Cons p m)
  obtain a spec where p: "p = (a, spec)" by (cases p)
  from Cons.prems(2) obtain d where d: "spec_dict spec = Inr d"
    and from_in: "spec_from d \<in> {Some ''bound'', Some ''caller''}" and es: "entries_sourced m"
    by (auto simp: entries_sourced_def p)
  have step: "\<exists>out. map_dependencies resolved (dict_set a v lower) m = Inr out \<and>
      (\<forall>k. dict_has lower k \<or> dict_has (p # m) k \<longrightarrow> dict_has out k)"
    if "required_lower_dependency_sources m = Inr ss" "set ss \<subseteq> set sources" for v ss
  proof -
    have "\<exists>out. map_dependencies resolved (dict_set a v lower) m = Inr out \<and>
      (\<forall>k. dict_has (dict_set a v lower) k \<or> dict_has m k \<longrightarrow> dict_has out k)"
      using Cons.IH [OF that(1) es] Cons.prems(3) that(2) by blast
    then show ?thesis by (auto simp: dict_has_get p)
  qed
  show ?case
  proof (cases "spec_from d = Some ''bound''")
    case True
    with Cons.prems(1) d have "required_lower_dependency_sources m = Inr sources"
      by (simp add: p split: sum.splits)
    from step [OF this] True d show ?thesis by (simp add: p)
  next
    case False
    with from_in have caller: "spec_from d = Some ''caller''" by simp
    with Cons.prems(1) d obtain k ss where k: "spec_key d = Inr k"
      and ss: "required_lower_dependency_sources m = Inr ss" and sources: "sources = k # ss"
      by (auto simp: p split: sum.splits)
    from Cons.prems(3) sources obtain s v where "k = Some s" "dict_get resolved s = Some v"
      by (force simp: dict_has_get)
    with step [OF ss, of v] caller d k sources show ?thesis
      by (auto simp: p lookup_key_def)
  qed
qed

text \<open>
  A configuration that passed the coverage check at link time projects every dependency at
  assignment, and fills every slot the wrapped implementation declares.
\<close>

lemma coverage_projects:
  assumes ok: "validate_dependency_coverage config lower_keys declared = Inr ()"
    and m: "get_dict config ''dependency_map'' = Inr m" and es: "entries_sourced m"
    and res: "\<And>k. k \<in> set declared \<Longrightarrow> dict_has resolved k"
  shows "\<exists>out. build_lower_dependencies config resolved = Inr out \<and>
           (\<forall>k \<in> set lower_keys. dict_has out k)"
proof (cases "m = []")
  case True
  with ok m have "\<forall>k \<in> set lower_keys. k \<in> set declared"
    by (auto simp: validate_dependency_coverage_def list_all_iff split: sum.splits if_splits)
  with True m res show ?thesis by (auto simp: build_lower_dependencies_def)
next
  case False
  from ok m obtain sources where src: "required_lower_dependency_sources m = Inr sources"
    by (auto simp: validate_dependency_coverage_def split: sum.splits)
  with ok m False have decl: "list_all (\<lambda>k. case k of None \<Rightarrow> False | Some s \<Rightarrow> s \<in> set declared) sources"
    and cov: "list_all (\<lambda>k. dict_has m k) lower_keys"
    by (auto simp: validate_dependency_coverage_def split: if_splits)
  have "\<exists>s. k = Some s \<and> dict_has resolved s" if "k \<in> set sources" for k
    using decl that res by (auto simp: list_all_iff split: option.splits)
  from map_dependencies_total [OF src es this, of "[]"] obtain out
    where "map_dependencies resolved [] m = Inr out" "\<forall>k. dict_has m k \<longrightarrow> dict_has out k" by auto
  with cov False m show ?thesis by (auto simp: build_lower_dependencies_def list_all_iff)
qed

section \<open>The return projection\<close>

lemma map_returns_get:
  "map_returns r m = Inr out \<Longrightarrow> map fst out = map fst m \<and>
   (\<forall>k. dict_get out k =
      (case dict_get m k of None \<Rightarrow> None | Some lk \<Rightarrow> (case json_get r lk of Inr v \<Rightarrow> Some v | Inl _ \<Rightarrow> None)))"
proof (induction m arbitrary: out)
  case Nil
  then show ?case by simp
next
  case (Cons p m)
  obtain a lk where p: "p = (a, lk)" by (cases p)
  from Cons.prems obtain v o' where "json_get r lk = Inr v" "map_returns r m = Inr o'" "out = (a, v) # o'"
    by (auto simp: p split: sum.splits)
  with Cons.IH [of o'] show ?case by (simp add: p)
qed

lemma project_returns_None [simp]: "project_returns config None = Inr None"
  by (simp add: project_returns_def)

lemma project_returns_identity [simp]: "project_returns [] (Some r) = Inr (Some r)"
  by (simp add: project_returns_def get_dict_def)

end
