(* ===== verification/Reconcile.thy ===== *)
theory Reconcile
  imports Task_Ledger Lease Provenance Higher_Order
begin

text \<open>
  The reconciling half of \<^verbatim>\<open>ModelPersistBackend\<close> (\<^verbatim>\<open>facade/persist_backend.py\<close>): the return path
  of higher-order tasks, the atomic transition claim, the fate of an executor's in-flight work, the
  sweep over stuck agents, and the connect and disconnect handlers that trigger them. Also the two
  other triggers: the reaper's iteration and the \<^verbatim>\<open>reconcile_tasks\<close> command.

  A handler runs at one instant: \<^verbatim>\<open>timezone.now()\<close> is the clock of the world.
\<close>

section \<open>Unfolding onto a wrapper\<close>

text \<open>The wrapper a child task reports to, with the projection of its implementation.\<close>

definition wrapper_of :: "world \<Rightarrow> task \<Rightarrow> (nat \<times> json dict) option" where
  "wrapper_of w child =
     (case tk_parent child of
        None \<Rightarrow> None
      | Some p \<Rightarrow>
          (case Option.bind (t_get (w_tasks w) p)
                  (\<lambda>pt. Option.bind (tk_implementation pt) (t_get (w_implementations w))) of
             None \<Rightarrow> None
           | Some im \<Rightarrow>
               (if im_higher_order_for im = None then None else Some (p, im_higher_order_config im))))"

definition unfold_to_higher_order ::
  "rekuest_env \<Rightarrow> string \<Rightarrow> task_event_kind \<Rightarrow> json dict option \<Rightarrow> string option \<Rightarrow> world
   \<Rightarrow> unit outcome \<times> world"
where
  "unfold_to_higher_order env child_task_id k returns msg w =
     (case t_get_wire ''Task'' (w_tasks w) child_task_id of
        Inl (DoesNotExist _) \<Rightarrow> (Inr (), w)
      | Inl e \<Rightarrow> (Inl e, w)
      | Inr (c, child) \<Rightarrow>
          (case wrapper_of w child of
             None \<Rightarrow> (Inr (), w)
           | Some (p, config) \<Rightarrow>
               (case (if k = YIELD then project_returns config returns else Inr None) of
                  Inl e \<Rightarrow> (Inl e, w)
                | Inr rets \<Rightarrow>
                    and_then
                      (create_event env ((new_event p k w)\<lparr>te_delegated_to := Some c,
                                           te_returns := rets, te_message := msg\<rparr>) w)
                      (\<lambda>_ w1. (Inr (), save_task p
                                 (if k \<in> terminal_kinds then mark_done k (now w1) else mark_kind k) w1)))))"

section \<open>Claiming a transition\<close>

definition claim_task_transition_sync ::
  "nat \<Rightarrow> task_event_kind \<Rightarrow> bool \<Rightarrow> task_event_kind option \<Rightarrow> world \<Rightarrow> bool outcome \<times> world"
where
  "claim_task_transition_sync i to_kind done_flag skip_if_kind w =
     (case t_get (w_tasks w) i of
        None \<Rightarrow> (Inl (DoesNotExist ''Task''), w)
      | Some t \<Rightarrow>
          (if tk_is_done t \<or> skip_if_kind = Some (tk_latest_event_kind t) then (Inr False, w)
           else (Inr True,
                 save_task i (if done_flag then mark_done to_kind (now w) else mark_kind to_kind) w)))"

text \<open>
  The message of a re-dispatch, or nothing when the task lacks the identity to mint a token with.
  A token refused by a strict policy is nothing as well; the draws it made stay.
\<close>

definition build_redispatch_assign_sync ::
  "rekuest_env \<Rightarrow> nat \<Rightarrow> world \<Rightarrow> assign option outcome \<times> world"
where
  "build_redispatch_assign_sync env i w =
     (case t_get (w_tasks w) i of
        None \<Rightarrow> (Inl (DoesNotExist ''Task''), w)
      | Some t \<Rightarrow>
          (case (Option.bind (tk_implementation t) (t_get (w_implementations w)),
                 Option.bind (tk_caller t) (t_get (w_callers w)),
                 t_get (w_actions w) (tk_action t)) of
             (Some im, Some cl, Some ac) \<Rightarrow>
               (let ctx = \<lparr>cx_user = cl_user cl, cx_client = Some (cl_client cl),
                           cx_organization = Some (cl_organization cl), cx_roles = []\<rparr> in
                case mint_token_for_task env i t ctx w of
                  (Inl (ValueError _), w1) \<Rightarrow> (Inr None, w1)
                | (Inl e, w1) \<Rightarrow> (Inl e, w1)
                | (Inr token, w1) \<Rightarrow>
                    (let (mid, w2) = fresh_uuid env w1 in
                     (Inr (Some \<lparr>msg_id = mid, as_interface = im_interface im, as_step = None,
                        as_task = str_of_nat i, as_root = map_option str_of_nat (tk_root t),
                        as_parent = map_option str_of_nat (tk_parent t),
                        as_resolution = map_option str_of_nat (tk_resolution t),
                        as_capture = Some (tk_capture t), as_reference = Some (tk_reference t),
                        as_args = tk_args t, as_message = None,
                        as_user = user_sub env (cl_user cl), as_org = org_slug env (cl_organization cl),
                        as_action = ac_hash ac,
                        as_implementation = str_of_nat (the (tk_implementation t)),
                        as_token = token\<rparr>), w2)))
           | _ \<Rightarrow> (Inr None, w)))"

section \<open>The fate of in-flight work\<close>

definition task_effect :: "world \<Rightarrow> task \<Rightarrow> effect_class" where
  "task_effect w t =
     (case Option.bind (tk_implementation t) (t_get (w_implementations w)) of
        None \<Rightarrow> EFFECT_NONE
      | Some im \<Rightarrow> im_effect im)"

definition task_idempotent :: "world \<Rightarrow> task \<Rightarrow> bool" where
  "task_idempotent w t = (case t_get (w_actions w) (tk_action t) of None \<Rightarrow> False | Some ac \<Rightarrow> ac_idempotent ac)"

text \<open>The messages of the events, kept to their ASCII part.\<close>

definition PHYSICAL_LOST :: string where
  "PHYSICAL_LOST = ''Executor lost while running physical-effect work''"

definition REQUEUED :: string where
  "REQUEUED = ''Executor lost; idempotent action re-queued for redelivery.''"

definition FATE_UNKNOWN :: string where
  "FATE_UNKNOWN = ''Agent disconnected. Fate unknown''"

text \<open>
  A claimed transition followed by its event and, for a re-queue, the broadcast; a lost claim does
  nothing.
\<close>

definition claim_then ::
  "rekuest_env \<Rightarrow> nat \<Rightarrow> task_event_kind \<Rightarrow> bool \<Rightarrow> task_event_kind option \<Rightarrow> string
   \<Rightarrow> (world \<Rightarrow> unit outcome \<times> world) \<Rightarrow> world \<Rightarrow> unit outcome \<times> world"
where
  "claim_then env i k done_flag skip msg after w =
     and_then (claim_task_transition_sync i k done_flag skip w)
       (\<lambda>won w1. if \<not> won then (Inr (), w1)
                 else and_then (create_event env ((new_event i k w1)\<lparr>te_message := Some msg\<rparr>) w1)
                        (\<lambda>_. after))"

definition disconnected_fate :: "rekuest_env \<Rightarrow> nat \<Rightarrow> world \<Rightarrow> unit outcome \<times> world" where
  "disconnected_fate env i = claim_then env i DISCONNECTED False (Some DISCONNECTED) FATE_UNKNOWN (Pair (Inr ()))"

text \<open>
  One iteration of \<^verbatim>\<open>_fail_and_cascade_inflight\<close>. The task \<open>t\<close> is the instance loaded before the
  loop: its effect, action and status are read from it, the claims read the row.
\<close>

definition fail_one :: "rekuest_env \<Rightarrow> nat \<times> task \<Rightarrow> world \<Rightarrow> unit outcome \<times> world" where
  "fail_one env it w0 =
     (let (i, t) = it;
          w = w0\<lparr>auto_interrupt := gs_cancel (str_of_nat i) (auto_interrupt w0)\<rparr> in
      if task_effect w t = PHYSICAL then
        claim_then env i CRITICAL True None PHYSICAL_LOST (Pair (Inr ())) w
      else if task_idempotent w t \<and> tk_latest_event_kind t \<noteq> QUEUED then
        and_then (build_redispatch_assign_sync env i w)
          (\<lambda>message w1.
             case message of
               Some a \<Rightarrow>
                 claim_then env i QUEUED False (Some QUEUED) REQUEUED
                   (broadcast_to env (tk_agent t) (Assign a)) w1
             | None \<Rightarrow> disconnected_fate env i w1)
      else disconnected_fate env i w)"

fun fail_and_cascade_inflight :: "rekuest_env \<Rightarrow> (nat \<times> task) list \<Rightarrow> world \<Rightarrow> unit outcome \<times> world" where
  "fail_and_cascade_inflight env [] w = (Inr (), w)"
| "fail_and_cascade_inflight env (it # its) w =
     and_then (fail_one env it w) (\<lambda>_. fail_and_cascade_inflight env its)"

definition in_flight :: "nat \<Rightarrow> world \<Rightarrow> (nat \<times> task) list" where
  "in_flight i w = t_filter (\<lambda>t. tk_agent t = i \<and> \<not> tk_is_done t) (w_tasks w)"

definition reconcile_orphaned_executor_work :: "rekuest_env \<Rightarrow> nat \<Rightarrow> world \<Rightarrow> unit outcome \<times> world" where
  "reconcile_orphaned_executor_work env i w =
     (case t_get (w_agents w) i of
        None \<Rightarrow> (Inl (DoesNotExist ''Agent''), w)
      | Some a \<Rightarrow>
          (if agent_is_live env (now w) (ag_connected a) (ag_last_seen a) then (Inr (), w)
           else fail_and_cascade_inflight env (in_flight i w) w))"

section \<open>The sweep\<close>

fun heal_agents :: "rekuest_env \<Rightarrow> (nat \<times> agent) list \<Rightarrow> nat \<Rightarrow> world \<Rightarrow> nat outcome \<times> world" where
  "heal_agents env [] healed w = (Inr healed, w)"
| "heal_agents env ((i, a) # rest) healed w =
     and_then (revoke_lease_sync env i w)
       (\<lambda>won w1. if \<not> won then heal_agents env rest healed w1
                 else and_then (reconcile_orphaned_executor_work env i w1)
                        (\<lambda>_. heal_agents env rest (Suc healed)))"

definition reconcile_stale_agents :: "rekuest_env \<Rightarrow> world \<Rightarrow> nat outcome \<times> world" where
  "reconcile_stale_agents env w =
     heal_agents env (t_filter (\<lambda>a. ag_kind a = WEBSOCKET \<and> stale_agent_q env (now w) a) (w_agents w)) 0 w"

text \<open>
  One iteration of the reaper, which swallows every exception, and the management command, whose
  second phase visits each disconnected executor that still has open work past the grace window.
\<close>

definition reaper_iteration :: "rekuest_env \<Rightarrow> world \<Rightarrow> world" where
  "reaper_iteration env w = snd (reconcile_stale_agents env w)"

definition orphaned_executors :: "rekuest_env \<Rightarrow> world \<Rightarrow> nat list" where
  "orphaned_executors env w =
     (let cutoff = now w - grace_seconds (grace_cfg env) False in
      remdups (map (\<lambda>(i, t). tk_agent t)
        (t_filter (\<lambda>t. \<not> tk_is_done t \<and>
            (case t_get (w_agents w) (tk_agent t) of
               None \<Rightarrow> False
             | Some a \<Rightarrow> ag_kind a = WEBSOCKET \<and> \<not> ag_connected a \<and>
                 (case ag_last_seen a of None \<Rightarrow> False | Some s \<Rightarrow> s < cutoff))) (w_tasks w))))"

fun reconcile_each :: "rekuest_env \<Rightarrow> nat list \<Rightarrow> world \<Rightarrow> unit outcome \<times> world" where
  "reconcile_each env [] w = (Inr (), w)"
| "reconcile_each env (i # is) w =
     and_then (reconcile_orphaned_executor_work env i w) (\<lambda>_. reconcile_each env is)"

definition reconcile_tasks_command :: "rekuest_env \<Rightarrow> world \<Rightarrow> unit outcome \<times> world" where
  "reconcile_tasks_command env w =
     and_then (reconcile_stale_agents env w)
       (\<lambda>_ w1. reconcile_each env (orphaned_executors env w1) w1)"

section \<open>Connect and disconnect\<close>

record lease_claim =
  lcm_claimed :: bool
  lcm_epoch :: "int option"
  lcm_tasks :: "(nat \<times> task) list"
  lcm_displaced_incumbent :: bool

definition on_agent_connected ::
  "rekuest_env \<Rightarrow> nat \<Rightarrow> string option \<Rightarrow> string option \<Rightarrow> bool \<Rightarrow> world \<Rightarrow> lease_claim outcome \<times> world"
where
  "on_agent_connected env i connection_id session_id force w =
     and_then (claim_lease_sync env i connection_id session_id force w)
       (\<lambda>r w1.
          if \<not> lc_claimed r then
            (Inr \<lparr>lcm_claimed = False, lcm_epoch = None, lcm_tasks = [], lcm_displaced_incumbent = False\<rparr>, w1)
          else
            (let w2 = w1\<lparr>executor_grace := gs_cancel (str_of_nat i) (executor_grace w1)\<rparr>;
                 tasks = in_flight i w2 in
             if lc_prior_session r \<noteq> None \<and> session_id \<noteq> None \<and> lc_prior_session r \<noteq> session_id then
               and_then (fail_and_cascade_inflight env tasks w2)
                 (\<lambda>_ w3. (Inr \<lparr>lcm_claimed = True, lcm_epoch = lc_epoch r, lcm_tasks = [],
                               lcm_displaced_incumbent = lc_displaced r\<rparr>, w3))
             else
               (Inr \<lparr>lcm_claimed = True, lcm_epoch = lc_epoch r, lcm_tasks = tasks,
                     lcm_displaced_incumbent = lc_displaced r\<rparr>, w2)))"

definition on_agent_disconnected :: "rekuest_env \<Rightarrow> nat \<Rightarrow> string option \<Rightarrow> world \<Rightarrow> unit outcome \<times> world" where
  "on_agent_disconnected env i connection_id w =
     and_then (release_connection i connection_id w)
       (\<lambda>ours w1.
          if \<not> ours then (Inr (), w1)
          else let grace = grace_seconds (grace_cfg env) False in
               if grace \<le> 0 then reconcile_orphaned_executor_work env i w1
               else (Inr (), w1\<lparr>executor_grace :=
                       gs_schedule (now w1) (str_of_nat i) grace (Reconcile_orphans i) (executor_grace w1)\<rparr>))"

text \<open>A physical task that reported progress and then went silent.\<close>

definition SILENT :: string where
  "SILENT = ''Physical op went silent past its progress lease''"

definition reconcile_silent_physical_op :: "rekuest_env \<Rightarrow> string \<Rightarrow> world \<Rightarrow> unit outcome \<times> world" where
  "reconcile_silent_physical_op env task_id w =
     (case t_get_wire ''Task'' (w_tasks w) task_id of
        Inl e \<Rightarrow> (Inl e, w)
      | Inr (i, t) \<Rightarrow>
          (if tk_is_done t then (Inr (), w)
           else and_then (create_event env ((new_event i CRITICAL w)\<lparr>te_message := Some SILENT\<rparr>) w)
                  (\<lambda>_ w1. (Inr (), save_task i (mark_done CRITICAL (now w1)) w1))))"

section \<open>Every handler keeps the ledger\<close>

lemma t_get_wire_InrD: "t_get_wire what tb s = Inr (i, r) \<Longrightarrow> t_get tb i = Some r"
  by (auto simp: t_get_wire_def split: option.splits if_splits)

lemma wrapper_of_wrapper:
  assumes "wrapper_of w child = Some (p, config)"
  obtains pt where "t_get (w_tasks w) p = Some pt" "is_wrapper (w_implementations w) pt"
  using assms by (auto simp: wrapper_of_def is_wrapper_def bind_eq_Some_conv split: option.splits if_splits)

lemma and_then_create_event:
  "t_get (w_tasks w) (te_task ev) = Some t \<Longrightarrow>
   and_then (create_event env ev w) k = k () (snd (create_event env ev w))"
  by (simp add: create_event_def)

lemma new_event_task [simp]: "te_task (new_event i k w) = i" "te_kind (new_event i k w) = k"
  by (simp_all add: new_event_def)

lemma keeps_unfold: "keeps w (snd (unfold_to_higher_order env s k returns msg w))"
proof (cases "t_get_wire ''Task'' (w_tasks w) s")
  case (Inl e)
  then show ?thesis by (cases e) (simp_all add: unfold_to_higher_order_def)
next
  case (Inr cc)
  obtain c child where cc: "cc = (c, child)" by (cases cc)
  show ?thesis
  proof (cases "wrapper_of w child")
    case None
    with Inr cc show ?thesis by (simp add: unfold_to_higher_order_def)
  next
    case (Some pc)
    obtain p config where pc: "pc = (p, config)" by (cases pc)
    from Some pc obtain pt where pt: "t_get (w_tasks w) p = Some pt" "is_wrapper (w_implementations w) pt"
      by (auto elim: wrapper_of_wrapper)
    let ?res = "if k = YIELD then project_returns config returns else Inr None"
    show ?thesis
    proof (cases ?res)
      case (Inl e)
      with Inr cc Some pc show ?thesis by (simp add: unfold_to_higher_order_def)
    next
      case rets: (Inr rets)
      let ?ev = "(new_event p k w)\<lparr>te_delegated_to := Some c, te_returns := rets, te_message := msg\<rparr>"
      let ?w1 = "snd (create_event env ?ev w)"
      have "keeps w ?w1" by (rule keeps_create_event) (simp add: new_event_def pt)
      moreover have "keeps ?w1 (save_task p (mark_done k (now ?w1)) ?w1)"
        by (rule keeps_mark_done_wrapper) (simp add: pt)
      moreover have "keeps ?w1 (save_task p (mark_kind k) ?w1)"
        by (rule keeps_mark_kind) (simp add: pt)
      ultimately have "keeps w (save_task p (if k \<in> terminal_kinds then mark_done k (now ?w1) else mark_kind k) ?w1)"
        by (auto intro: keeps_trans)
      moreover have "unfold_to_higher_order env s k returns msg w =
          (Inr (), save_task p (if k \<in> terminal_kinds then mark_done k (now ?w1) else mark_kind k) ?w1)"
        unfolding unfold_to_higher_order_def using Inr cc Some pc rets pt
        by (simp add: and_then_create_event [of w ?ev pt])
      ultimately show ?thesis by simp
    qed
  qed
qed

lemma claim_transition_won:
  assumes "claim_task_transition_sync i k d skip w = (Inr True, w1)"
  obtains t where "t_get (w_tasks w) i = Some t" "\<not> tk_is_done t" "skip \<noteq> Some (tk_latest_event_kind t)"
    "w1 = save_task i (if d then mark_done k (now w) else mark_kind k) w"
  using assms by (auto simp: claim_task_transition_sync_def split: option.splits if_splits)

lemma claim_transition_lost:
  "claim_task_transition_sync i k d skip w = (Inr False, w1) \<Longrightarrow> w1 = w"
  "claim_task_transition_sync i k d skip w = (Inl e, w1) \<Longrightarrow> w1 = w"
  by (auto simp: claim_task_transition_sync_def split: option.splits if_splits)

text \<open>A won claim is followed by its event without fail; what comes after runs on both.\<close>

lemma claim_then_cases:
  obtains (lost) "snd (claim_then env i k d skip msg after w) = w"
  | (won) t w1 w2 where "t_get (w_tasks w) i = Some t" "\<not> tk_is_done t"
      "w1 = save_task i (if d then mark_done k (now w) else mark_kind k) w"
      "w2 = snd (create_event env ((new_event i k w1)\<lparr>te_message := Some msg\<rparr>) w1)"
      "w_events w2 = t_add ((new_event i k w1)\<lparr>te_message := Some msg\<rparr>) (w_events w)"
      "claim_then env i k d skip msg after w = after w2"
proof (cases "claim_task_transition_sync i k d skip w")
  case (Pair r w1)
  show ?thesis
  proof (cases "r = Inr True")
    case True
    with Pair obtain t where t: "t_get (w_tasks w) i = Some t" "\<not> tk_is_done t"
      and w1: "w1 = save_task i (if d then mark_done k (now w) else mark_kind k) w"
      by (auto elim: claim_transition_won)
    let ?ev = "(new_event i k w1)\<lparr>te_message := Some msg\<rparr>"
    obtain t1 where t1: "t_get (w_tasks w1) i = Some t1" using t w1 by (simp add: t_get_upd)
    show ?thesis
    proof (rule won [OF t w1 refl])
      show "w_events (snd (create_event env ?ev w1)) = t_add ?ev (w_events w)"
        using t1 w1 by (simp add: new_event_def)
      show "claim_then env i k d skip msg after w = after (snd (create_event env ?ev w1))"
        unfolding claim_then_def Pair True using t1 by (simp add: and_then_create_event)
    qed
  next
    case False
    with Pair have "snd (claim_then env i k d skip msg after w) = w"
      using claim_transition_lost [of i k d skip w]
      by (cases r) (auto simp: claim_then_def)
    then show ?thesis by (rule lost)
  qed
qed

lemma keeps_claim_then:
  assumes fin: "d = (k \<in> terminal_kinds)" and after: "\<And>w'. keeps w' (snd (after w'))"
  shows "keeps w (snd (claim_then env i k d skip msg after w))"
proof (cases rule: claim_then_cases [of env i k d skip msg after w])
  case lost
  then show ?thesis by simp
next
  case (won t w1 w2)
  have "keeps w w2"
  proof (cases d)
    case True
    with fin won show ?thesis
      by (intro keeps_finish [where t = t and i = i and k = k and n = "now w" and
            ev = "(new_event i k w1)\<lparr>te_message := Some msg\<rparr>"])
        (simp_all add: new_event_def)
  next
    case False
    with won have "keeps w w1" by (auto intro: keeps_mark_kind)
    moreover have "keeps w1 w2"
      unfolding won(4) by (rule keeps_create_event) (use False fin in \<open>simp add: new_event_def\<close>)
    ultimately show ?thesis by (rule keeps_trans)
  qed
  with after [of w2] won(6) show ?thesis by (auto intro: keeps_trans)
qed

lemma db_build_redispatch [simp]: "db (snd (build_redispatch_assign_sync env i w)) = db w"
proof -
  have "db (snd (mint_token_for_task env i t ctx w)) = db w" for t ctx by simp
  then show ?thesis
    unfolding build_redispatch_assign_sync_def
    by (auto simp: Let_def fresh_uuid_def split: option.split prod.split sum.split exc.split)
      (metis db_mint snd_conv)+
qed

lemma keeps_disconnected_fate: "keeps w (snd (disconnected_fate env i w))"
  unfolding disconnected_fate_def by (rule keeps_claim_then) simp_all

lemma keeps_fail_one: "keeps w (snd (fail_one env it w))"
proof -
  obtain i t where it: "it = (i, t)" by (cases it)
  define w1 where "w1 = w\<lparr>auto_interrupt := gs_cancel (str_of_nat i) (auto_interrupt w)\<rparr>"
  have "keeps w w1" unfolding w1_def by (intro same_ledger_keeps) simp
  moreover have "keeps w1 (snd (claim_then env i CRITICAL True None PHYSICAL_LOST (Pair (Inr ())) w1))"
    by (rule keeps_claim_then) simp_all
  moreover have "keeps w1 (snd (and_then (build_redispatch_assign_sync env i w1)
        (\<lambda>message w2. case message of
             Some a \<Rightarrow> claim_then env i QUEUED False (Some QUEUED) REQUEUED
                        (broadcast_to env (tk_agent t) (Assign a)) w2
           | None \<Rightarrow> disconnected_fate env i w2)))"
  proof (rule keeps_and_then)
    show "keeps w1 (snd (build_redispatch_assign_sync env i w1))"
      by (intro same_ledger_keeps db_same_ledger) simp
    show "keeps w2 (snd (case message of
             Some a \<Rightarrow> claim_then env i QUEUED False (Some QUEUED) REQUEUED
                        (broadcast_to env (tk_agent t) (Assign a)) w2
           | None \<Rightarrow> disconnected_fate env i w2))" for message w2
      by (cases message)
        (auto intro!: keeps_disconnected_fate keeps_claim_then)
  qed
  moreover have "keeps w1 (snd (disconnected_fate env i w1))" by (rule keeps_disconnected_fate)
  ultimately show ?thesis
    unfolding fail_one_def it Let_def prod.case w1_def [symmetric] by (auto intro: keeps_trans)
qed

lemma keeps_fail_and_cascade: "keeps w (snd (fail_and_cascade_inflight env its w))"
  by (induction its arbitrary: w) (auto intro!: keeps_and_then keeps_fail_one)

lemma keeps_reconcile_orphaned: "keeps w (snd (reconcile_orphaned_executor_work env i w))"
  by (auto simp: reconcile_orphaned_executor_work_def keeps_fail_and_cascade split: option.split)

lemma same_ledger_lease [simp]:
  "same_ledger w (snd (claim_lease_sync env i conn sess force w))"
  "same_ledger w (snd (revoke_lease_sync env i w))"
  "same_ledger w (snd (release_connection i conn w))"
  "same_ledger w (snd (renew_agent_lease i e w))"
proof -
  show "same_ledger w (snd (claim_lease_sync env i conn sess force w))"
    by (auto simp: claim_lease_sync_def agent_kept_def intro: same_ledger_save_agent split: option.split)
  show "same_ledger w (snd (revoke_lease_sync env i w))"
    by (auto simp: revoke_lease_sync_def agent_kept_def intro: same_ledger_save_agent split: option.split)
  show "same_ledger w (snd (release_connection i conn w))"
    by (auto simp: release_connection_def agent_kept_def intro: same_ledger_save_agent split: option.split)
  show "same_ledger w (snd (renew_agent_lease i e w))"
  proof (cases "t_get (w_agents w) i")
    case None
    then show ?thesis by (simp add: renew_agent_lease_def)
  next
    case (Some a)
    have "agents_evolve w (w\<lparr>w_agents := t_upd i (\<lambda>r. r\<lparr>ag_last_seen := Some (now w)\<rparr>) (w_agents w)\<rparr>)"
      by (rule agents_evolve_upd [OF Some]) (simp_all add: agent_kept_def)
    with Some show ?thesis by (simp add: renew_agent_lease_def same_ledger_def)
  qed
qed

lemmas keeps_lease [simp] = same_ledger_lease [THEN same_ledger_keeps]

lemma keeps_heal_agents: "keeps w (snd (heal_agents env as n w))"
proof (induction as arbitrary: n w)
  case Nil
  then show ?case by simp
next
  case (Cons ia as)
  obtain i a where "ia = (i, a)" by (cases ia)
  with Cons show ?case
    by (auto intro!: keeps_and_then keeps_reconcile_orphaned)
qed

lemma keeps_reconcile_stale_agents: "keeps w (snd (reconcile_stale_agents env w))"
  by (simp add: reconcile_stale_agents_def keeps_heal_agents)

lemma keeps_reconcile_each: "keeps w (snd (reconcile_each env is w))"
  by (induction "is" arbitrary: w) (auto intro!: keeps_and_then keeps_reconcile_orphaned)

lemma keeps_reconcile_tasks_command: "keeps w (snd (reconcile_tasks_command env w))"
  unfolding reconcile_tasks_command_def
  by (auto intro!: keeps_and_then keeps_reconcile_stale_agents keeps_reconcile_each)

lemma keeps_on_agent_connected: "keeps w (snd (on_agent_connected env i conn sess force w))"
  unfolding on_agent_connected_def
  by (auto simp: Let_def intro!: keeps_and_then keeps_from_timers(3) [OF keeps_fail_and_cascade])

lemma keeps_on_agent_disconnected: "keeps w (snd (on_agent_disconnected env i conn w))"
  unfolding on_agent_disconnected_def
  by (auto simp: Let_def intro!: keeps_and_then keeps_reconcile_orphaned)

lemma keeps_reconcile_silent: "keeps w (snd (reconcile_silent_physical_op env s w))"
proof (cases "t_get_wire ''Task'' (w_tasks w) s")
  case (Inl e)
  then show ?thesis by (simp add: reconcile_silent_physical_op_def)
next
  case (Inr it)
  obtain i t where it: "it = (i, t)" by (cases it)
  from Inr it have t: "t_get (w_tasks w) i = Some t" by (simp add: t_get_wire_InrD)
  let ?ev = "(new_event i CRITICAL w)\<lparr>te_message := Some SILENT\<rparr>"
  show ?thesis
  proof (cases "tk_is_done t")
    case True
    with Inr it show ?thesis by (simp add: reconcile_silent_physical_op_def)
  next
    case False
    have "keeps w (save_task i (mark_done CRITICAL (now w)) (snd (create_event env ?ev w)))"
      by (rule keeps_finish [where t = t and i = i and k = CRITICAL and n = "now w" and ev = ?ev])
        (use t False in \<open>simp_all add: new_event_def\<close>)
    moreover have "snd (reconcile_silent_physical_op env s w) =
        save_task i (mark_done CRITICAL (now w)) (snd (create_event env ?ev w))"
      unfolding reconcile_silent_physical_op_def using Inr it False t
      by (simp add: and_then_create_event [of w ?ev t])
    ultimately show ?thesis by simp
  qed
qed

end
