(* ===== verification/Lifecycle.thy ===== *)
theory Lifecycle
  imports Reconcile
begin

text \<open>
  The reports of executing agents: the \<^verbatim>\<open>on_agent_*\<close> handlers of
  \<^verbatim>\<open>facade/persist_backend.py\<close> for terminal reports, confirmations, events, states and locks.
  The five terminal handlers are written out as the code has them, and then shown to satisfy one
  contract.
\<close>

section \<open>Terminal reports\<close>

definition cancel_timers :: "string \<Rightarrow> world \<Rightarrow> world" where
  "cancel_timers s w =
     w\<lparr>progress_leases := gs_cancel s (progress_leases w), auto_interrupt := gs_cancel s (auto_interrupt w)\<rparr>"

definition on_agent_interrupted :: "rekuest_env \<Rightarrow> nat \<Rightarrow> interrupted \<Rightarrow> world \<Rightarrow> unit outcome \<times> world" where
  "on_agent_interrupted env agent_id m w0 =
     (let w = cancel_timers (interrupted_task m) w0 in
      case t_get_wire ''Task'' (w_tasks w) (interrupted_task m) of
        Inl (DoesNotExist _) \<Rightarrow> (Inr (), w)
      | Inl e \<Rightarrow> (Inl e, w)
      | Inr (i, x) \<Rightarrow>
          (if tk_is_done x then (Inr (), w)
           else and_then (create_event env (new_event i INTERRUPTED w) w)
             (\<lambda>_ w1. unfold_to_higher_order env (interrupted_task m) INTERRUPTED None None
                       (save_task i (mark_done INTERRUPTED (now w1)) w1))))"

definition on_agent_done :: "rekuest_env \<Rightarrow> nat \<Rightarrow> completed \<Rightarrow> world \<Rightarrow> unit outcome \<times> world" where
  "on_agent_done env agent_id m w0 =
     (let w = cancel_timers (completed_task m) w0 in
      case t_get_wire ''Task'' (w_tasks w) (completed_task m) of
        Inl e \<Rightarrow> (Inl e, w)
      | Inr (i, x) \<Rightarrow>
          (if tk_is_done x then (Inr (), w)
           else and_then (create_event env (new_event i COMPLETED w) w)
             (\<lambda>_ w1. unfold_to_higher_order env (completed_task m) COMPLETED None None
                       (save_task i (mark_done COMPLETED (now w1)) w1))))"

definition on_agent_cancelled :: "rekuest_env \<Rightarrow> nat \<Rightarrow> cancelled \<Rightarrow> world \<Rightarrow> unit outcome \<times> world" where
  "on_agent_cancelled env agent_id m w0 =
     (let w = cancel_timers (cancelled_task m) w0 in
      case t_get_wire ''Task'' (w_tasks w) (cancelled_task m) of
        Inl e \<Rightarrow> (Inl e, w)
      | Inr (i, x) \<Rightarrow>
          (if tk_is_done x then (Inr (), w)
           else and_then (create_event env (new_event i CANCELLED w) w)
             (\<lambda>_ w1. unfold_to_higher_order env (cancelled_task m) CANCELLED None None
                       (save_task i (mark_done CANCELLED (now w1)) w1))))"

definition on_agent_error :: "rekuest_env \<Rightarrow> nat \<Rightarrow> failed \<Rightarrow> world \<Rightarrow> unit outcome \<times> world" where
  "on_agent_error env agent_id m w0 =
     (let w = cancel_timers (failed_task m) w0 in
      case t_get_wire ''Task'' (w_tasks w) (failed_task m) of
        Inl e \<Rightarrow> (Inl e, w)
      | Inr (i, x) \<Rightarrow>
          (if tk_is_done x then (Inr (), w)
           else and_then
             (create_event env ((new_event i FAILED w)\<lparr>te_message := Some (failed_error m)\<rparr>) w)
             (\<lambda>_ w1. unfold_to_higher_order env (failed_task m) FAILED None (Some (failed_error m))
                       (save_task i (mark_done FAILED (now w1)) w1))))"

definition on_agent_critical :: "rekuest_env \<Rightarrow> nat \<Rightarrow> critical \<Rightarrow> world \<Rightarrow> unit outcome \<times> world" where
  "on_agent_critical env agent_id m w0 =
     (let w = cancel_timers (critical_task m) w0 in
      case t_get_wire ''Task'' (w_tasks w) (critical_task m) of
        Inl e \<Rightarrow> (Inl e, w)
      | Inr (i, x) \<Rightarrow>
          (if tk_is_done x then (Inr (), w)
           else and_then
             (create_event env ((new_event i CRITICAL w)\<lparr>te_message := Some (critical_error m)\<rparr>) w)
             (\<lambda>_ w1. unfold_to_higher_order env (critical_task m) CRITICAL None (Some (critical_error m))
                       (save_task i (mark_done CRITICAL (now w1)) w1))))"

section \<open>Confirmations that are not terminal\<close>

definition on_nonterminal_confirm ::
  "rekuest_env \<Rightarrow> string \<Rightarrow> task_event_kind \<Rightarrow> bool \<Rightarrow> world \<Rightarrow> unit outcome \<times> world"
where
  "on_nonterminal_confirm env task_id k cancel_lease w0 =
     (let w = (if cancel_lease then w0\<lparr>progress_leases := gs_cancel task_id (progress_leases w0)\<rparr> else w0) in
      case t_get_wire ''Task'' (w_tasks w) task_id of
        Inl (DoesNotExist _) \<Rightarrow> (Inr (), w)
      | Inl e \<Rightarrow> (Inl e, w)
      | Inr (i, x) \<Rightarrow>
          (if tk_is_done x then (Inr (), w)
           else and_then (create_event env (new_event i k w) w)
                  (\<lambda>_ w1. (Inr (), save_task i (mark_kind k) w1))))"

definition on_agent_paused :: "rekuest_env \<Rightarrow> nat \<Rightarrow> paused \<Rightarrow> world \<Rightarrow> unit outcome \<times> world" where
  "on_agent_paused env agent_id m = on_nonterminal_confirm env (paused_task m) PAUSED True"

definition on_agent_resumed :: "rekuest_env \<Rightarrow> nat \<Rightarrow> resumed \<Rightarrow> world \<Rightarrow> unit outcome \<times> world" where
  "on_agent_resumed env agent_id m = on_nonterminal_confirm env (resumed_task m) RESUMED False"

definition on_agent_started :: "rekuest_env \<Rightarrow> nat \<Rightarrow> started \<Rightarrow> world \<Rightarrow> unit outcome \<times> world" where
  "on_agent_started env agent_id m = on_nonterminal_confirm env (started_task m) STARTED False"

section \<open>Logs, yields and progress\<close>

text \<open>
  \<^verbatim>\<open>acreate(task_id=s, ...)\<close> with a wire string: a string that is no number is a
  \<^const>\<open>ValueError\<close>, a number that is no task violates the foreign key.
\<close>

definition wire_key :: "string \<Rightarrow> nat outcome" where
  "wire_key s =
     (case py_int s of
        None \<Rightarrow> Inl (ValueError ''Field id expected a number'')
      | Some i \<Rightarrow> (if i < 0 then Inl (IntegrityError ''task_id'') else Inr (nat i)))"

definition create_event_wire :: "rekuest_env \<Rightarrow> string \<Rightarrow> (nat \<Rightarrow> task_event) \<Rightarrow> world \<Rightarrow> unit outcome \<times> world" where
  "create_event_wire env s ev w =
     (case wire_key s of Inl e \<Rightarrow> (Inl e, w) | Inr i \<Rightarrow> create_event env (ev i) w)"

definition on_agent_log :: "rekuest_env \<Rightarrow> nat \<Rightarrow> log_report \<Rightarrow> world \<Rightarrow> unit outcome \<times> world" where
  "on_agent_log env agent_id m w =
     create_event_wire env (log_task m)
       (\<lambda>i. (new_event i LOG w)\<lparr>te_message := Some (log_message m)\<rparr>) w"

definition on_agent_yield :: "rekuest_env \<Rightarrow> nat \<Rightarrow> yield_report \<Rightarrow> world \<Rightarrow> unit outcome \<times> world" where
  "on_agent_yield env agent_id m w =
     and_then
       (create_event_wire env (yield_task m) (\<lambda>i. (new_event i YIELD w)\<lparr>te_returns := yield_returns m\<rparr>) w)
       (\<lambda>_. unfold_to_higher_order env (yield_task m) YIELD (yield_returns m) None)"

definition arm_progress_lease :: "rekuest_env \<Rightarrow> string \<Rightarrow> world \<Rightarrow> unit outcome \<times> world" where
  "arm_progress_lease env task_id w =
     (let lease = progress_lease_seconds (grace_cfg env) in
      if lease \<le> 0 then (Inr (), w)
      else case t_get_wire ''Task'' (w_tasks w) task_id of
             Inl e \<Rightarrow> (Inl e, w)
           | Inr (i, t) \<Rightarrow>
               (if tk_is_done t \<or> tk_implementation t = None \<or> task_effect w t \<noteq> PHYSICAL then (Inr (), w)
                else (Inr (), w\<lparr>progress_leases :=
                        gs_schedule (now w) task_id lease (Reconcile_silent task_id) (progress_leases w)\<rparr>)))"

definition on_agent_progress :: "rekuest_env \<Rightarrow> nat \<Rightarrow> progress_report \<Rightarrow> world \<Rightarrow> unit outcome \<times> world" where
  "on_agent_progress env agent_id m w =
     and_then
       (create_event_wire env (progress_task m)
          (\<lambda>i. (new_event i PROGRESS w)\<lparr>te_progress := progress_value m, te_message := progress_message m\<rparr>) w)
       (\<lambda>_. arm_progress_lease env (progress_task m))"

section \<open>States\<close>

definition get_state :: "nat \<Rightarrow> string \<Rightarrow> world \<Rightarrow> nat outcome" where
  "get_state agent_id interface w =
     (case t_filter (\<lambda>s. st_agent s = agent_id \<and> st_interface s = interface) (w_states w) of
        [] \<Rightarrow> Inl (DoesNotExist ''State'')
      | [(i, _)] \<Rightarrow> Inr i
      | _ \<Rightarrow> Inl (MultipleObjectsReturned ''State''))"

definition get_or_create_session :: "nat \<Rightarrow> string \<Rightarrow> world \<Rightarrow> nat outcome \<times> world" where
  "get_or_create_session agent_id session_id w =
     (case t_filter (\<lambda>s. se_agent s = agent_id \<and> se_session_id s = session_id) (w_sessions w) of
        [] \<Rightarrow>
          (if t_get (w_agents w) agent_id = None then (Inl (IntegrityError ''agent_id''), w)
           else (Inr (Suc (seq (w_sessions w))),
                 w\<lparr>w_sessions := t_add \<lparr>se_agent = agent_id, se_session_id = session_id, se_active = True,
                                            se_created_at = now w\<rparr>
                                  (w_sessions w)\<rparr>))
      | [(i, _)] \<Rightarrow> (Inr i, w)
      | _ \<Rightarrow> (Inl (MultipleObjectsReturned ''Session''), w))"

text \<open>A top-level JSON null is the SQL NULL, which the column refuses.\<close>

definition on_agent_state_patch :: "nat \<Rightarrow> state_patch \<Rightarrow> world \<Rightarrow> unit outcome \<times> world" where
  "on_agent_state_patch agent_id m w =
     (case get_state agent_id (sp_state_name m) w of
        Inl e \<Rightarrow> (Inl e, w)
      | Inr state \<Rightarrow>
          and_then (get_or_create_session agent_id (sp_session_id m) w)
            (\<lambda>session w1.
               case (case sp_task_id m of None \<Rightarrow> Inr None | Some s \<Rightarrow> map_sum id Some (wire_key s)) of
                 Inl e \<Rightarrow> (Inl e, w1)
               | Inr task \<Rightarrow>
                   (if sp_value m = JNull then (Inl (IntegrityError ''value''), w1)
                    else if Option.bind task (t_get (w_tasks w1)) = None \<and> task \<noteq> None then
                      (Inl (IntegrityError ''task_id''), w1)
                    else (Inr (), insert_patch
                           \<lparr>pt_state = state, pt_agent = Some agent_id, pt_interface = sp_state_name m,
                            pt_session = Some session, pt_op = sp_op m, pt_path = sp_path m,
                            pt_value = sp_value m, pt_timestamp = now w1, pt_global_rev = sp_global_rev m,
                            pt_task = task\<rparr> w1))))"

fun create_snapshots :: "nat \<Rightarrow> nat \<Rightarrow> int \<Rightarrow> json dict \<Rightarrow> world \<Rightarrow> unit outcome \<times> world" where
  "create_snapshots agent_id session grev [] w = (Inr (), w)"
| "create_snapshots agent_id session grev ((state_name, snapshot) # rest) w =
     (case get_state agent_id state_name w of
        Inl e \<Rightarrow> (Inl e, w)
      | Inr state \<Rightarrow>
          (if snapshot = JNull then (Inl (IntegrityError ''value''), w)
           else create_snapshots agent_id session grev rest
                  (w\<lparr>w_snapshots := t_add \<lparr>sn_state = state, sn_agent = Some agent_id,
                       sn_session = Some session, sn_value = snapshot, sn_timestamp = now w,
                       sn_global_rev = grev\<rparr> (w_snapshots w)\<rparr>)))"

definition on_agent_state_snapshot :: "nat \<Rightarrow> state_snapshot \<Rightarrow> world \<Rightarrow> unit outcome \<times> world" where
  "on_agent_state_snapshot agent_id m w =
     and_then (get_or_create_session agent_id (ss_session_id m) w)
       (\<lambda>session w1.
          if t_get (w_agents w1) agent_id = None then (Inl (DoesNotExist ''Agent''), w1)
          else create_snapshots agent_id session (ss_global_rev m) (ss_snapshots m) w1)"

definition on_agent_session_init :: "nat \<Rightarrow> session_init \<Rightarrow> world \<Rightarrow> unit outcome \<times> world" where
  "on_agent_session_init agent_id m w =
     and_then (get_or_create_session agent_id (si_session_id m) w)
       (\<lambda>session w1.
          if t_get (w_agents w1) agent_id = None then (Inl (DoesNotExist ''Agent''), w1)
          else create_snapshots agent_id session 0 (si_states m) w1)"

section \<open>Locks\<close>

definition on_agent_lock :: "nat \<Rightarrow> lock_message \<Rightarrow> world \<Rightarrow> unit outcome \<times> world" where
  "on_agent_lock agent_id m w =
     (case t_get_wire ''Task'' (w_tasks w) (lk_task m) of
        Inl (DoesNotExist _) \<Rightarrow> (Inr (), w)
      | Inl e \<Rightarrow> (Inl e, w)
      | Inr (i, _) \<Rightarrow>
          (case t_filter (\<lambda>l. lo_agent l = agent_id \<and> lo_key l = lk_key m) (w_locks w) of
             [] \<Rightarrow>
               (if t_get (w_agents w) agent_id = None then (Inl (IntegrityError ''agent_id''), w)
                else (Inr (), w\<lparr>w_locks := t_add \<lparr>lo_agent = agent_id, lo_key = lk_key m,
                        lo_description = None, lo_hold_by = Some i\<rparr> (w_locks w)\<rparr>))
           | [(j, _)] \<Rightarrow> (Inr (), w\<lparr>w_locks := t_upd j (\<lambda>l. l\<lparr>lo_hold_by := Some i\<rparr>) (w_locks w)\<rparr>)
           | _ \<Rightarrow> (Inl (MultipleObjectsReturned ''Lock''), w)))"

definition on_agent_unlock :: "nat \<Rightarrow> unlock_message \<Rightarrow> world \<Rightarrow> unit outcome \<times> world" where
  "on_agent_unlock agent_id m w =
     (Inr (), w\<lparr>w_locks := (w_locks w)\<lparr>rows :=
        map (\<lambda>(j, l). (j, if lo_agent l = agent_id \<and> lo_key l = ul_key m then l\<lparr>lo_hold_by := None\<rparr> else l))
          (rows (w_locks w))\<rparr>\<rparr>)"

section \<open>One contract for the five terminal handlers\<close>

text \<open>
  The common shape: \<open>tolerant\<close> says whether an unknown task is ignored, as only the interrupted
  handler does.
\<close>

definition report_terminal ::
  "rekuest_env \<Rightarrow> bool \<Rightarrow> task_event_kind \<Rightarrow> string option \<Rightarrow> string \<Rightarrow> world \<Rightarrow> unit outcome \<times> world"
where
  "report_terminal env tolerant k msg s w0 =
     (let w = cancel_timers s w0 in
      case t_get_wire ''Task'' (w_tasks w) s of
        Inl e \<Rightarrow> ((case e of DoesNotExist _ \<Rightarrow> if tolerant then Inr () else Inl e | _ \<Rightarrow> Inl e), w)
      | Inr (i, x) \<Rightarrow>
          (if tk_is_done x then (Inr (), w)
           else and_then (create_event env ((new_event i k w)\<lparr>te_message := msg\<rparr>) w)
             (\<lambda>_ w1. unfold_to_higher_order env s k None msg (save_task i (mark_done k (now w1)) w1))))"

lemma new_event_no_message [simp]: "(new_event i k w)\<lparr>te_message := None\<rparr> = new_event i k w"
  by (simp add: new_event_def)

lemma terminal_handlers:
  "on_agent_interrupted env a mi = report_terminal env True INTERRUPTED None (interrupted_task mi)"
  "on_agent_done env a md = report_terminal env False COMPLETED None (completed_task md)"
  "on_agent_cancelled env a mc = report_terminal env False CANCELLED None (cancelled_task mc)"
  "on_agent_error env a mf = report_terminal env False FAILED (Some (failed_error mf)) (failed_task mf)"
  "on_agent_critical env a mr = report_terminal env False CRITICAL (Some (critical_error mr)) (critical_task mr)"
  by (rule ext; simp add: on_agent_interrupted_def on_agent_done_def on_agent_cancelled_def
      on_agent_error_def on_agent_critical_def report_terminal_def Let_def
      split: sum.split exc.split)+

lemma cancel_timers_frame [simp]:
  "w_tasks (cancel_timers s w) = w_tasks w" "w_events (cancel_timers s w) = w_events w"
  "w_implementations (cancel_timers s w) = w_implementations w" "now (cancel_timers s w) = now w"
  "w_redis (cancel_timers s w) = w_redis w" "w_agents (cancel_timers s w) = w_agents w"
  by (simp_all add: cancel_timers_def)

lemma keeps_cancel_timers [simp]: "keeps w (cancel_timers s w)"
  by (intro same_ledger_keeps) (simp add: same_ledger_def)

text \<open>An open task that is reported terminal: its event, its final status, then the wrapper.\<close>

lemma report_terminal_open:
  assumes "t_get_wire ''Task'' (w_tasks w) s = Inr (i, x)" and "\<not> tk_is_done x"
  shows "report_terminal env tolerant k msg s w =
    (let w1 = snd (create_event env ((new_event i k w)\<lparr>te_message := msg\<rparr>) (cancel_timers s w)) in
     unfold_to_higher_order env s k None msg (save_task i (mark_done k (now w)) w1))"
  using assms t_get_wire_InrD [OF assms(1)]
  by (simp add: report_terminal_def Let_def and_then_create_event new_event_def)

lemma report_terminal_done:
  assumes "t_get_wire ''Task'' (w_tasks w) s = Inr (i, x)" and "tk_is_done x"
  shows "report_terminal env tolerant k msg s w = (Inr (), cancel_timers s w)"
  using assms by (simp add: report_terminal_def Let_def)

lemma report_terminal_unknown:
  assumes "t_get_wire ''Task'' (w_tasks w) s = Inl e"
  shows "snd (report_terminal env tolerant k msg s w) = cancel_timers s w"
  using assms by (simp add: report_terminal_def Let_def)

lemma keeps_report_terminal:
  assumes k: "k \<in> terminal_kinds"
  shows "keeps w (snd (report_terminal env tolerant k msg s w))"
proof (cases "t_get_wire ''Task'' (w_tasks w) s")
  case (Inl e)
  then show ?thesis by (simp add: report_terminal_unknown)
next
  case (Inr ix)
  obtain i x where ix: "ix = (i, x)" by (cases ix)
  from Inr ix have x: "t_get (w_tasks w) i = Some x" by (simp add: t_get_wire_InrD)
  show ?thesis
  proof (cases "tk_is_done x")
    case True
    with Inr ix show ?thesis by (simp add: report_terminal_done)
  next
    case False
    let ?ev = "(new_event i k w)\<lparr>te_message := msg\<rparr>"
    let ?w1 = "snd (create_event env ?ev (cancel_timers s w))"
    let ?w2 = "save_task i (mark_done k (now w)) ?w1"
    have "keeps w ?w2"
      by (rule keeps_finish [where t = x and i = i and k = k and n = "now w" and ev = ?ev])
        (use x False k in \<open>simp_all\<close>)
    moreover have "keeps ?w2 (snd (unfold_to_higher_order env s k None msg ?w2))" by (rule keeps_unfold)
    ultimately show ?thesis
      using Inr ix False by (simp add: report_terminal_open) (rule keeps_trans)
  qed
qed

section \<open>Every report keeps the ledger\<close>

lemma keeps_nonterminal_confirm:
  assumes "k \<notin> terminal_kinds"
  shows "keeps w (snd (on_nonterminal_confirm env s k c w))"
proof -
  let ?w = "if c then w\<lparr>progress_leases := gs_cancel s (progress_leases w)\<rparr> else w"
  have w: "keeps w ?w" by simp
  have tasks: "w_tasks ?w = w_tasks w" by simp
  show ?thesis
  proof (cases "t_get_wire ''Task'' (w_tasks w) s")
    case (Inl e)
    then show ?thesis by (cases e) (simp_all add: on_nonterminal_confirm_def Let_def)
  next
    case (Inr ix)
    obtain i x where ix: "ix = (i, x)" by (cases ix)
    from Inr ix have x: "t_get (w_tasks w) i = Some x" by (simp add: t_get_wire_InrD)
    let ?w1 = "snd (create_event env (new_event i k ?w) ?w)"
    have "keeps ?w ?w1" by (rule keeps_create_event) (use assms in simp)
    moreover have "keeps ?w1 (save_task i (mark_kind k) ?w1)" if "\<not> tk_is_done x"
      by (rule keeps_mark_kind) (use x that in \<open>auto simp: tasks\<close>)
    moreover have "snd (on_nonterminal_confirm env s k c w) =
        (if tk_is_done x then ?w else save_task i (mark_kind k) ?w1)"
      using Inr ix x by (simp add: on_nonterminal_confirm_def Let_def and_then_create_event)
    ultimately show ?thesis using w by (auto intro: keeps_trans)
  qed
qed

lemma keeps_create_event_wire:
  "(\<And>i. te_kind (ev i) \<notin> terminal_kinds) \<Longrightarrow> keeps w (snd (create_event_wire env s ev w))"
  by (simp add: create_event_wire_def keeps_create_event split: sum.split)

lemma keeps_on_agent_log: "keeps w (snd (on_agent_log env a m w))"
  unfolding on_agent_log_def by (rule keeps_create_event_wire) simp

lemma keeps_on_agent_yield: "keeps w (snd (on_agent_yield env a m w))"
  unfolding on_agent_yield_def
  by (auto intro!: keeps_and_then keeps_create_event_wire keeps_unfold)

lemma keeps_arm_progress_lease: "keeps w (snd (arm_progress_lease env s w))"
  by (auto simp: arm_progress_lease_def Let_def split: sum.split)

lemma keeps_on_agent_progress: "keeps w (snd (on_agent_progress env a m w))"
  unfolding on_agent_progress_def
  by (auto intro!: keeps_and_then keeps_create_event_wire keeps_arm_progress_lease)

lemma same_ledger_get_or_create_session [simp]: "same_ledger w (snd (get_or_create_session a s w))"
  by (auto simp: get_or_create_session_def same_ledger_def split: list.split)

lemma create_snapshots_agents: "w_agents (snd (create_snapshots a s r xs w)) = w_agents w"
  by (induction a s r xs w rule: create_snapshots.induct) (auto split: sum.split)

lemma same_ledger_create_snapshots: "same_ledger w (snd (create_snapshots a s r xs w))"
  by (induction a s r xs w rule: create_snapshots.induct)
    (auto simp: same_ledger_def create_snapshots_agents split: sum.split)

lemma keeps_states:
  "keeps w (snd (on_agent_state_patch a mp w))" "keeps w (snd (on_agent_state_snapshot a ms w))"
  "keeps w (snd (on_agent_session_init a mi w))"
proof -
  note session = same_ledger_get_or_create_session [THEN same_ledger_keeps]
  note snaps = same_ledger_create_snapshots [THEN same_ledger_keeps]
  have patch: "keeps w (insert_patch p w)" for p w by (intro same_ledger_keeps) (simp add: same_ledger_def)
  show "keeps w (snd (on_agent_state_patch a mp w))"
    unfolding on_agent_state_patch_def
    by (auto simp: patch intro!: keeps_and_then session split: sum.split)
  show "keeps w (snd (on_agent_state_snapshot a ms w))"
    unfolding on_agent_state_snapshot_def by (auto intro!: keeps_and_then session snaps)
  show "keeps w (snd (on_agent_session_init a mi w))"
    unfolding on_agent_session_init_def by (auto intro!: keeps_and_then session snaps)
qed

lemma keeps_locks: "keeps w (snd (on_agent_lock a m w))" "keeps w (snd (on_agent_unlock a u w))"
proof -
  have "same_ledger w (snd (on_agent_lock a m w))"
    by (auto simp: on_agent_lock_def same_ledger_def split: sum.split exc.split list.split)
  then show "keeps w (snd (on_agent_lock a m w))" by (rule same_ledger_keeps)
  show "keeps w (snd (on_agent_unlock a u w))"
    by (intro same_ledger_keeps) (simp add: on_agent_unlock_def same_ledger_def)
qed

end
