(* ===== verification/Postman.thy ===== *)
theory Postman
  imports Lifecycle
begin

text \<open>
  The postman of \<^verbatim>\<open>facade/backend.py\<close>: the request phase of the control operations, the
  resolution of dependencies, the assignment of a task to an implementation, the orchestration of
  a higher-order implementation, and the agent controls. Queries return rows in key order. The
  statements of an operation commit one by one: an exception keeps what was written before it.
\<close>

section \<open>Control requests\<close>

definition mark_instruct :: "task_instruct_kind \<Rightarrow> task \<Rightarrow> task" where
  "mark_instruct k t = t\<lparr>tk_latest_instruct_kind := k\<rparr>"

fun request_each ::
  "rekuest_env \<Rightarrow> task_instruct_kind \<Rightarrow> task_event_kind \<Rightarrow> (string \<Rightarrow> string \<Rightarrow> to_agent_message)
   \<Rightarrow> (nat \<times> task) list \<Rightarrow> world \<Rightarrow> unit outcome \<times> world"
where
  "request_each env ik ek factory [] w = (Inr (), w)"
| "request_each env ik ek factory ((i, t) # rest) w =
     and_then (create_event env (new_event i ek w) (save_task i (mark_instruct ik) w))
       (\<lambda>_ w1. let (mid, w2) = fresh_uuid env w1 in
          and_then (broadcast_to env (tk_agent t) (factory mid (str_of_nat i)) w2)
            (\<lambda>_. request_each env ik ek factory rest))"

definition request_control ::
  "rekuest_env \<Rightarrow> string \<Rightarrow> task_instruct_kind \<Rightarrow> task_event_kind \<Rightarrow> (string \<Rightarrow> string \<Rightarrow> to_agent_message)
   \<Rightarrow> bool \<Rightarrow> world \<Rightarrow> nat outcome \<times> world"
where
  "request_control env task_id ik ek factory propagate w =
     (case t_get_wire ''Task'' (w_tasks w) task_id of
        Inl e \<Rightarrow> (Inl e, w)
      | Inr (i, t) \<Rightarrow>
          (if tk_is_done t then (Inl (ValueError ''Task is already terminal''), w)
           else
             let targets = (i, t) # (if propagate
                    then t_filter (\<lambda>r. tk_root r = Some i \<and> \<not> tk_is_done r) (w_tasks w) else [])
             in and_then (request_each env ik ek factory targets w) (\<lambda>_ w1. (Inr i, w1))))"

definition control_cancel :: "rekuest_env \<Rightarrow> cancel_input \<Rightarrow> world \<Rightarrow> nat outcome \<times> world" where
  "control_cancel env input =
     request_control env (cni_task input) I_CANCEL CANCELLING
       (\<lambda>mid a. Cancel \<lparr>msg_id = mid, ca_task = a\<rparr>) False"

definition control_interrupt :: "rekuest_env \<Rightarrow> interrupt_input \<Rightarrow> world \<Rightarrow> nat outcome \<times> world" where
  "control_interrupt env input =
     request_control env (iti_task input) I_INTERRUPT INTERRUPTING
       (\<lambda>mid a. Interrupt \<lparr>msg_id = mid, it_task = a\<rparr>) True"

definition control_pause :: "rekuest_env \<Rightarrow> pause_input \<Rightarrow> world \<Rightarrow> nat outcome \<times> world" where
  "control_pause env input =
     request_control env (psi_task input) I_PAUSE PAUSING
       (\<lambda>mid a. Pause \<lparr>msg_id = mid, pa_task = a\<rparr>) False"

definition control_resume :: "rekuest_env \<Rightarrow> resume_input \<Rightarrow> world \<Rightarrow> nat outcome \<times> world" where
  "control_resume env input =
     request_control env (rsi_task input) I_RESUME RESUMING
       (\<lambda>mid a. Resume \<lparr>msg_id = mid, rs_task = a, rs_step = rsi_step input\<rparr>) False"

section \<open>Callers\<close>

definition get_or_create_caller :: "nat \<Rightarrow> nat \<Rightarrow> nat \<Rightarrow> world \<Rightarrow> nat \<times> world" where
  "get_or_create_caller client user organization w =
     (case t_first (\<lambda>c. cl_client c = client \<and> cl_user c = user \<and> cl_organization c = organization)
             (w_callers w) of
        Some (i, _) \<Rightarrow> (i, w)
      | None \<Rightarrow>
          (Suc (seq (w_callers w)),
           w\<lparr>w_callers := t_add \<lparr>cl_client = client, cl_user = user, cl_organization = organization\<rparr>
                            (w_callers w)\<rparr>))"

text \<open>Without a client the lookup finds nothing and the insert violates NOT NULL.\<close>

definition get_caller_for_context :: "caller_context \<Rightarrow> world \<Rightarrow> nat outcome \<times> world" where
  "get_caller_for_context ctx w =
     (case (cx_client ctx, cx_organization ctx) of
        (Some c, Some g) \<Rightarrow> (let (i, w1) = get_or_create_caller c (cx_user ctx) g w in (Inr i, w1))
      | _ \<Rightarrow> (Inl (IntegrityError ''client''), w))"

section \<open>Dependencies\<close>

definition demanded_key :: "action_dependency \<Rightarrow> string" where
  "demanded_key ad =
     (case Option.bind (adep_demand ad) ad_key of
        None \<Rightarrow> adep_key ad
      | Some k \<Rightarrow> (if k = [] then adep_key ad else k))"

definition find_implementation :: "string \<Rightarrow> nat \<Rightarrow> world \<Rightarrow> nat outcome" where
  "find_implementation action_key agent_id w =
     (case t_filter (\<lambda>im. im_agent im = agent_id \<and>
              (case t_get (w_actions w) (im_action im) of None \<Rightarrow> False | Some ac \<Rightarrow> ac_key ac = action_key))
            (w_implementations w) of
        [] \<Rightarrow> Inl (ValueError ''No implementation found for dependency demand'')
      | [(i, _)] \<Rightarrow> Inr i
      | _ \<Rightarrow> Inl (MultipleObjectsReturned ''Implementation''))"

fun agent_actions :: "nat \<Rightarrow> action_dependency list \<Rightarrow> json dict \<Rightarrow> world \<Rightarrow> json dict outcome" where
  "agent_actions agent_id [] acc w = Inr acc"
| "agent_actions agent_id (ad # rest) acc w =
     (case find_implementation (demanded_key ad) agent_id w of
        Inl e \<Rightarrow> Inl e
      | Inr i \<Rightarrow>
          (if t_filter (\<lambda>d. de_implementation d = i) (w_dependencies w) \<noteq> [] then
             Inl (NotImplementedError ''Nested dependencies'')
           else agent_actions agent_id rest
                  (dict_set (adep_key ad)
                     (JDict [(''implementation'', JStr (str_of_nat i)), (''dependencies'', JDict [])]) acc) w))"

definition build_agent_dependency_dict :: "nat \<Rightarrow> dependency \<Rightarrow> world \<Rightarrow> json outcome" where
  "build_agent_dependency_dict agent_id dep w =
     (case agent_actions agent_id (de_action_demands dep) [] w of
        Inl e \<Rightarrow> Inl e
      | Inr actions \<Rightarrow> Inr (JDict [(''agent'', JStr (str_of_nat agent_id)), (''actions'', JDict actions)]))"

fun agent_dicts :: "nat list \<Rightarrow> dependency \<Rightarrow> world \<Rightarrow> json list outcome" where
  "agent_dicts [] dep w = Inr []"
| "agent_dicts (a # as) dep w =
     (case build_agent_dependency_dict a dep w of
        Inl e \<Rightarrow> Inl e
      | Inr d \<Rightarrow> (case agent_dicts as dep w of Inl e \<Rightarrow> Inl e | Inr ds \<Rightarrow> Inr (d # ds)))"

text \<open>The bounds on the number of instances; a negative slice is refused by the query layer.\<close>

definition bounded_agents :: "dependency \<Rightarrow> (nat \<times> agent) list \<Rightarrow> nat list outcome" where
  "bounded_agents dep agents =
     (case de_max_viable_instances dep of
        Some m \<Rightarrow>
          (if m < 0 then Inl (ValueError ''Negative indexing is not supported.'')
           else let as = take (nat m) agents in
                case de_min_viable_instances dep of
                  Some n \<Rightarrow> (if int (length as) < n then Inl (ValueError ''Not enough agents found'')
                             else Inr (map fst as))
                | None \<Rightarrow> Inr (map fst as))
      | None \<Rightarrow>
          (case de_min_viable_instances dep of
             Some n \<Rightarrow> (if int (length agents) < n then Inl (ValueError ''Not enough agents found'')
                        else Inr (map fst agents))
           | None \<Rightarrow> Inr (map fst agents)))"

definition auto_agents :: "rekuest_env \<Rightarrow> caller_context \<Rightarrow> dependency \<Rightarrow> world \<Rightarrow> (nat \<times> agent) list" where
  "auto_agents env ctx dep w =
     t_filter (\<lambda>a. de_app_filter dep = Some (app_identifier_of env (ag_app a)) \<and>
                   cx_organization ctx = Some (ag_organization a) \<and> agent_available_q env (now w) a)
       (w_agents w)"

fun wire_keys :: "string list \<Rightarrow> int list outcome" where
  "wire_keys [] = Inr []"
| "wire_keys (s # ss) =
     (case py_int s of
        None \<Rightarrow> Inl (ValueError ''Field id expected a number'')
      | Some i \<Rightarrow> (case wire_keys ss of Inl e \<Rightarrow> Inl e | Inr is \<Rightarrow> Inr (i # is)))"

definition mapped_agents :: "rekuest_env \<Rightarrow> resolved_dependency_input \<Rightarrow> world \<Rightarrow> (nat \<times> agent) list outcome" where
  "mapped_agents env overwrite w =
     (case wire_keys (map ma_agent (rd_mapped_agents overwrite)) of
        Inl e \<Rightarrow> Inl e
      | Inr keys \<Rightarrow>
          Inr (filter (\<lambda>(i, a). int i \<in> set keys)
                 (t_filter (\<lambda>a. agent_available_q env (now w) a) (w_agents w))))"

text \<open>The agents one declared dependency resolves to.\<close>

definition dependency_agents ::
  "rekuest_env \<Rightarrow> caller_context \<Rightarrow> resolved_dependency_input list \<Rightarrow> dependency \<Rightarrow> world \<Rightarrow> nat list outcome"
where
  "dependency_agents env ctx overwrites dep w =
     (case find (\<lambda>r. rd_key r = de_key dep) overwrites of
        Some r \<Rightarrow>
          (if rd_auto_resolve r then
             (if \<not> de_auto_resolvable dep then Inl (ValueError ''Dependency is not auto resolvable'')
              else bounded_agents dep (auto_agents env ctx dep w))
           else (case mapped_agents env r w of Inl e \<Rightarrow> Inl e | Inr as \<Rightarrow> bounded_agents dep as))
      | None \<Rightarrow>
          (if de_auto_resolvable dep then bounded_agents dep (auto_agents env ctx dep w)
           else Inl (ValueError ''Dependency was not provided with an overwrite'')))"

fun dependency_dicts ::
  "rekuest_env \<Rightarrow> caller_context \<Rightarrow> resolved_dependency_input list \<Rightarrow> (nat \<times> dependency) list
   \<Rightarrow> json dict \<Rightarrow> world \<Rightarrow> json dict outcome"
where
  "dependency_dicts env ctx overwrites [] acc w = Inr acc"
| "dependency_dicts env ctx overwrites ((j, dep) # rest) acc w =
     (case dependency_agents env ctx overwrites dep w of
        Inl e \<Rightarrow> Inl e
      | Inr as \<Rightarrow>
          (case agent_dicts as dep w of
             Inl e \<Rightarrow> Inl e
           | Inr ds \<Rightarrow> dependency_dicts env ctx overwrites rest (dict_set (de_key dep) (JList ds) acc) w))"

definition build_dependency_dict ::
  "rekuest_env \<Rightarrow> nat \<Rightarrow> caller_context \<Rightarrow> resolved_dependency_input list \<Rightarrow> world \<Rightarrow> json dict outcome"
where
  "build_dependency_dict env impl_id ctx overwrites w =
     dependency_dicts env ctx overwrites
       (t_filter (\<lambda>d. de_implementation d = impl_id) (w_dependencies w)) [] w"

section \<open>The structures a task acts on\<close>

text \<open>
  Python's \<^verbatim>\<open>str()\<close> and \<^verbatim>\<open>repr()\<close> of a JSON value: a string is quoted with single quotes unless it
  holds one and no double quote.
\<close>

definition py_repr_char :: "char \<Rightarrow> char \<Rightarrow> string" where
  "py_repr_char quote c =
     (let n = (of_char c :: nat) in
      if c = quote \<or> n = 92 then [char_of (92 :: nat), c]
      else if n = 10 then [char_of (92 :: nat), CHR ''n'']
      else if n = 13 then [char_of (92 :: nat), CHR ''r'']
      else if n = 9 then [char_of (92 :: nat), CHR ''t'']
      else if n < 32 \<or> n = 127 then
        char_of (92 :: nat) # CHR ''x'' # [hex_digit (n div 16), hex_digit (n mod 16)]
      else [c])"

definition py_repr_string :: "string \<Rightarrow> string" where
  "py_repr_string s =
     (let q = (if char_of (39 :: nat) \<in> set s \<and> char_of (34 :: nat) \<notin> set s
               then char_of (34 :: nat) else char_of (39 :: nat))
      in q # concat (map (py_repr_char q) s) @ [q])"

fun join_comma :: "string list \<Rightarrow> string" where
  "join_comma [] = []"
| "join_comma [x] = x"
| "join_comma (x # y # zs) = x @ '', '' @ join_comma (y # zs)"

fun py_repr :: "json \<Rightarrow> string" where
  "py_repr JNull = ''None''"
| "py_repr (JBool b) = (if b then ''True'' else ''False'')"
| "py_repr (JInt i) = str_of_int i"
| "py_repr (JFloat s) = s"
| "py_repr (JStr s) = py_repr_string s"
| "py_repr (JList xs) = ''['' @ join_comma (map py_repr xs) @ '']''"
| "py_repr (JDict d) =
     CHR ''{'' # join_comma (map (\<lambda>(k, v). py_repr_string k @ '': '' @ py_repr v) d) @ ''}''"

fun py_str :: "json \<Rightarrow> string" where
  "py_str (JStr s) = s"
| "py_str j = py_repr j"

text \<open>One port: \<^verbatim>\<open>port["kind"]\<close> raises when it is missing, an unhashable key when it is looked up.\<close>

definition port_acted_on :: "json dict \<Rightarrow> json \<Rightarrow> string list outcome" where
  "port_acted_on args port =
     (case port of
        JDict d \<Rightarrow>
          (case dict_get d ''kind'' of
             None \<Rightarrow> Inl (KeyError ''kind'')
           | Some kind \<Rightarrow>
               (if kind \<noteq> JStr ''STRUCTURE'' then Inr []
                else case dict_get d ''identifier'' of
                       None \<Rightarrow> Inr []
                     | Some ident \<Rightarrow>
                         (if \<not> truthy ident then Inr []
                          else case dict_get d ''key'' of
                                 Some (JStr k) \<Rightarrow>
                                   (case dict_get args k of
                                      Some (JDict v) \<Rightarrow>
                                        Inr [py_str ident @ '':'' @
                                             py_str (case dict_get v ''object'' of None \<Rightarrow> JNull | Some ob \<Rightarrow> ob)]
                                    | Some (JStr v) \<Rightarrow> Inr [py_str ident @ '':'' @ v]
                                    | _ \<Rightarrow> Inr [])
                               | Some (JList _) \<Rightarrow> Inl (TypeError ''unhashable type'')
                               | Some (JDict _) \<Rightarrow> Inl (TypeError ''unhashable type'')
                               | _ \<Rightarrow> Inr [])))
      | _ \<Rightarrow> Inl (TypeError ''indices''))"

fun acted_on_ports :: "json dict \<Rightarrow> json list \<Rightarrow> string list outcome" where
  "acted_on_ports args [] = Inr []"
| "acted_on_ports args (p # ps) =
     (case port_acted_on args p of
        Inl e \<Rightarrow> Inl e
      | Inr xs \<Rightarrow> (case acted_on_ports args ps of Inl e \<Rightarrow> Inl e | Inr ys \<Rightarrow> Inr (xs @ ys)))"

definition acted_on_from_args :: "json dict \<Rightarrow> action \<Rightarrow> string list outcome" where
  "acted_on_from_args args a = acted_on_ports args (ac_args a)"

section \<open>Choosing the implementation\<close>

record target =
  tg_action :: nat
  tg_implementation :: nat
  tg_agent :: nat
  tg_dependency_dict :: "json dict option"

text \<open>The given string is present and not empty.\<close>

definition given :: "string option \<Rightarrow> bool" where
  "given s \<longleftrightarrow> s \<noteq> None \<and> s \<noteq> Some []"

definition implementation_target :: "nat \<Rightarrow> json dict option \<Rightarrow> world \<Rightarrow> target outcome" where
  "implementation_target i deps w =
     (case t_get (w_implementations w) i of
        None \<Rightarrow> Inl (DoesNotExist ''Implementation'')
      | Some im \<Rightarrow>
          Inr \<lparr>tg_action = im_action im, tg_implementation = i, tg_agent = im_agent im,
               tg_dependency_dict = deps\<rparr>)"

text \<open>\<^verbatim>\<open>Implementation.objects.get(id=...)\<close> for the JSON value stored in a dependency dict.\<close>

definition json_pk :: "json \<Rightarrow> nat outcome" where
  "json_pk j =
     (case j of
        JStr s \<Rightarrow> (case py_int s of
                     None \<Rightarrow> Inl (ValueError ''Field id expected a number'')
                   | Some i \<Rightarrow> (if i < 0 then Inl (DoesNotExist ''Implementation'') else Inr (nat i)))
      | JInt i \<Rightarrow> (if i < 0 then Inl (DoesNotExist ''Implementation'') else Inr (nat i))
      | _ \<Rightarrow> Inl (TypeError ''Field id expected a number''))"

text \<open>
  The chosen agent's entry for a method. An entry that is no dict, and a nested dependency value
  that is neither a dict nor null, do not arise from \<open>build_agent_dependency_dict\<close>; they count
  as a \<^const>\<open>TypeError\<close> here.
\<close>

definition method_target :: "json \<Rightarrow> string \<Rightarrow> world \<Rightarrow> target outcome" where
  "method_target chosen method w =
     (case chosen of
        JDict agent \<Rightarrow>
          (case dict_get agent ''actions'' of
             None \<Rightarrow> Inl (ValueError ''Dependency does not contain an action'')
           | Some (JDict actions) \<Rightarrow>
               (case dict_get actions method of
                  None \<Rightarrow> Inl (ValueError ''Method not found in dependency actions'')
                | Some (JDict impl_dep) \<Rightarrow>
                    (case (dict_get impl_dep ''implementation'', dict_get impl_dep ''dependencies'') of
                       (None, _) \<Rightarrow> Inl (KeyError ''implementation'')
                     | (_, None) \<Rightarrow> Inl (KeyError ''dependencies'')
                     | (Some pk, Some deps) \<Rightarrow>
                         (case json_pk pk of
                            Inl e \<Rightarrow> Inl e
                          | Inr i \<Rightarrow>
                              (case deps of
                                 JDict d \<Rightarrow> implementation_target i (Some d) w
                               | JNull \<Rightarrow> implementation_target i None w
                               | _ \<Rightarrow> Inl (TypeError ''dependencies''))))
                | Some _ \<Rightarrow> Inl (TypeError ''actions''))
           | Some _ \<Rightarrow> Inl (TypeError ''actions''))
      | _ \<Rightarrow> Inl (TypeError ''agent''))"

text \<open>The agent of a dependency is drawn at random among those bound to it.\<close>

definition dependency_target ::
  "rekuest_env \<Rightarrow> assign_input \<Rightarrow> string \<Rightarrow> world \<Rightarrow> target outcome \<times> world"
where
  "dependency_target env input dep w =
     (if \<not> given (ai_method input) then (Inl (AssertionError ''Method key must be provided''), w)
      else if \<not> given (ai_parent input) then
        (Inl (AssertionError ''Dependency assignments must have a parent task''), w)
      else case t_get_wire ''Task'' (w_tasks w) (the (ai_parent input)) of
             Inl e \<Rightarrow> (Inl e, w)
           | Inr (p, parent) \<Rightarrow>
               (case dict_get (tk_dependencies parent) dep of
                  None \<Rightarrow> (Inl (ValueError ''Dependency not found in parent task dependencies''), w)
                | Some (JList agents) \<Rightarrow>
                    (if agents = [] then (Inl (IndexError ''Cannot choose from an empty sequence''), w)
                     else (method_target (agents ! (random_choice env (draws w) mod length agents))
                             (the (ai_method input)) w,
                           w\<lparr>draws := Suc (draws w)\<rparr>))
                | Some _ \<Rightarrow> (Inl (TypeError ''choice''), w)))"

text \<open>\<^verbatim>\<open>Implementation.objects.filter(action=action).filter(agent_available_q("agent")).first()\<close>\<close>

definition available_implementation :: "rekuest_env \<Rightarrow> nat \<Rightarrow> world \<Rightarrow> target outcome" where
  "available_implementation env action_id w =
     (case t_first (\<lambda>im. im_action im = action_id \<and>
              (case t_get (w_agents w) (im_agent im) of
                 None \<Rightarrow> False | Some a \<Rightarrow> agent_available_q env (now w) a)) (w_implementations w) of
        None \<Rightarrow> Inl (ValueError ''No active implementation found for action'')
      | Some (i, im) \<Rightarrow> Inr \<lparr>tg_action = action_id, tg_implementation = i, tg_agent = im_agent im,
                            tg_dependency_dict = None\<rparr>)"

definition resolve_target ::
  "rekuest_env \<Rightarrow> nat \<Rightarrow> assign_input \<Rightarrow> world \<Rightarrow> target outcome \<times> world"
where
  "resolve_target env organization input w =
     (if given (ai_dependency input) then dependency_target env input (the (ai_dependency input)) w
      else if given (ai_action input) then
        (case t_get_wire ''Action'' (w_actions w) (the (ai_action input)) of
           Inl e \<Rightarrow> (Inl e, w)
         | Inr (a, _) \<Rightarrow> (available_implementation env a w, w))
      else if given (ai_implementation input) then
        (case t_get_wire ''Implementation'' (w_implementations w) (the (ai_implementation input)) of
           Inl e \<Rightarrow> (Inl e, w)
         | Inr (i, im) \<Rightarrow>
             (if im_higher_order_for im = None \<and>
                 \<not> (case t_get (w_agents w) (im_agent im) of
                      None \<Rightarrow> False | Some a \<Rightarrow> agent_is_available env (now w) a)
              then (Inl (AssertionError ''Agent is not available''), w)
              else (implementation_target i None w, w)))
      else if given (ai_action_hash input) then
        (case t_filter (\<lambda>a. Some (ac_hash a) = ai_action_hash input \<and> ac_organization a = organization)
                (w_actions w) of
           [] \<Rightarrow> (Inl (DoesNotExist ''Action''), w)
         | [(a, _)] \<Rightarrow> (available_implementation env a w, w)
         | _ \<Rightarrow> (Inl (MultipleObjectsReturned ''Action''), w))
      else (Inl (ValueError ''You need to provide either, action_hash or action_id''), w))"

section \<open>Creating the task\<close>

text \<open>
  \<^verbatim>\<open>Task.objects.create(...)\<close>: the parent's key is converted first; the hooks are pydantic objects,
  which the JSON column cannot encode, so any hook at all is a \<^const>\<open>TypeError\<close>; then the database
  checks the foreign key.
\<close>

definition create_task :: "string option \<Rightarrow> hook_input list \<Rightarrow> (nat option \<Rightarrow> task) \<Rightarrow> world \<Rightarrow> nat outcome \<times> world" where
  "create_task parent hooks mk w =
     (case (case parent of None \<Rightarrow> Inr None | Some s \<Rightarrow>
             (case py_int s of None \<Rightarrow> Inl (ValueError ''Field parent_id expected a number'')
                             | Some i \<Rightarrow> Inr (Some i))) of
        Inl e \<Rightarrow> (Inl e, w)
      | Inr p \<Rightarrow>
          (if hooks \<noteq> [] then (Inl (TypeError ''Object of type HookInputModel is not JSON serializable''), w)
           else case p of
                  None \<Rightarrow> (let (i, w1) = insert_task (mk None) w in (Inr i, w1))
                | Some i \<Rightarrow>
                    (if i < 0 \<or> t_get (w_tasks w) (nat i) = None then (Inl (IntegrityError ''parent_id''), w)
                     else let (j, w1) = insert_task (mk (Some (nat i))) w in (Inr j, w1))))"

text \<open>\<^verbatim>\<open>input.reference or self.create_message_id()\<close>\<close>

definition reference_or_fresh :: "rekuest_env \<Rightarrow> string option \<Rightarrow> world \<Rightarrow> string \<times> world" where
  "reference_or_fresh env r w =
     (case r of Some s \<Rightarrow> (if s = [] then fresh_uuid env w else (s, w)) | None \<Rightarrow> fresh_uuid env w)"

definition default_bool :: "bool option \<Rightarrow> bool" where
  "default_bool b = (case b of None \<Rightarrow> False | Some x \<Rightarrow> x)"

definition new_task ::
  "rekuest_env \<Rightarrow> target \<Rightarrow> assign_input \<Rightarrow> string list \<Rightarrow> string \<Rightarrow> json dict \<Rightarrow> nat \<Rightarrow> world
   \<Rightarrow> nat option \<Rightarrow> task"
where
  "new_task env tg input acted reference deps caller_id w parent =
     \<lparr>tk_acted_on = acted, tk_implementation = Some (tg_implementation tg), tk_resolution = None,
      tk_action = tg_action tg, tk_ephemeral = default_bool (ai_ephemeral input), tk_hooks = [],
      tk_reference = reference, tk_dependency = ai_dependency input,
      tk_dependency_method = ai_method input, tk_capture = default_bool (ai_capture input),
      tk_parent = parent, tk_root = None, tk_args = ai_args input,
      tk_args_hash = Some (args_hash env (ai_args input)), tk_dependencies = deps,
      tk_caller = Some caller_id, tk_agent = tg_agent tg, tk_latest_event_kind = STARTED,
      tk_latest_instruct_kind = I_ASSIGN, tk_is_done = False, tk_created_at = now w,
      tk_finished_at = None\<rparr>"

text \<open>The message of a fresh dispatch: it carries neither the parent nor the root.\<close>

definition assign_message ::
  "rekuest_env \<Rightarrow> string \<Rightarrow> nat \<Rightarrow> json dict \<Rightarrow> caller_context \<Rightarrow> string \<Rightarrow> bool \<Rightarrow> nat \<times> implementation
   \<Rightarrow> action \<Rightarrow> string option \<Rightarrow> assign"
where
  "assign_message env mid i args ctx reference capture im ac token =
     \<lparr>msg_id = mid, as_interface = im_interface (snd im), as_step = None, as_task = str_of_nat i,
      as_root = None, as_parent = None, as_resolution = None, as_capture = Some capture,
      as_reference = Some reference, as_args = args, as_message = None,
      as_user = user_sub env (cx_user ctx),
      as_org = (case cx_organization ctx of None \<Rightarrow> [] | Some g \<Rightarrow> org_slug env g),
      as_action = ac_hash ac, as_implementation = str_of_nat (fst im), as_token = token\<rparr>"

text \<open>Mint the token of a stored task and hand the message to its agent's transport.\<close>

definition dispatch_task ::
  "rekuest_env \<Rightarrow> caller_context \<Rightarrow> nat \<Rightarrow> bool \<Rightarrow> nat \<times> implementation \<Rightarrow> action \<Rightarrow> world \<Rightarrow> unit outcome \<times> world"
where
  "dispatch_task env ctx i capture im ac w =
     (case t_get (w_tasks w) i of
        None \<Rightarrow> (Inl (DoesNotExist ''Task''), w)
      | Some t \<Rightarrow>
          and_then (mint_token_for_task env i t ctx w)
            (\<lambda>token w1. let (mid, w2) = fresh_uuid env w1 in
               broadcast_to env (tk_agent t)
                 (Assign (assign_message env mid i (tk_args t) ctx (tk_reference t) capture im ac token)) w2))"

text \<open>
  The loop over the hooks after the broadcast: an INIT hook builds an \<^verbatim>\<open>AssignInputModel\<close> whose
  parent is an int, which the string field refuses. No run reaches it with a hook, see
  \<^const>\<open>create_task\<close>.
\<close>

fun run_init_hooks :: "hook_input list \<Rightarrow> unit outcome" where
  "run_init_hooks [] = Inr ()"
| "run_init_hooks (h # hs) =
     (if hk_kind h = HOOK_INIT then Inl (ValidationError ''parent'') else run_init_hooks hs)"

section \<open>Higher-order assignment\<close>

text \<open>The wrapper's row; the dependency columns are left at their defaults.\<close>

definition wrapper_task ::
  "rekuest_env \<Rightarrow> nat \<times> implementation \<Rightarrow> assign_input \<Rightarrow> string list \<Rightarrow> string \<Rightarrow> json dict \<Rightarrow> nat
   \<Rightarrow> world \<Rightarrow> nat option \<Rightarrow> task"
where
  "wrapper_task env higher input acted reference deps caller_id w parent =
     (new_task env \<lparr>tg_action = im_action (snd higher), tg_implementation = fst higher,
                    tg_agent = im_agent (snd higher), tg_dependency_dict = None\<rparr>
        input acted reference deps caller_id w parent)
       \<lparr>tk_dependency := Some ''general'', tk_dependency_method := None\<rparr>"

text \<open>The child's row under wrapper \<open>h\<close>, which is its parent and its root.\<close>

definition lower_task ::
  "rekuest_env \<Rightarrow> nat \<times> implementation \<Rightarrow> json dict \<Rightarrow> string list \<Rightarrow> string \<Rightarrow> json dict \<Rightarrow> nat \<Rightarrow> nat
   \<Rightarrow> world \<Rightarrow> task"
where
  "lower_task env lower args acted reference deps caller_id h w =
     \<lparr>tk_acted_on = acted, tk_implementation = Some (fst lower), tk_resolution = None,
      tk_action = im_action (snd lower), tk_ephemeral = False, tk_hooks = [],
      tk_reference = reference, tk_dependency = Some ''general'', tk_dependency_method = None,
      tk_capture = False, tk_parent = Some h, tk_root = Some h, tk_args = args,
      tk_args_hash = Some (args_hash env args), tk_dependencies = deps, tk_caller = Some caller_id,
      tk_agent = im_agent (snd lower), tk_latest_event_kind = STARTED,
      tk_latest_instruct_kind = I_ASSIGN, tk_is_done = False, tk_created_at = now w,
      tk_finished_at = None\<rparr>"

definition start_lower ::
  "rekuest_env \<Rightarrow> caller_context \<Rightarrow> nat \<times> implementation \<Rightarrow> action \<Rightarrow> json dict \<Rightarrow> json dict \<Rightarrow> nat
   \<Rightarrow> nat \<Rightarrow> world \<Rightarrow> nat outcome \<times> world"
where
  "start_lower env ctx lower lower_action args deps caller_id h w0 =
     (let (reference, w) = fresh_uuid env w0 in
      case acted_on_from_args args lower_action of
        Inl e \<Rightarrow> (Inl e, w)
      | Inr acted \<Rightarrow>
          (let (c, w1) = insert_task (lower_task env lower args acted reference deps caller_id h w) w in
           and_then (dispatch_task env ctx c False lower lower_action w1) (\<lambda>_ w2. (Inr h, w2))))"

text \<open>The projections, in the order of the code: dependencies of the wrapper, arguments, dependencies.\<close>

definition project_inputs ::
  "rekuest_env \<Rightarrow> caller_context \<Rightarrow> assign_input \<Rightarrow> nat \<times> implementation \<Rightarrow> world
   \<Rightarrow> (json dict \<times> json dict \<times> json dict) outcome"
where
  "project_inputs env ctx input higher w =
     (case build_dependency_dict env (fst higher) ctx
             (case ai_dependencies input of None \<Rightarrow> [] | Some ds \<Rightarrow> ds) w of
        Inl e \<Rightarrow> Inl e
      | Inr higher_deps \<Rightarrow>
          (case build_lower_args (im_higher_order_config (snd higher)) (ai_args input) of
             Inl e \<Rightarrow> Inl e
           | Inr lower_args \<Rightarrow>
               (case build_lower_dependencies (im_higher_order_config (snd higher)) higher_deps of
                  Inl e \<Rightarrow> Inl e
                | Inr lower_deps \<Rightarrow> Inr (higher_deps, lower_args, lower_deps))))"

definition start_wrapper ::
  "rekuest_env \<Rightarrow> caller_context \<Rightarrow> assign_input \<Rightarrow> nat \<times> implementation \<Rightarrow> action \<Rightarrow> nat \<times> implementation
   \<Rightarrow> action \<Rightarrow> nat \<Rightarrow> world \<Rightarrow> nat outcome \<times> world"
where
  "start_wrapper env ctx input higher higher_action lower lower_action caller_id w =
     (case project_inputs env ctx input higher w of
        Inl e \<Rightarrow> (Inl e, w)
      | Inr (higher_deps, lower_args, lower_deps) \<Rightarrow>
          (let (reference, w1) = reference_or_fresh env (ai_reference input) w in
           case acted_on_from_args (ai_args input) higher_action of
             Inl e \<Rightarrow> (Inl e, w1)
           | Inr acted \<Rightarrow>
               and_then (create_task (ai_parent input)
                   (case ai_hooks input of None \<Rightarrow> [] | Some hs \<Rightarrow> hs)
                   (wrapper_task env higher input acted reference higher_deps caller_id w1) w1)
                 (start_lower env ctx lower lower_action lower_args lower_deps caller_id)))"

definition assign_higher_order ::
  "rekuest_env \<Rightarrow> caller_context \<Rightarrow> assign_input \<Rightarrow> nat \<times> implementation \<Rightarrow> nat \<Rightarrow> world
   \<Rightarrow> nat outcome \<times> world"
where
  "assign_higher_order env ctx input higher caller_id w =
     (case (Option.bind (im_higher_order_for (snd higher))
              (\<lambda>l. map_option (Pair l) (t_get (w_implementations w) l)),
            t_get (w_actions w) (im_action (snd higher))) of
        (Some (l, lower), Some higher_action) \<Rightarrow>
          (case (t_get (w_agents w) (im_agent lower), t_get (w_actions w) (im_action lower)) of
             (Some lower_agent, Some lower_action) \<Rightarrow>
               (if \<not> agent_is_available env (now w) lower_agent then
                  (Inl (ValueError ''Agent for lower implementation is not available''), w)
                else start_wrapper env ctx input higher higher_action (l, lower) lower_action caller_id w)
           | _ \<Rightarrow> (Inl (DoesNotExist ''Implementation''), w))
      | _ \<Rightarrow> (Inl (DoesNotExist ''Implementation''), w))"

section \<open>Assignment\<close>

definition start_task ::
  "rekuest_env \<Rightarrow> caller_context \<Rightarrow> assign_input \<Rightarrow> target \<Rightarrow> implementation \<Rightarrow> action \<Rightarrow> nat \<Rightarrow> world
   \<Rightarrow> nat outcome \<times> world"
where
  "start_task env ctx input tg im ac caller_id w =
     (case acted_on_from_args (ai_args input) ac of
        Inl e \<Rightarrow> (Inl e, w)
      | Inr acted \<Rightarrow>
          (let (reference, w1) = reference_or_fresh env (ai_reference input) w;
               hooks = (case ai_hooks input of None \<Rightarrow> [] | Some hs \<Rightarrow> hs) in
           case (case tg_dependency_dict tg of
                   Some d \<Rightarrow> Inr d
                 | None \<Rightarrow> build_dependency_dict env (tg_implementation tg) ctx
                     (case ai_dependencies input of None \<Rightarrow> [] | Some ds \<Rightarrow> ds) w1) of
             Inl e \<Rightarrow> (Inl e, w1)
           | Inr deps \<Rightarrow>
               and_then (create_task (ai_parent input) hooks
                          (new_task env tg input acted reference deps caller_id w1) w1) (\<lambda>i w2.
               and_then (dispatch_task env ctx i (default_bool (ai_capture input))
                          (tg_implementation tg, im) ac w2) (\<lambda>_ w3.
                 case run_init_hooks hooks of Inl e \<Rightarrow> (Inl e, w3) | Inr _ \<Rightarrow> (Inr i, w3)))))"

definition assign :: "rekuest_env \<Rightarrow> caller_context \<Rightarrow> assign_input \<Rightarrow> world \<Rightarrow> nat outcome \<times> world" where
  "assign env ctx input w0 =
     (case cx_organization ctx of
        None \<Rightarrow> (Inl (ValueError ''Cannot assign without an organization''), w0)
      | Some organization \<Rightarrow>
          and_then (get_caller_for_context ctx w0) (\<lambda>caller_id w1.
          and_then (resolve_target env organization input w1) (\<lambda>tg w.
            case (t_get (w_implementations w) (tg_implementation tg), t_get (w_actions w) (tg_action tg)) of
              (Some im, Some ac) \<Rightarrow>
                (if im_higher_order_for im \<noteq> None
                 then assign_higher_order env ctx input (tg_implementation tg, im) caller_id w
                 else start_task env ctx input tg im ac caller_id w)
            | _ \<Rightarrow> (Inl (DoesNotExist ''Action''), w))))"

section \<open>Agent controls\<close>

definition bounce_agent :: "rekuest_env \<Rightarrow> bounce_input \<Rightarrow> world \<Rightarrow> nat outcome \<times> world" where
  "bounce_agent env input w =
     (case t_get_wire ''Agent'' (w_agents w) (bni_agent input) of
        Inl e \<Rightarrow> (Inl e, w)
      | Inr (i, a) \<Rightarrow>
          (let (mid, w1) = fresh_uuid env w in
           and_then (broadcast_to env i (Bounce \<lparr>msg_id = mid, bo_duration = None\<rparr>) w1) (\<lambda>_ w2. (Inr i, w2))))"

definition block_agent :: "rekuest_env \<Rightarrow> block_input \<Rightarrow> world \<Rightarrow> nat outcome \<times> world" where
  "block_agent env input w =
     (case t_get_wire ''Agent'' (w_agents w) (bki_agent input) of
        Inl e \<Rightarrow> (Inl e, w)
      | Inr (i, a) \<Rightarrow>
          (let w1 = save_agent i (\<lambda>_. a\<lparr>ag_blocked := True\<rparr>) w; (mid, w2) = fresh_uuid env w1 in
           and_then (broadcast_to env i (Kick \<lparr>msg_id = mid, ki_reason = bki_reason input\<rparr>) w2)
             (\<lambda>_ w3. (Inr i, w3))))"

definition unblock_agent :: "unblock_input \<Rightarrow> world \<Rightarrow> nat outcome \<times> world" where
  "unblock_agent input w =
     (case t_get_wire ''Agent'' (w_agents w) (ubi_agent input) of
        Inl e \<Rightarrow> (Inl e, w)
      | Inr (i, a) \<Rightarrow> (Inr i, save_agent i (\<lambda>_. a\<lparr>ag_blocked := False\<rparr>) w))"

text \<open>The reason of a kick input is not sent.\<close>

definition kick_agent :: "rekuest_env \<Rightarrow> kick_input \<Rightarrow> world \<Rightarrow> nat outcome \<times> world" where
  "kick_agent env input w =
     (case t_get_wire ''Agent'' (w_agents w) (kki_agent input) of
        Inl e \<Rightarrow> (Inl e, w)
      | Inr (i, a) \<Rightarrow>
          (let (mid, w1) = fresh_uuid env w in
           and_then (broadcast_to env i (Kick \<lparr>msg_id = mid, ki_reason = None\<rparr>) w1) (\<lambda>_ w2. (Inr i, w2))))"

text \<open>
  Drawers are grouped by the agent of their shelve, in the order the agents first appear; the set
  of a group's drawers is listed in row order.
\<close>

fun collect_each :: "rekuest_env \<Rightarrow> (nat \<times> nat) list \<Rightarrow> nat list \<Rightarrow> world \<Rightarrow> unit outcome \<times> world" where
  "collect_each env owned [] w = (Inr (), w)"
| "collect_each env owned (a # as) w =
     (let (mid, w1) = fresh_uuid env w in
      and_then (broadcast_to env a (Collect \<lparr>msg_id = mid,
            co_drawers = map (\<lambda>(i, _). str_of_nat i) (filter (\<lambda>(i, b). b = a) owned)\<rparr>) w1)
        (\<lambda>_. collect_each env owned as))"

definition collect_drawers :: "rekuest_env \<Rightarrow> collect_input \<Rightarrow> world \<Rightarrow> string list outcome \<times> world" where
  "collect_drawers env input w =
     (case wire_keys (cli_drawers input) of
        Inl e \<Rightarrow> (Inl e, w)
      | Inr keys \<Rightarrow>
          (let owned = List.map_filter
                 (\<lambda>(i, d). if int i \<in> set keys then
                     map_option (\<lambda>s. (i, sh_agent s)) (t_get (w_shelves w) (dr_shelve d)) else None)
                 (rows (w_drawers w)) in
           and_then (collect_each env owned (remdups (map snd owned)) w)
             (\<lambda>_ w1. (Inr (cli_drawers input), w1))))"

end
