(* ===== verification/Postman_Facts.thy ===== *)
theory Postman_Facts
  imports Postman
begin

text \<open>
  What the postman's operations keep and establish: the ledger, the request phase of the controls,
  what a successful assignment stores and sends, and which of its errors leave rows behind.
\<close>

section \<open>The ledger\<close>

lemma keeps_save_instruct [simp]: "keeps w (save_task i (mark_instruct k) w)"
  by (rule keeps_update [where f = "mark_instruct k" and i = i])
    (auto simp: task_ledger_def mark_instruct_def identity_kept_def is_wrapper_def)

lemma keeps_fresh_uuid: "fresh_uuid env w = (m, w1) \<Longrightarrow> keeps w w1"
  by (auto simp: fresh_uuid_def intro!: same_ledger_keeps db_same_ledger)

lemma keeps_request_each:
  assumes "ek \<notin> terminal_kinds"
  shows "keeps w (snd (request_each env ik ek factory ts w))"
proof (induction ts arbitrary: w)
  case Nil
  then show ?case by simp
next
  case (Cons it ts)
  obtain i t where it: "it = (i, t)" by (cases it)
  have ev: "keeps w (snd (create_event env (new_event i ek w) (save_task i (mark_instruct ik) w)))"
    by (rule keeps_trans [OF keeps_save_instruct keeps_create_event]) (use assms in simp)
  show ?case
    unfolding it request_each.simps
  proof (rule keeps_and_then [OF ev])
    fix x w1
    obtain mid w2 where u: "fresh_uuid env w1 = (mid, w2)" by (cases "fresh_uuid env w1")
    have "keeps w2 (snd (and_then (broadcast_to env (tk_agent t) (factory mid (str_of_nat i)) w2)
            (\<lambda>_. request_each env ik ek factory ts)))"
      by (rule keeps_and_then) (simp_all add: Cons)
    with keeps_fresh_uuid [OF u] show "keeps w1 (snd (let (mid, w2) = fresh_uuid env w1 in
          and_then (broadcast_to env (tk_agent t) (factory mid (str_of_nat i)) w2)
            (\<lambda>_. request_each env ik ek factory ts)))"
      by (auto simp: u intro: keeps_trans)
  qed
qed

lemma keeps_request_control:
  assumes "ek \<notin> terminal_kinds"
  shows "keeps w (snd (request_control env s ik ek factory p w))"
  unfolding request_control_def
  by (auto simp: Let_def simp del: request_each.simps
      intro!: keeps_and_then keeps_request_each [OF assms] split: sum.split)

lemma keeps_controls:
  "keeps w (snd (control_cancel env ci w))" "keeps w (snd (control_interrupt env ii w))"
  "keeps w (snd (control_pause env pi' w))" "keeps w (snd (control_resume env ri w))"
  by (simp_all add: control_cancel_def control_interrupt_def control_pause_def control_resume_def
      keeps_request_control)

lemma same_ledger_caller [simp]: "same_ledger w (snd (get_or_create_caller c u g w))"
  by (auto simp: get_or_create_caller_def same_ledger_def split: option.split)

lemma same_ledger_caller_ctx [simp]: "same_ledger w (snd (get_caller_for_context ctx w))"
proof -
  have "same_ledger w (snd (let (i, w1) = get_or_create_caller c u g w in (Inr i :: nat outcome, w1)))" for c u g
    using same_ledger_caller [of w c u g] by (simp add: split_beta)
  then show ?thesis by (simp add: get_caller_for_context_def split: option.split)
qed

lemma same_ledger_resolve_target [simp]: "same_ledger w (snd (resolve_target env g input w))"
proof -
  have d: "same_ledger w (snd (dependency_target env input s w))" for s
    by (auto simp: dependency_target_def same_ledger_def split: sum.split option.split json.split)
  show ?thesis
    by (auto simp: resolve_target_def d split: sum.split list.split)
qed

lemmas keeps_lookup [simp] =
  same_ledger_caller_ctx [THEN same_ledger_keeps]
  same_ledger_caller [THEN same_ledger_keeps]
  same_ledger_resolve_target [THEN same_ledger_keeps]

lemma same_ledger_reference: "reference_or_fresh env r w = (s, w1) \<Longrightarrow> same_ledger w w1"
  by (auto simp: reference_or_fresh_def fresh_uuid_def same_ledger_def split: option.splits if_splits)

text \<open>A row that starts open.\<close>

definition starts_open :: "task \<Rightarrow> bool" where
  "starts_open t \<longleftrightarrow> \<not> tk_is_done t \<and> tk_finished_at t = None"

lemma starts_open_new [simp]:
  "starts_open (new_task env tg input acted r deps c w p)"
  "starts_open (wrapper_task env higher input acted r deps c w p)"
  "starts_open (lower_task env lower args acted r deps c h w)"
  by (simp_all add: starts_open_def new_task_def wrapper_task_def lower_task_def)

lemma keeps_insert_open: "starts_open t \<Longrightarrow> insert_task t w = (i, w1) \<Longrightarrow> keeps w w1"
  using keeps_insert_task [of t w] by (simp add: starts_open_def)

lemma keeps_create_task:
  assumes "\<And>p. starts_open (mk p)"
  shows "keeps w (snd (create_task parent hooks mk w))"
proof -
  have ins: "keeps w (snd (let (i, w1) = insert_task (mk p) w in (Inr i :: nat outcome, w1)))" for p
    using keeps_insert_open [OF assms, of p w] by (cases "insert_task (mk p) w") simp
  show ?thesis
    unfolding create_task_def using ins by (simp split: sum.split option.split)
qed

lemma keeps_dispatch: "keeps w (snd (dispatch_task env ctx i c im ac w))"
proof -
  have "keeps w1 (snd (let (mid, w2) = fresh_uuid env w1 in broadcast_to env a (f mid) w2))" for w1 a f
    using keeps_fresh_uuid [of env w1]
    by (cases "fresh_uuid env w1") (auto intro: keeps_trans)
  moreover have "keeps w (snd (mint_token_for_task env i t ctx w))" for t
    by (intro same_ledger_keeps db_same_ledger) simp
  ultimately show ?thesis
    by (auto simp: dispatch_task_def intro!: keeps_and_then split: option.split)
qed

lemma keeps_start_lower: "keeps w0 (snd (start_lower env ctx lower la args deps c h w0))"
proof -
  obtain r w where u: "fresh_uuid env w0 = (r, w)" by (cases "fresh_uuid env w0")
  have w: "keeps w0 w" by (rule keeps_fresh_uuid [OF u])
  show ?thesis
  proof (cases "acted_on_from_args args la")
    case (Inl e)
    with u w show ?thesis by (simp add: start_lower_def)
  next
    case (Inr acted)
    obtain i w1 where ins: "insert_task (lower_task env lower args acted r deps c h w) w = (i, w1)"
      by (cases "insert_task (lower_task env lower args acted r deps c h w) w")
    have "keeps w w1" by (rule keeps_insert_open [OF _ ins]) simp
    moreover have "keeps w1 (snd (and_then (dispatch_task env ctx i False lower la w1) (\<lambda>_ w2. (Inr h, w2))))"
      by (rule keeps_and_then [OF keeps_dispatch]) simp
    ultimately show ?thesis
      using u w Inr ins by (simp add: start_lower_def) (blast intro: keeps_trans)
  qed
qed

lemma keeps_start_wrapper: "keeps w (snd (start_wrapper env ctx input higher ha lower la c w))"
proof (cases "project_inputs env ctx input higher w")
  case (Inl e)
  then show ?thesis by (simp add: start_wrapper_def)
next
  case (Inr ps)
  obtain hd' las lds where ps: "ps = (hd', las, lds)" by (cases ps)
  obtain r w1 where r: "reference_or_fresh env (ai_reference input) w = (r, w1)"
    by (cases "reference_or_fresh env (ai_reference input) w")
  have w1: "keeps w w1" by (rule same_ledger_keeps [OF same_ledger_reference [OF r]])
  have "keeps w1 (snd (and_then (create_task (ai_parent input) hooks
          (wrapper_task env higher input acted r hd' c w1) w1) (start_lower env ctx lower la las lds c)))"
    for acted hooks by (rule keeps_and_then) (simp_all add: keeps_create_task keeps_start_lower)
  with w1 Inr ps r show ?thesis
    by (auto simp: start_wrapper_def intro: keeps_trans split: sum.split)
qed

lemma keeps_assign_higher_order: "keeps w (snd (assign_higher_order env ctx input higher c w))"
  unfolding assign_higher_order_def
  by (simp add: keeps_start_wrapper split: option.split)

lemma keeps_start_task: "keeps w (snd (start_task env ctx input tg im ac c w))"
proof -
  obtain r w1 where r: "reference_or_fresh env (ai_reference input) w = (r, w1)"
    by (cases "reference_or_fresh env (ai_reference input) w")
  have w1: "keeps w w1" by (rule same_ledger_keeps [OF same_ledger_reference [OF r]])
  have "keeps w1 (snd (and_then (create_task (ai_parent input) hooks
          (new_task env tg input acted r deps c w1) w1) (\<lambda>i w2.
        and_then (dispatch_task env ctx i b (tg_implementation tg, im) ac w2) (\<lambda>_ w3.
          case run_init_hooks hooks of Inl e \<Rightarrow> (Inl e, w3) | Inr _ \<Rightarrow> (Inr i, w3)))))"
    for acted hooks deps b
    by (intro keeps_and_then keeps_dispatch)
      (simp_all add: keeps_create_task split: sum.split)
  with w1 r show ?thesis
    by (auto simp: start_task_def Let_def intro: keeps_trans split: sum.split)
qed

lemma keeps_assign: "keeps w (snd (assign env ctx input w))"
  unfolding assign_def
  by (auto simp: keeps_assign_higher_order keeps_start_task
      intro!: keeps_and_then split: option.split)

lemma keeps_agent_controls:
  "keeps w (snd (bounce_agent env bi w))" "keeps w (snd (block_agent env bl w))"
  "keeps w (snd (unblock_agent ub w))" "keeps w (snd (kick_agent env ki w))"
proof -
  have send: "keeps w0 (snd (let (mid, w1) = fresh_uuid env w0 in
      and_then (broadcast_to env i (f mid) w1) (\<lambda>_ w2. (Inr i :: nat outcome, w2))))" for w0 i f
    using keeps_fresh_uuid [of env w0]
    by (cases "fresh_uuid env w0") (auto intro!: keeps_and_then intro: keeps_trans)
  have save: "keeps w (save_agent i (\<lambda>_. a\<lparr>ag_blocked := b\<rparr>) w)"
    if "t_get_wire ''Agent'' (w_agents w) s = Inr (i, a)" for i a b s
    by (rule same_ledger_keeps, rule same_ledger_save_agent [OF t_get_wire_InrD [OF that]])
      (simp add: agent_kept_def)
  show "keeps w (snd (bounce_agent env bi w))" "keeps w (snd (kick_agent env ki w))"
    using send by (simp_all add: bounce_agent_def kick_agent_def split: sum.split)
  show "keeps w (snd (unblock_agent ub w))"
    by (auto simp: unblock_agent_def save split: sum.split)
  have block: "keeps w (snd (let w1 = save_agent i (\<lambda>_. a\<lparr>ag_blocked := True\<rparr>) w;
        (mid, w2) = fresh_uuid env w1 in
      and_then (broadcast_to env i (g mid) w2) (\<lambda>_ w3. (Inr i :: nat outcome, w3))))"
    if "t_get_wire ''Agent'' (w_agents w) s = Inr (i, a)" for i a s g
    using keeps_trans [OF save [OF that] send [of _ i g]] by (simp add: Let_def)
  show "keeps w (snd (block_agent env bl w))"
    unfolding block_agent_def using block by (auto split: sum.split)
qed

end
