(* ===== verification/Caller_Ops.thy ===== *)
theory Caller_Ops
  imports Postman_Facts
begin

text \<open>
  The caller side of \<^verbatim>\<open>facade/persist_backend.py\<close>: dependent assignment and lifecycle control over
  an agent's socket, the escalation of an unconfirmed cancel, and the timers that run the reconciles.
\<close>

section \<open>Identity\<close>

definition get_or_create_caller_id :: "nat \<Rightarrow> world \<Rightarrow> string outcome \<times> world" where
  "get_or_create_caller_id agent_id w =
     (case t_get (w_agents w) agent_id of
        None \<Rightarrow> (Inl (DoesNotExist ''Agent''), w)
      | Some a \<Rightarrow>
          (let (c, w1) = get_or_create_caller (ag_client a) (ag_user a) (ag_organization a) w in
           (Inr (str_of_nat c), w1)))"

section \<open>Dependent assignment\<close>

definition hook_kind_of :: "json option \<Rightarrow> hook_kind option" where
  "hook_kind_of j =
     (if j = Some (JStr ''INIT'') then Some HOOK_INIT
      else if j = Some (JStr ''CLEANUP'') then Some HOOK_CLEANUP else None)"

text \<open>\<^verbatim>\<open>[inputs.HookInputModel(**h) for h in message.hooks]\<close>\<close>

fun parse_hooks :: "json dict list \<Rightarrow> hook_input list outcome" where
  "parse_hooks [] = Inr []"
| "parse_hooks (h # hs) =
     (case (hook_kind_of (dict_get h ''kind''), dict_get h ''hash'') of
        (Some k, Some (JStr s)) \<Rightarrow>
          (case parse_hooks hs of Inl e \<Rightarrow> Inl e | Inr r \<Rightarrow> Inr (\<lparr>hk_kind = k, hk_hash = s\<rparr> # r))
      | _ \<Rightarrow> Inl (ValidationError ''HookInputModel''))"

definition message_hooks :: "json dict list option \<Rightarrow> hook_input list option outcome" where
  "message_hooks hs =
     (case hs of
        None \<Rightarrow> Inr None
      | Some [] \<Rightarrow> Inr None
      | Some (h # hs) \<Rightarrow> (case parse_hooks (h # hs) of Inl e \<Rightarrow> Inl e | Inr r \<Rightarrow> Inr (Some r)))"

definition request_input :: "assign_request \<Rightarrow> hook_input list option \<Rightarrow> assign_input" where
  "request_input m hooks =
     \<lparr>ai_action = aqr_action m, ai_dependency = aqr_dependency m, ai_resolution = aqr_resolution m,
      ai_implementation = aqr_implementation m, ai_agent = aqr_agent m,
      ai_action_hash = aqr_action_hash m, ai_method = aqr_method m, ai_interface = aqr_interface m,
      ai_hooks = hooks, ai_args = aqr_args m, ai_reference = Some (aqr_reference m),
      ai_parent = aqr_parent m, ai_cached = None, ai_log = None, ai_capture = aqr_capture m,
      ai_ephemeral = aqr_ephemeral m, ai_dependencies = None, ai_is_hook = None, ai_step = aqr_step m,
      ai_policy = None\<rparr>"

definition existing_task :: "nat \<Rightarrow> string \<Rightarrow> world \<Rightarrow> (nat \<times> task) option" where
  "existing_task c reference w =
     t_first (\<lambda>t. tk_caller t = Some c \<and> tk_reference t = reference) (w_tasks w)"

definition caller_assign_sync ::
  "rekuest_env \<Rightarrow> nat \<Rightarrow> assign_request \<Rightarrow> world \<Rightarrow> (nat \<times> bool) outcome \<times> world"
where
  "caller_assign_sync env agent_id m w0 =
     (case t_get (w_agents w0) agent_id of
        None \<Rightarrow> (Inl (DoesNotExist ''Agent''), w0)
      | Some a \<Rightarrow>
          (let (c, w) = get_or_create_caller (ag_client a) (ag_user a) (ag_organization a) w0 in
           case existing_task c (aqr_reference m) w of
             Some (i, _) \<Rightarrow> (Inr (i, False), w)
           | None \<Rightarrow>
               (if aqr_parent m = None then
                  (Inl (PermissionError ''An agent may only assign dependent work''), w)
                else case message_hooks (aqr_hooks m) of
                       Inl e \<Rightarrow> (Inl e, w)
                     | Inr hooks \<Rightarrow>
                         and_then
                           (assign env (ctx_from_agent a (roles_for_caller env (t_get (w_callers w) c)))
                              (request_input m hooks) w)
                           (\<lambda>i w1. (Inr (i, True), w1)))))"

definition on_caller_assign ::
  "rekuest_env \<Rightarrow> nat \<Rightarrow> assign_request \<Rightarrow> world \<Rightarrow> (nat \<times> bool) outcome \<times> world"
where
  "on_caller_assign = caller_assign_sync"

section \<open>Lifecycle control\<close>

datatype control_op = Op_cancel | Op_interrupt | Op_pause | Op_resume bool

fun run_control :: "rekuest_env \<Rightarrow> control_op \<Rightarrow> string \<Rightarrow> world \<Rightarrow> nat outcome \<times> world" where
  "run_control env Op_cancel s = control_cancel env \<lparr>cni_task = s\<rparr>"
| "run_control env Op_interrupt s = control_interrupt env \<lparr>iti_task = s\<rparr>"
| "run_control env Op_pause s = control_pause env \<lparr>psi_task = s\<rparr>"
| "run_control env (Op_resume step) s = control_resume env \<lparr>rsi_task = s, rsi_step = step\<rparr>"

definition caller_control_sync ::
  "rekuest_env \<Rightarrow> nat \<Rightarrow> string \<Rightarrow> control_op \<Rightarrow> world \<Rightarrow> nat outcome \<times> world"
where
  "caller_control_sync env agent_id task_id op' w0 =
     (case t_get (w_agents w0) agent_id of
        None \<Rightarrow> (Inl (DoesNotExist ''Agent''), w0)
      | Some a \<Rightarrow>
          (let (c, w) = get_or_create_caller (ag_client a) (ag_user a) (ag_organization a) w0 in
           case t_get_wire ''Task'' (w_tasks w) task_id of
             Inl e \<Rightarrow> (Inl e, w)
           | Inr (i, t) \<Rightarrow>
               (if tk_caller t \<noteq> Some c then (Inl (PermissionError ''Not authorized to control this task''), w)
                else run_control env op' task_id w)))"

definition on_caller_cancel :: "rekuest_env \<Rightarrow> nat \<Rightarrow> cancel_request \<Rightarrow> world \<Rightarrow> nat outcome \<times> world" where
  "on_caller_cancel env agent_id m w =
     and_then (caller_control_sync env agent_id (ctl_task m) Op_cancel w)
       (\<lambda>i w1. (Inr i,
          case cnr_auto_interrupt m of
            None \<Rightarrow> w1
          | Some s \<Rightarrow> w1\<lparr>auto_interrupt := gs_schedule (now w1) (ctl_task m) (s * 1000000)
                          (Escalate (ctl_task m)) (auto_interrupt w1)\<rparr>))"

definition on_caller_interrupt :: "rekuest_env \<Rightarrow> nat \<Rightarrow> interrupt_request \<Rightarrow> world \<Rightarrow> nat outcome \<times> world" where
  "on_caller_interrupt env agent_id m = caller_control_sync env agent_id (ctl_task m) Op_interrupt"

definition on_caller_pause :: "rekuest_env \<Rightarrow> nat \<Rightarrow> pause_request \<Rightarrow> world \<Rightarrow> nat outcome \<times> world" where
  "on_caller_pause env agent_id m = caller_control_sync env agent_id (ctl_task m) Op_pause"

definition on_caller_resume :: "rekuest_env \<Rightarrow> nat \<Rightarrow> resume_request \<Rightarrow> world \<Rightarrow> nat outcome \<times> world" where
  "on_caller_resume env agent_id m = caller_control_sync env agent_id (ctl_task m) (Op_resume (rsr_step m))"

definition escalate_to_interrupt :: "rekuest_env \<Rightarrow> string \<Rightarrow> world \<Rightarrow> unit outcome \<times> world" where
  "escalate_to_interrupt env task_id w =
     (case t_get_wire ''Task'' (w_tasks w) task_id of
        Inl (DoesNotExist _) \<Rightarrow> (Inr (), w)
      | Inl e \<Rightarrow> (Inl e, w)
      | Inr (i, t) \<Rightarrow>
          (if tk_is_done t then (Inr (), w)
           else and_then (control_interrupt env \<lparr>iti_task = task_id\<rparr> w) (\<lambda>_ w1. (Inr (), w1))))"

section \<open>Timers\<close>

fun run_timer_action :: "rekuest_env \<Rightarrow> timer_action \<Rightarrow> world \<Rightarrow> unit outcome \<times> world" where
  "run_timer_action env (Reconcile_orphans i) w = reconcile_orphaned_executor_work env i w"
| "run_timer_action env (Reconcile_silent s) w = reconcile_silent_physical_op env s w"
| "run_timer_action env (Escalate s) w = escalate_to_interrupt env s w"

end
