(* ===== verification/Message_Router.thy ===== *)
theory Message_Router
  imports Caller_Ops
begin

text \<open>
  \<^verbatim>\<open>facade/message_router.py\<close>: the routing of an agent's message to its handler, shared by the
  websocket and the webhook transport, and the reply it returns; and \<^verbatim>\<open>facade/http_intake.py\<close>, the
  webhook transport itself.
\<close>

definition ack :: "rekuest_env \<Rightarrow> 'a from_agent_event_scheme \<Rightarrow> string option \<Rightarrow> world \<Rightarrow> to_agent_message \<times> world" where
  "ack env m task w =
     (let (mid, w1) = fresh_uuid env w in
      (EventAck \<lparr>msg_id = mid, ea_event = msg_id m, ea_task = task, ea_seq = fae_seq m\<rparr>, w1))"

text \<open>Run a handler, then acknowledge its message; an exception passes through.\<close>

definition acked ::
  "rekuest_env \<Rightarrow> 'a from_agent_event_scheme \<Rightarrow> string \<Rightarrow> unit outcome \<times> world
   \<Rightarrow> to_agent_message option outcome \<times> world"
where
  "acked env m task r = and_then r (\<lambda>_ w. let (reply, w1) = ack env m (Some task) w in (Inr (Some reply), w1))"

definition unacked :: "unit outcome \<times> world \<Rightarrow> to_agent_message option outcome \<times> world" where
  "unacked r = and_then r (\<lambda>_ w. (Inr None, w))"

text \<open>\<^verbatim>\<open>_control\<close>: any exception is a negative reply.\<close>

definition control_reply ::
  "rekuest_env \<Rightarrow> 'a control_request_scheme \<Rightarrow> nat outcome \<times> world \<Rightarrow> to_agent_message option outcome \<times> world"
where
  "control_reply env m r =
     (let (res, w) = r; (mid, w1) = fresh_uuid env w in
      case res of
        Inl e \<Rightarrow> (Inr (Some (ControlResponse \<lparr>msg_id = mid, cr_request = msg_id m,
                    cr_task = Some (ctl_task m), cr_accepted = False, cr_error = Some e\<rparr>)), w1)
      | Inr i \<Rightarrow> (Inr (Some (ControlResponse \<lparr>msg_id = mid, cr_request = msg_id m,
                    cr_task = Some (str_of_nat i), cr_accepted = True, cr_error = None\<rparr>)), w1))"

definition assign_reply ::
  "rekuest_env \<Rightarrow> assign_request \<Rightarrow> (nat \<times> bool) outcome \<times> world \<Rightarrow> to_agent_message option outcome \<times> world"
where
  "assign_reply env m r =
     (let (res, w) = r; (mid, w1) = fresh_uuid env w in
      case res of
        Inl e \<Rightarrow> (Inr (Some (AssignResponse \<lparr>msg_id = mid, ar_request = msg_id m,
                    ar_reference = aqr_reference m, ar_task = None, ar_created = False,
                    ar_error = Some e\<rparr>)), w1)
      | Inr (i, created) \<Rightarrow> (Inr (Some (AssignResponse \<lparr>msg_id = mid, ar_request = msg_id m,
                    ar_reference = aqr_reference m, ar_task = Some (str_of_nat i),
                    ar_created = created, ar_error = None\<rparr>)), w1))"

fun route_from_agent_message ::
  "rekuest_env \<Rightarrow> nat \<Rightarrow> from_agent_message \<Rightarrow> world \<Rightarrow> to_agent_message option outcome \<times> world"
where
  "route_from_agent_message env a (AssignRequest m) w = assign_reply env m (on_caller_assign env a m w)"
| "route_from_agent_message env a (CancelRequest m) w = control_reply env m (on_caller_cancel env a m w)"
| "route_from_agent_message env a (InterruptRequest m) w = control_reply env m (on_caller_interrupt env a m w)"
| "route_from_agent_message env a (PauseRequest m) w = control_reply env m (on_caller_pause env a m w)"
| "route_from_agent_message env a (ResumeRequest m) w = control_reply env m (on_caller_resume env a m w)"
| "route_from_agent_message env a (Started m) w = acked env m (started_task m) (on_agent_started env a m w)"
| "route_from_agent_message env a (Cancelled m) w = acked env m (cancelled_task m) (on_agent_cancelled env a m w)"
| "route_from_agent_message env a (Interrupted m) w =
     acked env m (interrupted_task m) (on_agent_interrupted env a m w)"
| "route_from_agent_message env a (Paused m) w = acked env m (paused_task m) (on_agent_paused env a m w)"
| "route_from_agent_message env a (Resumed m) w = acked env m (resumed_task m) (on_agent_resumed env a m w)"
| "route_from_agent_message env a (Yield m) w = unacked (on_agent_yield env a m w)"
| "route_from_agent_message env a (Log m) w = unacked (on_agent_log env a m w)"
| "route_from_agent_message env a (Progress m) w = unacked (on_agent_progress env a m w)"
| "route_from_agent_message env a (Completed m) w = acked env m (completed_task m) (on_agent_done env a m w)"
| "route_from_agent_message env a (Failed m) w = acked env m (failed_task m) (on_agent_error env a m w)"
| "route_from_agent_message env a (Critical m) w = acked env m (critical_task m) (on_agent_critical env a m w)"
| "route_from_agent_message env a (StatePatch m) w = unacked (on_agent_state_patch a m w)"
| "route_from_agent_message env a (StateSnapshot m) w = unacked (on_agent_state_snapshot a m w)"
| "route_from_agent_message env a (SessionInit m) w = unacked (on_agent_session_init a m w)"
| "route_from_agent_message env a (LockMessage m) w = unacked (on_agent_lock a m w)"
| "route_from_agent_message env a (UnlockMessage m) w = unacked (on_agent_unlock a m w)"
| "route_from_agent_message env a (Register m) w = (Inl UnknownAgentMessage, w)"
| "route_from_agent_message env a (HeartbeatEvent m) w = (Inl UnknownAgentMessage, w)"

section \<open>The webhook intake\<close>

text \<open>
  A request: its method, its raw body, its signature header, and what pydantic makes of the body.
\<close>

record hook_request =
  hq_post :: bool
  hq_agent :: string
  hq_body :: string
  hq_signature :: "string option"
  hq_message :: "from_agent_message option"

datatype hook_response =
    Not_allowed
  | Unknown_agent
  | Blocked
  | Bad_signature
  | Bad_message
  | Unhandled
  | Handler_error exc
  | Reply "to_agent_message option"

fun response_status :: "hook_response \<Rightarrow> nat" where
  "response_status Not_allowed = 405"
| "response_status Unknown_agent = 404"
| "response_status Blocked = 403"
| "response_status Bad_signature = 401"
| "response_status Bad_message = 400"
| "response_status Unhandled = 400"
| "response_status (Handler_error e) = 400"
| "response_status (Reply r) = 200"

definition hook_intake :: "rekuest_env \<Rightarrow> hook_request \<Rightarrow> world \<Rightarrow> hook_response outcome \<times> world" where
  "hook_intake env q w =
     (if \<not> hq_post q then (Inr Not_allowed, w)
      else case py_int (hq_agent q) of
             None \<Rightarrow> (Inl (ValueError ''Field id expected a number''), w)
           | Some n \<Rightarrow>
               (case (if n < 0 then None else t_get (w_agents w) (nat n)) of
                  None \<Rightarrow> (Inr Unknown_agent, w)
                | Some a \<Rightarrow>
                    (if ag_kind a \<noteq> WEBHOOK then (Inr Unknown_agent, w)
                     else if ag_blocked a then (Inr Blocked, w)
                     else if \<not> verify env (ag_hook_url_secret a) (hq_body q) (hq_signature q) then
                       (Inr Bad_signature, w)
                     else case hq_message q of
                            None \<Rightarrow> (Inr Bad_message, w)
                          | Some m \<Rightarrow>
                              (case route_from_agent_message env (nat n) m w of
                                 (Inl UnknownAgentMessage, w1) \<Rightarrow> (Inr Unhandled, w1)
                               | (Inl e, w1) \<Rightarrow> (Inr (Handler_error e), w1)
                               | (Inr r, w1) \<Rightarrow> (Inr (Reply r), w1)))))"

section \<open>Routing keeps the ledger\<close>

lemma keeps_caller_assign: "keeps w (snd (caller_assign_sync env a m w))"
proof -
  have step: "keeps w0 (snd (and_then (assign env ctx inp w0) (\<lambda>i w1. (Inr (i, True), w1))))"
    for w0 ctx inp
    by (rule keeps_and_then [OF keeps_assign]) simp
  have "keeps w (snd (and_then (assign env ctx inp (snd (get_or_create_caller c u g w)))
      (\<lambda>i w1. (Inr (i, True), w1))))" for ctx inp c u g
    by (rule keeps_trans [OF _ step]) simp
  then show ?thesis
    unfolding caller_assign_sync_def
    by (auto simp: split_beta Let_def split: option.split sum.split)
qed

lemma keeps_run_control: "keeps w (snd (run_control env c s w))"
  by (cases c) (simp_all add: keeps_controls)

lemma keeps_caller_control: "keeps w (snd (caller_control_sync env a s c w))"
proof -
  have "keeps w (snd (get_or_create_caller cl u g w))" for cl u g by simp
  then show ?thesis
    unfolding caller_control_sync_def
    by (auto simp: split_beta Let_def intro: keeps_trans [OF _ keeps_run_control]
        split: option.split sum.split)
qed

lemma keeps_on_caller_cancel: "keeps w (snd (on_caller_cancel env a m w))"
  unfolding on_caller_cancel_def
  by (rule keeps_and_then [OF keeps_caller_control]) (simp split: option.split)

lemma keeps_escalate: "keeps w (snd (escalate_to_interrupt env s w))"
proof -
  have "keeps w (snd (and_then (control_interrupt env x w) (\<lambda>_ w1. (Inr (), w1))))" for x
    by (rule keeps_and_then [OF keeps_controls(2)]) simp
  then show ?thesis by (auto simp: escalate_to_interrupt_def split: sum.split exc.split)
qed

lemma keeps_run_timer: "keeps w (snd (run_timer_action env ta w))"
  by (cases ta) (simp_all add: keeps_reconcile_orphaned keeps_reconcile_silent keeps_escalate)

lemma keeps_acked: "keeps w (snd r) \<Longrightarrow> keeps w (snd (acked env m s r))"
  unfolding acked_def ack_def
  by (rule keeps_and_then) (auto simp: split_beta intro: keeps_fresh_uuid [OF prod.collapse [symmetric]])

lemma keeps_unacked: "keeps w (snd r) \<Longrightarrow> keeps w (snd (unacked r))"
  unfolding unacked_def by (rule keeps_and_then) simp_all

lemma keeps_replies:
  "keeps w (snd r) \<Longrightarrow> keeps w (snd (control_reply env mc r))"
  "keeps w (snd q) \<Longrightarrow> keeps w (snd (assign_reply env ma q))"
  by (auto simp: control_reply_def assign_reply_def split_beta Let_def
      intro: keeps_trans keeps_fresh_uuid [OF prod.collapse [symmetric]] split: sum.split)

lemma keeps_route: "keeps w (snd (route_from_agent_message env a m w))"
  by (cases m)
    (simp_all add: keeps_acked keeps_unacked keeps_replies on_caller_assign_def on_caller_interrupt_def
      on_caller_pause_def on_caller_resume_def keeps_caller_assign keeps_caller_control
      keeps_on_caller_cancel terminal_handlers keeps_report_terminal on_agent_started_def
      on_agent_paused_def on_agent_resumed_def keeps_nonterminal_confirm keeps_on_agent_log
      keeps_on_agent_yield keeps_on_agent_progress keeps_states keeps_locks)

lemma keeps_hook_intake: "keeps w (snd (hook_intake env q w))"
proof -
  have "keeps w w1" if "route_from_agent_message env a m w = (r, w1)" for a m r w1
    using keeps_route [of w env a m] that by simp
  then show ?thesis
    unfolding hook_intake_def by (auto split: option.split prod.split sum.split exc.split)
qed

end
