(* ===== verification/Agent_Protocol.thy ===== *)
theory Agent_Protocol
  imports Message_Router
begin

text \<open>
  \<^verbatim>\<open>facade/consumers/agent_protocol.py\<close> and the adapter \<^verbatim>\<open>async_consumer.py\<close>: one connection as a
  state machine over inbound frames, heartbeats, the relay of queued messages and teardown. A
  connection's outbound frames and close calls are recorded in order; the transport itself is the
  websocket library.
\<close>

section \<open>The state of a connection\<close>

text \<open>
  \<open>rs_listening\<close> and \<open>rs_beating\<close> say whether the two loops run, \<open>rs_pending\<close> whether a heartbeat
  future is armed and unresolved.
\<close>

record registered_session =
  rs_agent :: nat
  rs_session_id :: "string option"
  rs_caller_id :: string
  rs_lease_epoch :: int
  rs_listening :: bool
  rs_beating :: bool
  rs_pending :: bool

record connection =
  cn_connection_id :: string
  cn_session :: "registered_session option"
  cn_received_initial :: bool
  cn_agent_group :: "nat option"
  cn_caller_group :: "string option"
  cn_sent :: "to_agent_message list"
  cn_closed :: "close_code list"
  cn_displacements :: nat

definition new_connection :: "string \<Rightarrow> connection" where
  "new_connection cid =
     \<lparr>cn_connection_id = cid, cn_session = None, cn_received_initial = False, cn_agent_group = None,
      cn_caller_group = None, cn_sent = [], cn_closed = [], cn_displacements = 0\<rparr>"

definition close_with :: "close_code \<Rightarrow> connection \<Rightarrow> connection" where
  "close_with code c = c\<lparr>cn_closed := cn_closed c @ [code]\<rparr>"

definition send_message :: "to_agent_message \<Rightarrow> connection \<Rightarrow> connection" where
  "send_message m c = c\<lparr>cn_sent := cn_sent c @ [m]\<rparr>"

definition kick_others :: "connection \<Rightarrow> connection" where
  "kick_others c = (if cn_agent_group c = None then c else c\<lparr>cn_displacements := Suc (cn_displacements c)\<rparr>)"

definition agent_displace :: "string \<Rightarrow> connection \<Rightarrow> connection" where
  "agent_displace initiator c =
     (if initiator \<noteq> cn_connection_id c then close_with AGENT_REPLACED_CODE c else c)"

section \<open>Registration\<close>

text \<open>
  The token's user, client and organisation come from the authentication package. The create branch
  of \<^verbatim>\<open>aget_or_create\<close> lacks required columns, so only an existing agent is found.
\<close>

type_synonym identify = "string \<Rightarrow> (nat \<times> nat \<times> nat) option"

definition default_authenticator :: "identify \<Rightarrow> register \<Rightarrow> world \<Rightarrow> nat outcome" where
  "default_authenticator identify r w =
     (case identify (rg_token r) of
        None \<Rightarrow> Inl (ValueError ''Invalid token'')
      | Some (client, user, organization) \<Rightarrow>
          (case t_first (\<lambda>a. ag_client a = client \<and> ag_user a = user \<and> ag_organization a = organization)
                  (w_agents w) of
             None \<Rightarrow> Inl (IntegrityError ''app_id'')
           | Some (i, _) \<Rightarrow> Inr i))"

definition init_session :: "nat \<Rightarrow> string option \<Rightarrow> string \<Rightarrow> int \<Rightarrow> registered_session" where
  "init_session agent session_id caller_id epoch =
     \<lparr>rs_agent = agent, rs_session_id = session_id, rs_caller_id = caller_id, rs_lease_epoch = epoch,
      rs_listening = True, rs_beating = True, rs_pending = False\<rparr>"

definition accept_claim ::
  "rekuest_env \<Rightarrow> nat \<Rightarrow> string option \<Rightarrow> string \<Rightarrow> lease_claim \<Rightarrow> connection \<Rightarrow> world \<Rightarrow> connection \<times> world"
where
  "accept_claim env i session_id caller_id claim c w =
     (let c1 = (if lcm_displaced_incumbent claim then kick_others c else c);
          (mid, w1) = fresh_uuid env w
      in (send_message
            (Init \<lparr>msg_id = mid, in_agent = str_of_nat i,
                   in_inquiries = map (\<lambda>(j, t). \<lparr>aq_task = str_of_nat j\<rparr>) (lcm_tasks claim)\<rparr>)
            (c1\<lparr>cn_session := Some (init_session i session_id caller_id (the (lcm_epoch claim)))\<rparr>), w1))"

definition on_register ::
  "rekuest_env \<Rightarrow> identify \<Rightarrow> register \<Rightarrow> connection \<Rightarrow> world \<Rightarrow> unit outcome \<times> connection \<times> world"
where
  "on_register env identify r c w =
     (case default_authenticator identify r w of
        Inl e \<Rightarrow> (Inl e, c, w)
      | Inr i \<Rightarrow>
          (case t_get (w_agents w) i of
             None \<Rightarrow> (Inl (DoesNotExist ''Agent''), c, w)
           | Some a \<Rightarrow>
               (if ag_blocked a then (Inr (), close_with AGENT_IS_BLOCKED_CODE c, w)
                else case get_or_create_caller_id i w of
                       (Inl e, w1) \<Rightarrow> (Inl e, c, w1)
                     | (Inr caller_id, w1) \<Rightarrow>
                         (let c1 = c\<lparr>cn_caller_group := Some caller_id, cn_agent_group := Some i\<rparr> in
                          case on_agent_connected env i (Some (cn_connection_id c)) (rg_session_id r)
                                 (rg_force r) w1 of
                            (Inl e, w2) \<Rightarrow> (Inl e, c1, w2)
                          | (Inr claim, w2) \<Rightarrow>
                              (if \<not> lcm_claimed claim then
                                 let (mid, w3) = fresh_uuid env w2 in
                                 (Inr (),
                                  close_with AGENT_ALREADY_CONNECTED_CODE
                                    (send_message (ProtocolError \<lparr>msg_id = mid,
                                       pe_error = ''Another connection is already registered for this agent.''\<rparr>) c1),
                                  w3)
                               else
                                 let (c2, w3) = accept_claim env i (rg_session_id r) caller_id claim c1 w2 in
                                 (Inr (), c2, w3))))))"

section \<open>The registered session\<close>

definition stop_executing :: "connection \<Rightarrow> connection" where
  "stop_executing c = c\<lparr>cn_session := map_option (\<lambda>s. s\<lparr>rs_listening := False\<rparr>) (cn_session c)\<rparr>"

definition set_pending :: "bool \<Rightarrow> connection \<Rightarrow> connection" where
  "set_pending b c = c\<lparr>cn_session := map_option (\<lambda>s. s\<lparr>rs_pending := b\<rparr>) (cn_session c)\<rparr>"

text \<open>The answer resolves the future first; a renewal that matches no row ends the connection.\<close>

definition on_agent_heartbeat :: "registered_session \<Rightarrow> connection \<Rightarrow> world \<Rightarrow> connection \<times> world" where
  "on_agent_heartbeat s c w =
     (let c1 = set_pending False c;
          (renewed, w1) = renew_agent_lease (rs_agent s) (rs_lease_epoch s) w
      in if renewed then (c1, w1)
         else (close_with AGENT_REPLACED_CODE (stop_executing c1), w1))"

definition dispatch ::
  "rekuest_env \<Rightarrow> registered_session \<Rightarrow> from_agent_message \<Rightarrow> connection \<Rightarrow> world
   \<Rightarrow> unit outcome \<times> connection \<times> world"
where
  "dispatch env s m c w =
     (case m of
        HeartbeatEvent _ \<Rightarrow> (let (c1, w1) = on_agent_heartbeat s c w in (Inr (), c1, w1))
      | _ \<Rightarrow>
          (case route_from_agent_message env (rs_agent s) m w of
             (Inl UnknownAgentMessage, w1) \<Rightarrow>
               (Inr (), close_with FROM_AGENT_MESSAGE_DOES_NOT_MATCH_SCHEMA_CODE c, w1)
           | (Inl e, w1) \<Rightarrow> (Inl e, c, w1)
           | (Inr None, w1) \<Rightarrow> (Inr (), c, w1)
           | (Inr (Some reply), w1) \<Rightarrow> (Inr (), send_message reply c, w1)))"

text \<open>
  One round of the heartbeat loop is a beat, then either the answer above or the timeout below,
  which ends the loop.
\<close>

definition heartbeat_beat :: "rekuest_env \<Rightarrow> connection \<Rightarrow> world \<Rightarrow> connection \<times> world" where
  "heartbeat_beat env c w =
     (case cn_session c of
        None \<Rightarrow> (c, w)
      | Some s \<Rightarrow>
          (if \<not> rs_beating s then (c, w)
           else let (mid, w1) = fresh_uuid env w in
                (send_message (Heartbeat \<lparr>msg_id = mid\<rparr>) (set_pending True c), w1)))"

definition heartbeat_timeout :: "connection \<Rightarrow> connection" where
  "heartbeat_timeout c =
     (case cn_session c of
        None \<Rightarrow> c
      | Some s \<Rightarrow>
          (if \<not> rs_beating s \<or> \<not> rs_pending s then c
           else close_with HEARTBEAT_NOT_RESPONDED_CODE
                  ((stop_executing c)\<lparr>cn_session :=
                     map_option (\<lambda>s. s\<lparr>rs_listening := False, rs_beating := False, rs_pending := False\<rparr>)
                       (cn_session c)\<rparr>)))"

text \<open>One round of the relay loop: pop, send, ack. An empty queue blocks.\<close>

definition listen_step :: "connection \<Rightarrow> world \<Rightarrow> connection \<times> world" where
  "listen_step c w =
     (case cn_session c of
        None \<Rightarrow> (c, w)
      | Some s \<Rightarrow>
          (if \<not> rs_listening s then (c, w)
           else case redis_pop (str_of_nat (rs_agent s)) (w_redis w) of
                  None \<Rightarrow> (c, w)
                | Some (m, q) \<Rightarrow>
                    (send_message m c, w\<lparr>w_redis := redis_ack (str_of_nat (rs_agent s)) m q\<rparr>)))"

definition shutdown :: "rekuest_env \<Rightarrow> connection \<Rightarrow> world \<Rightarrow> unit outcome \<times> connection \<times> world" where
  "shutdown env c w =
     (case cn_session c of
        None \<Rightarrow> (Inr (), c, w)
      | Some s \<Rightarrow>
          (let c1 = c\<lparr>cn_session := Some (s\<lparr>rs_listening := False, rs_beating := False\<rparr>)\<rparr>;
               (r, w1) = on_agent_disconnected env (rs_agent s) (Some (cn_connection_id c)) w
           in (r, c1, w1)))"

definition disconnect :: "rekuest_env \<Rightarrow> connection \<Rightarrow> world \<Rightarrow> unit outcome \<times> connection \<times> world" where
  "disconnect env c w = shutdown env (c\<lparr>cn_agent_group := None, cn_caller_group := None\<rparr>) w"

section \<open>Inbound frames\<close>

text \<open>What arrives, after \<^verbatim>\<open>json.loads\<close> and the validation of the union.\<close>

datatype frame = No_text | Not_json | Schema_error string | Parsed from_agent_message

definition handle_payload ::
  "rekuest_env \<Rightarrow> identify \<Rightarrow> from_agent_message \<Rightarrow> connection \<Rightarrow> world \<Rightarrow> unit outcome \<times> connection \<times> world"
where
  "handle_payload env identify m c w =
     (if \<not> cn_received_initial c then
        (case m of
           Register reg \<Rightarrow> on_register env identify reg (c\<lparr>cn_received_initial := True\<rparr>) w
         | _ \<Rightarrow> (Inl (ValueError ''First message must be a register''), c, w))
      else case cn_session c of
             Some s \<Rightarrow> dispatch env s m c w
           | None \<Rightarrow> (Inr (), close_with FROM_AGENT_MESSAGE_DOES_NOT_MATCH_SCHEMA_CODE c, w))"

fun receive :: "rekuest_env \<Rightarrow> identify \<Rightarrow> frame \<Rightarrow> connection \<Rightarrow> world \<Rightarrow> connection \<times> world" where
  "receive env identify No_text c w = (close_with FROM_AGENT_MESSAGE_IS_NOT_VALID_JSON_CODE c, w)"
| "receive env identify Not_json c w = (close_with FROM_AGENT_MESSAGE_IS_NOT_VALID_JSON_CODE c, w)"
| "receive env identify (Schema_error e) c w =
     (let (mid, w1) = fresh_uuid env w in
      (close_with FROM_AGENT_MESSAGE_DOES_NOT_MATCH_SCHEMA_CODE
         (send_message (ProtocolError \<lparr>msg_id = mid, pe_error = e\<rparr>) c), w1))"
| "receive env identify (Parsed m) c w =
     (case handle_payload env identify m c w of
        (Inr _, c1, w1) \<Rightarrow> (c1, w1)
      | (Inl _, c1, w1) \<Rightarrow> (close_with FROM_AGENT_MESSAGE_DOES_NOT_MATCH_SCHEMA_CODE c1, w1))"

text \<open>
  The channel layer hands a caller's events to its registered connections: only the \<^verbatim>\<open>event\<close> branch
  is forwarded, as the mirror of the stored row.
\<close>

definition forward_task_event :: "rekuest_env \<Rightarrow> task_event_created \<Rightarrow> connection \<Rightarrow> world \<Rightarrow> connection \<times> world" where
  "forward_task_event env ev c w =
     (case (cn_session c, tec_event ev) of
        (Some s, Some i) \<Rightarrow>
          (case t_get (w_events w) i of
             None \<Rightarrow> (c, w)
           | Some e \<Rightarrow>
               (case build_execution_event (uuid4 env (draws w)) i e of
                  None \<Rightarrow> (c, w)
                | Some m \<Rightarrow> (send_message (ExecutionEvent m) c, w\<lparr>draws := Suc (draws w)\<rparr>)))
      | _ \<Rightarrow> (c, w))"

end
