(* ===== verification/Protocol_Facts.thy ===== *)
theory Protocol_Facts
  imports Agent_Protocol
begin

text \<open>
  What a connection does to the shared state and to itself: every event of a connection keeps the
  ledger, a session appears only with a claim that raised the lease epoch, and a session keeps its
  agent and its token for as long as the connection lives.
\<close>

section \<open>The ledger\<close>

lemma keeps_caller_id: "keeps w (snd (get_or_create_caller_id i w))"
proof -
  have "keeps w (snd (get_or_create_caller c u g w))" for c u g by simp
  then show ?thesis by (auto simp: get_or_create_caller_id_def split_beta split: option.split)
qed

lemma keeps_accept_claim: "keeps w (snd (accept_claim env i sess cid cl c w))"
  by (simp add: accept_claim_def Let_def split_beta keeps_fresh_uuid [OF prod.collapse [symmetric]])

lemma keeps_on_register: "keeps w (snd (snd (on_register env identify r c w)))"
proof (cases "default_authenticator identify r w")
  case (Inl e)
  then show ?thesis by (simp add: on_register_def)
next
  case (Inr i)
  show ?thesis
  proof (cases "t_get (w_agents w) i")
    case None
    with Inr show ?thesis by (simp add: on_register_def)
  next
    case (Some a)
    obtain r1 w1 where id: "get_or_create_caller_id i w = (r1, w1)" by (cases "get_or_create_caller_id i w")
    have w1: "keeps w w1" using keeps_caller_id [of w i] by (simp add: id)
    obtain r2 w2 where cl: "on_agent_connected env i (Some (cn_connection_id c)) (rg_session_id r) (rg_force r) w1 = (r2, w2)"
      by (cases "on_agent_connected env i (Some (cn_connection_id c)) (rg_session_id r) (rg_force r) w1")
    have w2: "keeps w w2"
      using keeps_on_agent_connected [of w1 env i "Some (cn_connection_id c)" "rg_session_id r" "rg_force r"]
      by (simp add: cl) (rule keeps_trans [OF w1])
    have w3: "keeps w (snd (fresh_uuid env w2))"
      by (rule keeps_trans [OF w2]) (rule keeps_fresh_uuid [OF prod.collapse [symmetric]])
    have w4: "keeps w (snd (accept_claim env i sess cid claim c' w2))" for sess cid claim c'
      by (rule keeps_trans [OF w2 keeps_accept_claim])
    show ?thesis
      using w1 w2 w3 w4
      by (simp add: on_register_def Inr Some id cl split_beta Let_def split: sum.split)
  qed
qed

lemma keeps_on_agent_heartbeat: "keeps w (snd (on_agent_heartbeat s c w))"
proof -
  have "keeps w (snd (renew_agent_lease (rs_agent s) (rs_lease_epoch s) w))" by simp
  then show ?thesis by (simp add: on_agent_heartbeat_def Let_def split_beta)
qed

lemma keeps_dispatch_frame: "keeps w (snd (snd (dispatch env s m c w)))"
proof -
  have hb: "keeps w (snd (snd (let (c1, w1) = on_agent_heartbeat s c w in (Inr () :: unit outcome, c1, w1))))"
    using keeps_on_agent_heartbeat [of w s c] by (simp add: split_beta)
  have rt: "keeps w (snd (snd (case route_from_agent_message env (rs_agent s) m w of
             (Inl UnknownAgentMessage, w1) \<Rightarrow>
               (Inr () :: unit outcome, close_with FROM_AGENT_MESSAGE_DOES_NOT_MATCH_SCHEMA_CODE c, w1)
           | (Inl e, w1) \<Rightarrow> (Inl e, c, w1)
           | (Inr None, w1) \<Rightarrow> (Inr (), c, w1)
           | (Inr (Some reply), w1) \<Rightarrow> (Inr (), send_message reply c, w1))))"
    using keeps_route [of w env "rs_agent s" m]
    by (auto split: prod.split sum.split exc.split option.split)
  show ?thesis using hb rt by (cases m) (simp_all only: dispatch_def from_agent_message.case)
qed

lemma keeps_handle_payload: "keeps w (snd (snd (handle_payload env identify m c w)))"
  unfolding handle_payload_def
  by (auto simp: keeps_on_register keeps_dispatch_frame split: from_agent_message.split option.split)

lemma keeps_receive: "keeps w (snd (receive env identify f c w))"
proof (cases f)
  case (Parsed m)
  then show ?thesis
    using keeps_handle_payload [of w env identify m c] by (auto split: prod.split sum.split)
qed (simp_all add: split_beta keeps_fresh_uuid [OF prod.collapse [symmetric]])

lemma keeps_shutdown: "keeps w (snd (snd (shutdown env c w)))"
proof -
  have "keeps w (snd (on_agent_disconnected env i conn w))" for i conn by (rule keeps_on_agent_disconnected)
  then show ?thesis by (simp add: shutdown_def Let_def split_beta split: option.split)
qed

lemma keeps_loops:
  "keeps w (snd (heartbeat_beat env c w))" "keeps w (snd (listen_step c w))"
  "keeps w (snd (forward_task_event env ev c w))"
proof -
  show "keeps w (snd (heartbeat_beat env c w))"
    by (simp add: heartbeat_beat_def split_beta keeps_fresh_uuid [OF prod.collapse [symmetric]] split: option.split)
  show "keeps w (snd (listen_step c w))"
    by (auto simp: listen_step_def intro!: same_ledger_keeps db_same_ledger split: option.split)
  show "keeps w (snd (forward_task_event env ev c w))"
    by (auto simp: forward_task_event_def intro!: same_ledger_keeps db_same_ledger split: option.split)
qed

section \<open>Sessions and tokens\<close>

text \<open>The agent and the token of a connection's session.\<close>

definition token :: "connection \<Rightarrow> (nat \<times> int) option" where
  "token c = map_option (\<lambda>s. (rs_agent s, rs_lease_epoch s)) (cn_session c)"

lemma token_updates [simp]:
  "token (close_with code c) = token c" "token (send_message m c) = token c"
  "token (stop_executing c) = token c" "token (set_pending b c) = token c"
  "token (kick_others c) = token c" "token (agent_displace x c) = token c"
  "token (heartbeat_timeout c) = token c"
  "token (c\<lparr>cn_received_initial := b\<rparr>) = token c"
  "token (c\<lparr>cn_agent_group := g, cn_caller_group := h\<rparr>) = token c"
  "token (c\<lparr>cn_caller_group := h, cn_agent_group := g\<rparr>) = token c"
  by (auto simp: token_def close_with_def send_message_def stop_executing_def set_pending_def
      kick_others_def agent_displace_def heartbeat_timeout_def option.map_comp comp_def
      split: option.split)

lemma token_heartbeat [simp]: "token (fst (on_agent_heartbeat s c w)) = token c"
  by (simp add: on_agent_heartbeat_def Let_def split_beta)

lemma token_dispatch [simp]: "token (fst (snd (dispatch env s m c w))) = token c"
proof -
  have "token (fst (snd (case route_from_agent_message env (rs_agent s) m w of
             (Inl UnknownAgentMessage, w1) \<Rightarrow>
               (Inr () :: unit outcome, close_with FROM_AGENT_MESSAGE_DOES_NOT_MATCH_SCHEMA_CODE c, w1)
           | (Inl e, w1) \<Rightarrow> (Inl e, c, w1)
           | (Inr None, w1) \<Rightarrow> (Inr (), c, w1)
           | (Inr (Some reply), w1) \<Rightarrow> (Inr (), send_message reply c, w1)))) = token c"
    by (auto split: prod.split sum.split exc.split option.split)
  then show ?thesis
    by (cases m) (simp_all only: dispatch_def from_agent_message.case split_beta fst_conv snd_conv
        token_heartbeat Let_def)
qed

lemma token_loops [simp]:
  "token (fst (heartbeat_beat env c w)) = token c" "token (fst (listen_step c w)) = token c"
  "token (fst (forward_task_event env ev c w)) = token c"
  by (auto simp: heartbeat_beat_def listen_step_def forward_task_event_def split_beta split: option.split)

lemma token_shutdown [simp]: "token (fst (snd (shutdown env c w))) = token c"
  by (auto simp: shutdown_def Let_def split_beta token_def split: option.split)

text \<open>A claim that goes through raises the epoch by one and returns it.\<close>

lemma on_agent_connected_claim:
  assumes ok: "on_agent_connected env i conn sess force w = (Inr cl, w')" and claimed: "lcm_claimed cl"
    and L: "ledger w"
  shows "\<exists>a a'. t_get (w_agents w) i = Some a \<and> lcm_epoch cl = Some (ag_lease_epoch a + 1) \<and>
           t_get (w_agents w') i = Some a' \<and> ag_lease_epoch a + 1 \<le> ag_lease_epoch a'"
proof -
  obtain r w1 where c: "claim_lease_sync env i conn sess force w = (r, w1)"
    by (cases "claim_lease_sync env i conn sess force w")
  from ok c obtain r' where r: "r = Inr r'" by (cases r) (auto simp: on_agent_connected_def)
  with ok c claimed have lc: "lc_claimed r'" and ep: "lcm_epoch cl = lc_epoch r'"
    by (auto simp: on_agent_connected_def Let_def and_then_def split: if_splits prod.splits sum.splits)
  from c r lc obtain a a1 where a: "t_get (w_agents w) i = Some a" "lc_epoch r' = Some (ag_lease_epoch a + 1)"
    and a1: "t_get (w_agents w1) i = Some a1" "ag_lease_epoch a1 = ag_lease_epoch a + 1"
    by (auto simp: claim_lease_sync_def t_get_upd split: option.splits if_splits)
  have "ledger w1"
    using keeps_lease(1) [of w env i conn sess force] L c by (auto simp: keeps_def)
  let ?w2 = "w1\<lparr>executor_grace := gs_cancel (str_of_nat i) (executor_grace w1)\<rparr>"
  have "w' = ?w2 \<or> w' = snd (fail_and_cascade_inflight env (in_flight i ?w2) ?w2)"
    using ok c r lc
    by (auto simp: on_agent_connected_def Let_def and_then_def split: if_splits prod.splits sum.splits)
  then have "keeps w1 w'"
    by (auto intro: keeps_from_timers(3) [OF keeps_fail_and_cascade])
  with \<open>ledger w1\<close> have "agents_evolve w1 w'" by (simp add: keeps_def evolves_def)
  with a1 obtain a' where "t_get (w_agents w') i = Some a'" "ag_lease_epoch a + 1 \<le> ag_lease_epoch a'"
    using agents_evolveD by fastforce
  with a ep show ?thesis by auto
qed

text \<open>A token taken in a step: larger than any the agent had, and not ahead of the row.\<close>

definition fresh_token :: "(nat \<times> int) option \<Rightarrow> world \<Rightarrow> world \<Rightarrow> bool" where
  "fresh_token tk w w' \<longleftrightarrow>
     (\<exists>i e a a'. tk = Some (i, e) \<and> t_get (w_agents w) i = Some a \<and> ag_lease_epoch a < e \<and>
        t_get (w_agents w') i = Some a' \<and> e \<le> ag_lease_epoch a')"

lemma caller_id_agents: "get_or_create_caller_id i w = (r, w1) \<Longrightarrow> w_agents w1 = w_agents w"
  by (auto simp: get_or_create_caller_id_def get_or_create_caller_def split: option.splits prod.splits)

lemma accept_claim_agents [simp]: "w_agents (snd (accept_claim env i sess cid cl c w)) = w_agents w"
  by (simp add: accept_claim_def Let_def split_beta)

lemma accept_claim_token [simp]:
  "token (fst (accept_claim env i sess cid cl c w)) = Some (i, the (lcm_epoch cl))"
  by (simp add: accept_claim_def Let_def split_beta token_def init_session_def send_message_def)

lemma on_register_token:
  assumes "on_register env identify r c w = (res, c', w')" and L: "ledger w"
  shows "token c' = token c \<or> fresh_token (token c') w w'"
proof (cases "default_authenticator identify r w")
  case (Inl e)
  with assms(1) show ?thesis by (simp add: on_register_def)
next
  case (Inr i)
  show ?thesis
  proof (cases "t_get (w_agents w) i")
    case None
    with Inr assms(1) show ?thesis by (simp add: on_register_def)
  next
    case (Some a)
    obtain r1 w1 where id: "get_or_create_caller_id i w = (r1, w1)" by (cases "get_or_create_caller_id i w")
    have ag: "w_agents w1 = w_agents w" by (rule caller_id_agents [OF id])
    have L1: "ledger w1" using keeps_caller_id [of w i] L by (simp add: id keeps_def)
    obtain r2 w2 where cl: "on_agent_connected env i (Some (cn_connection_id c)) (rg_session_id r) (rg_force r) w1 = (r2, w2)"
      by (cases "on_agent_connected env i (Some (cn_connection_id c)) (rg_session_id r) (rg_force r) w1")
    show ?thesis
    proof (cases "\<exists>cid claim. r1 = Inr cid \<and> r2 = Inr claim \<and> lcm_claimed claim \<and> \<not> ag_blocked a")
      case True
      then obtain cid claim where ok: "r1 = Inr cid" "r2 = Inr claim" "lcm_claimed claim" "\<not> ag_blocked a" by blast
      let ?r = "accept_claim env i (rg_session_id r) cid claim
          (c\<lparr>cn_caller_group := Some cid, cn_agent_group := Some i\<rparr>) w2"
      from assms(1) have "c' = fst ?r" "w' = snd ?r"
        using Inr Some id cl ok by (simp_all add: on_register_def Let_def split_beta)
      then have c': "token c' = Some (i, the (lcm_epoch claim))" "w_agents w' = w_agents w2" by simp_all
      from on_agent_connected_claim [of env i "Some (cn_connection_id c)" "rg_session_id r" "rg_force r" w1 claim w2]
        cl ok L1 ag obtain b a' where "t_get (w_agents w) i = Some b"
          "lcm_epoch claim = Some (ag_lease_epoch b + 1)" "t_get (w_agents w2) i = Some a'"
          "ag_lease_epoch b + 1 \<le> ag_lease_epoch a'" by auto
      then have "fresh_token (token c') w w'" unfolding fresh_token_def c' by auto
      then show ?thesis ..
    next
      case False
      have "token c' = token c"
        using assms(1) Inr Some id cl False
        by (auto simp: on_register_def Let_def split_beta split: if_splits sum.splits)
      then show ?thesis ..
    qed
  qed
qed

lemma receive_token:
  assumes L: "ledger w"
  shows "token (fst (receive env identify f c w)) = token c \<or>
         fresh_token (token (fst (receive env identify f c w))) w (snd (receive env identify f c w))"
proof (cases f)
  case (Parsed m)
  obtain r c1 w1 where h: "handle_payload env identify m c w = (r, c1, w1)"
    by (cases "handle_payload env identify m c w")
  have "token c1 = token c \<or> fresh_token (token c1) w w1"
  proof (cases "cn_received_initial c")
    case True
    then show ?thesis
      using h by (auto simp: handle_payload_def dest: arg_cong [where f = "\<lambda>x. token (fst (snd x))"]
          split: option.splits)
  next
    case False
    show ?thesis
    proof (cases "\<exists>reg. m = Register reg")
      case True
      then obtain reg where "on_register env identify reg (c\<lparr>cn_received_initial := True\<rparr>) w = (r, c1, w1)"
        using h False by (auto simp: handle_payload_def)
      from on_register_token [OF this L] show ?thesis by simp
    next
      case False
      with h \<open>\<not> cn_received_initial c\<close> have "c1 = c"
        by (cases m) (auto simp: handle_payload_def)
      then show ?thesis by simp
    qed
  qed
  with Parsed h show ?thesis by (cases r) simp_all
qed (simp_all add: split_beta)

section \<open>The handshake\<close>

text \<open>Before a Register, nothing a peer sends reaches the shared state.\<close>

lemma unregistered_frame:
  assumes "\<not> cn_received_initial c" and "\<And>reg. m \<noteq> Register reg"
  shows "receive env identify (Parsed m) c w =
         (close_with FROM_AGENT_MESSAGE_DOES_NOT_MATCH_SCHEMA_CODE c, w)"
proof -
  from assms(2) have "\<nexists>reg. m = Register reg" by blast
  with assms(1) show ?thesis by (cases m) (auto simp: handle_payload_def)
qed

text \<open>A heartbeat whose token no longer matches stops the relay and closes the connection.\<close>

lemma fenced_heartbeat:
  assumes "cn_session c = Some s" and "agent_epoch (rs_agent s) w \<noteq> Some (rs_lease_epoch s)"
  shows "\<exists>s'. on_agent_heartbeat s c w = (c\<lparr>cn_session := Some s', cn_closed := cn_closed c @ [AGENT_REPLACED_CODE]\<rparr>, w) \<and>
              \<not> rs_listening s'"
  using assms
  by (auto simp: on_agent_heartbeat_def renew_agent_lease_def agent_epoch_def Let_def set_pending_def
      stop_executing_def close_with_def split: option.split)

lemma stopped_listen [simp]:
  "cn_session c = Some s \<Longrightarrow> \<not> rs_listening s \<Longrightarrow> listen_step c w = (c, w)"
  by (simp add: listen_step_def)

end
