(* ===== verification/System.thy ===== *)
theory System
  imports Protocol_Facts
begin

text \<open>
  The running service: every open connection and the shared state, and one step per event that can
  happen to them. Connections are handled on one event loop, so a frame, a beat, a relay round or a
  fired timer is one step. Invariants hold in every state reachable from a database that satisfies
  them with no connection open.
\<close>

record system =
  sy_conns :: "connection list"
  sy_world :: world

definition put :: "nat \<Rightarrow> connection \<times> world \<Rightarrow> system \<Rightarrow> system" where
  "put k cw s = s\<lparr>sy_conns := (sy_conns s)[k := fst cw], sy_world := snd cw\<rparr>"

text \<open>
  A step of the postman: an assignment or a control over GraphQL, or an agent control.
\<close>

inductive postman_step :: "rekuest_env \<Rightarrow> world \<Rightarrow> world \<Rightarrow> bool" for env where
  "postman_step env w (snd (assign env ctx input w))"
| "postman_step env w (snd (control_cancel env ci w))"
| "postman_step env w (snd (control_interrupt env ii w))"
| "postman_step env w (snd (control_pause env pi' w))"
| "postman_step env w (snd (control_resume env ri w))"
| "postman_step env w (snd (bounce_agent env bi w))"
| "postman_step env w (snd (block_agent env bl w))"
| "postman_step env w (snd (unblock_agent ub w))"
| "postman_step env w (snd (kick_agent env ki w))"

text \<open>A timer of one of the three schedulers wakes up, runs its action, and pops its key.\<close>

inductive timer_step :: "rekuest_env \<Rightarrow> world \<Rightarrow> world \<Rightarrow> bool" for env where
  "gs_due (now w) h (executor_grace w) \<Longrightarrow>
   w1 = snd (run_timer_action env (tm_action (gs_timers (executor_grace w) ! h))
               (w\<lparr>executor_grace := gs_wake (now w) h (executor_grace w)\<rparr>)) \<Longrightarrow>
   timer_step env w (w1\<lparr>executor_grace := gs_finish h (executor_grace w1)\<rparr>)"
| "gs_due (now w) h (progress_leases w) \<Longrightarrow>
   w1 = snd (run_timer_action env (tm_action (gs_timers (progress_leases w) ! h))
               (w\<lparr>progress_leases := gs_wake (now w) h (progress_leases w)\<rparr>)) \<Longrightarrow>
   timer_step env w (w1\<lparr>progress_leases := gs_finish h (progress_leases w1)\<rparr>)"
| "gs_due (now w) h (auto_interrupt w) \<Longrightarrow>
   w1 = snd (run_timer_action env (tm_action (gs_timers (auto_interrupt w) ! h))
               (w\<lparr>auto_interrupt := gs_wake (now w) h (auto_interrupt w)\<rparr>)) \<Longrightarrow>
   timer_step env w (w1\<lparr>auto_interrupt := gs_finish h (auto_interrupt w1)\<rparr>)"

inductive step :: "rekuest_env \<Rightarrow> identify \<Rightarrow> system \<Rightarrow> system \<Rightarrow> bool" for env identify where
  tick: "now (sy_world s) \<le> t \<Longrightarrow> step env identify s (s\<lparr>sy_world := (sy_world s)\<lparr>now := t\<rparr>\<rparr>)"
| connect: "step env identify s (s\<lparr>sy_conns := sy_conns s @ [new_connection cid]\<rparr>)"
| frame: "k < length (sy_conns s) \<Longrightarrow>
    step env identify s (put k (receive env identify f (sy_conns s ! k) (sy_world s)) s)"
| beat: "k < length (sy_conns s) \<Longrightarrow>
    step env identify s (put k (heartbeat_beat env (sy_conns s ! k) (sy_world s)) s)"
| timeout: "k < length (sy_conns s) \<Longrightarrow>
    step env identify s (put k (heartbeat_timeout (sy_conns s ! k), sy_world s) s)"
| relay: "k < length (sy_conns s) \<Longrightarrow>
    step env identify s (put k (listen_step (sy_conns s ! k) (sy_world s)) s)"
| forward: "k < length (sy_conns s) \<Longrightarrow>
    step env identify s (put k (forward_task_event env ev (sy_conns s ! k) (sy_world s)) s)"
| displace: "k < length (sy_conns s) \<Longrightarrow>
    step env identify s (put k (agent_displace initiator (sy_conns s ! k), sy_world s) s)"
| leave: "k < length (sy_conns s) \<Longrightarrow>
    step env identify s (put k (snd (disconnect env (sy_conns s ! k) (sy_world s))) s)"
| http: "step env identify s (s\<lparr>sy_world := snd (hook_intake env q (sy_world s))\<rparr>)"
| postman: "postman_step env (sy_world s) w \<Longrightarrow> step env identify s (s\<lparr>sy_world := w\<rparr>)"
| timer: "timer_step env (sy_world s) w \<Longrightarrow> step env identify s (s\<lparr>sy_world := w\<rparr>)"
| reap: "step env identify s (s\<lparr>sy_world := reaper_iteration env (sy_world s)\<rparr>)"
| sweep: "step env identify s (s\<lparr>sy_world := snd (reconcile_tasks_command env (sy_world s))\<rparr>)"

inductive_cases stepE: "step env identify s s'"

section \<open>The shared state\<close>

lemma keeps_postman_step: "postman_step env w w' \<Longrightarrow> keeps w w'"
  by (induction rule: postman_step.induct)
    (simp_all add: keeps_assign keeps_controls keeps_agent_controls)

lemma keeps_timer_step: "timer_step env w w' \<Longrightarrow> keeps w w'"
  by (induction rule: timer_step.induct)
    (auto intro: keeps_trans [OF keeps_from_timers(3) [OF keeps_run_timer] keeps_simple(3)]
      keeps_trans [OF keeps_from_timers(2) [OF keeps_run_timer] keeps_simple(2)]
      keeps_trans [OF keeps_from_timers(1) [OF keeps_run_timer] keeps_simple(1)])

lemma put_simps [simp]:
  "sy_world (put k cw s) = snd cw" "sy_conns (put k cw s) = (sy_conns s)[k := fst cw]"
  by (simp_all add: put_def)

lemma keeps_step: "step env identify s s' \<Longrightarrow> keeps (sy_world s) (sy_world s')"
proof (induction rule: step.induct)
  case (tick s t)
  show ?case by (intro same_ledger_keeps) (simp add: same_ledger_def)
next
  case (leave k s)
  show ?case by (simp add: disconnect_def keeps_shutdown)
qed (simp_all add: keeps_receive keeps_loops keeps_hook_intake keeps_postman_step keeps_timer_step
    reaper_iteration_def keeps_reconcile_stale_agents keeps_reconcile_tasks_command)

section \<open>One owner per agent\<close>

text \<open>
  No connection holds a token ahead of its agent's row, and no two hold the same token.
\<close>

definition tokens_ok :: "system \<Rightarrow> bool" where
  "tokens_ok s \<longleftrightarrow>
     (\<forall>k i e. k < length (sy_conns s) \<and> token (sy_conns s ! k) = Some (i, e) \<longrightarrow>
        (\<exists>a. t_get (w_agents (sy_world s)) i = Some a \<and> e \<le> ag_lease_epoch a)) \<and>
     (\<forall>j k x. j < length (sy_conns s) \<and> k < length (sy_conns s) \<and>
        token (sy_conns s ! j) = Some x \<and> token (sy_conns s ! k) = Some x \<longrightarrow> j = k)"

definition system_ok :: "system \<Rightarrow> bool" where
  "system_ok s \<longleftrightarrow> ledger (sy_world s) \<and> tokens_ok s"

lemma tokens_ok_world:
  assumes "tokens_ok s" and "agents_evolve (sy_world s) w'"
    and "map token cs = map token (sy_conns s)"
  shows "tokens_ok \<lparr>sy_conns = cs, sy_world = w'\<rparr>"
proof -
  have len: "length cs = length (sy_conns s)" using assms(3) map_eq_imp_length_eq by blast
  have tk: "token (cs ! k) = token (sy_conns s ! k)" if "k < length cs" for k
    using assms(3) that len by (metis nth_map)
  show ?thesis
    unfolding tokens_ok_def system.simps
  proof (intro conjI allI impI)
    fix k i e assume k: "k < length cs \<and> token (cs ! k) = Some (i, e)"
    with assms(1) tk len obtain a where "t_get (w_agents (sy_world s)) i = Some a" "e \<le> ag_lease_epoch a"
      unfolding tokens_ok_def by (metis (no_types, lifting))
    with agents_evolveD [OF assms(2)] show "\<exists>a. t_get (w_agents w') i = Some a \<and> e \<le> ag_lease_epoch a"
      by (meson order.trans)
  next
    fix j k x assume "j < length cs \<and> k < length cs \<and> token (cs ! j) = Some x \<and> token (cs ! k) = Some x"
    with assms(1) tk len show "j = k" unfolding tokens_ok_def by (metis (no_types, lifting))
  qed
qed

lemma tokens_ok_put:
  assumes "tokens_ok s" and "k < length (sy_conns s)" and "agents_evolve (sy_world s) w'"
    and new: "token c' = token (sy_conns s ! k) \<or> fresh_token (token c') (sy_world s) w'"
  shows "tokens_ok (put k (c', w') s)"
  using new
proof
  assume "token c' = token (sy_conns s ! k)"
  then have "map token ((sy_conns s)[k := c']) = map token (sy_conns s)"
    using assms(2) by (metis list_update_id map_update)
  from tokens_ok_world [OF assms(1,3) this] show ?thesis by (simp add: tokens_ok_def)
next
  assume "fresh_token (token c') (sy_world s) w'"
  then obtain i e a a' where tk: "token c' = Some (i, e)" and a: "t_get (w_agents (sy_world s)) i = Some a"
    "ag_lease_epoch a < e" and a': "t_get (w_agents w') i = Some a'" "e \<le> ag_lease_epoch a'"
    by (auto simp: fresh_token_def)
  have old: "token (sy_conns s ! j) \<noteq> Some (i, e)" if "j < length (sy_conns s)" for j
    using assms(1) that a unfolding tokens_ok_def by fastforce
  show ?thesis
    unfolding tokens_ok_def put_simps fst_conv snd_conv length_list_update
  proof (intro conjI allI impI)
    fix j i' e' assume j: "j < length (sy_conns s) \<and> token ((sy_conns s)[k := c'] ! j) = Some (i', e')"
    show "\<exists>a. t_get (w_agents w') i' = Some a \<and> e' \<le> ag_lease_epoch a"
    proof (cases "j = k")
      case True
      with j tk a' assms(2) show ?thesis by auto
    next
      case False
      with j assms(1) obtain b where "t_get (w_agents (sy_world s)) i' = Some b" "e' \<le> ag_lease_epoch b"
        unfolding tokens_ok_def by (metis nth_list_update_neq)
      with agents_evolveD [OF assms(3)] show ?thesis by (meson order.trans)
    qed
  next
    fix j l x
    assume jl: "j < length (sy_conns s) \<and> l < length (sy_conns s) \<and>
        token ((sy_conns s)[k := c'] ! j) = Some x \<and> token ((sy_conns s)[k := c'] ! l) = Some x"
    show "j = l"
    proof (cases "j = k \<or> l = k")
      case True
      then have "x = (i, e)" using jl tk by auto
      with True jl old show ?thesis by (metis nth_list_update_neq)
    next
      case False
      with jl assms(1) show ?thesis unfolding tokens_ok_def by (metis nth_list_update_neq)
    qed
  qed
qed

lemma system_ok_step:
  assumes st: "step env identify s s'" and ok: "system_ok s"
  shows "system_ok s'"
proof -
  have L: "ledger (sy_world s)" and T: "tokens_ok s" using ok by (simp_all add: system_ok_def)
  from keeps_step [OF st] L have L': "ledger (sy_world s')" and ev: "agents_evolve (sy_world s) (sy_world s')"
    by (simp_all add: keeps_def evolves_def)
  have world: "tokens_ok s'" if "sy_conns s' = sy_conns s"
    using tokens_ok_world [OF T ev, of "sy_conns s"] that by (cases s') simp
  have conn: "tokens_ok s'" if "s' = put k cw s" "k < length (sy_conns s)"
      "token (fst cw) = token (sy_conns s ! k) \<or> fresh_token (token (fst cw)) (sy_world s) (snd cw)" for k cw
    using tokens_ok_put [OF T that(2) _ that(3)] ev that(1) by simp
  have "tokens_ok s'"
    using st
  proof (cases rule: step.cases)
    case (connect cid)
    have "token (new_connection cid) = None" by (simp add: new_connection_def token_def)
    with connect T show ?thesis by (auto simp: tokens_ok_def nth_append)
  next
    case (frame k f)
    from receive_token [OF L] conn [OF frame] show ?thesis by blast
  next
    case (leave k)
    show ?thesis by (rule conn [OF leave]) (simp add: disconnect_def)
  next
    case (tick t)
    show ?thesis by (rule world) (simp add: tick(1))
  next
    case (http q)
    show ?thesis by (rule world) (simp add: http)
  next
    case (postman w)
    show ?thesis by (rule world) (simp add: postman(1))
  next
    case (timer w)
    show ?thesis by (rule world) (simp add: timer(1))
  next
    case reap
    show ?thesis by (rule world) (simp add: reap)
  next
    case sweep
    show ?thesis by (rule world) (simp add: sweep)
  next
    case (beat k)
    show ?thesis by (rule conn [OF beat]) simp
  next
    case (timeout k)
    show ?thesis by (rule conn [OF timeout]) simp
  next
    case (relay k)
    show ?thesis by (rule conn [OF relay]) simp
  next
    case (forward k ev)
    show ?thesis by (rule conn [OF forward]) simp
  next
    case (displace k initiator)
    show ?thesis by (rule conn [OF displace]) simp
  qed
  with L' show ?thesis by (simp add: system_ok_def)
qed

inductive reachable :: "rekuest_env \<Rightarrow> identify \<Rightarrow> world \<Rightarrow> system \<Rightarrow> bool" for env identify w0 where
  initial: "reachable env identify w0 \<lparr>sy_conns = [], sy_world = w0\<rparr>"
| next_step: "reachable env identify w0 s \<Longrightarrow> step env identify s s' \<Longrightarrow> reachable env identify w0 s'"

lemma reachable_ok:
  assumes "ledger w0" and "reachable env identify w0 s"
  shows "system_ok s" and "evolves w0 (sy_world s)"
proof -
  have "system_ok s \<and> evolves w0 (sy_world s)"
    using assms(2)
  proof (induction rule: reachable.induct)
    case initial
    with assms(1) show ?case by (simp add: system_ok_def tokens_ok_def)
  next
    case (next_step s s')
    from system_ok_step [OF next_step(2)] next_step(3) have "system_ok s'" by simp
    moreover have "evolves (sy_world s) (sy_world s')"
      using keeps_step [OF next_step(2)] next_step(3) by (simp add: keeps_def system_ok_def)
    ultimately show ?case using next_step(3) by (blast intro: evolves_trans)
  qed
  then show "system_ok s" "evolves w0 (sy_world s)" by simp_all
qed

end
