(* ===== verification/Example_World.thy ===== *)
theory Example_World
  imports System
begin

text \<open>
  A small concrete configuration the witnesses run on: one websocket agent seen at time 0, its
  caller, three actions (plain, idempotent, physical) with one implementation each and a wrapper of
  the first, and tasks that are open, done, or the wrapper's child.
\<close>

definition demo_env :: rekuest_env where
  "demo_env =
     \<lparr>agent_stale_after = None, agent_heartbeat_interval = 30000000,
      grace_cfg = \<lparr>gc_default = None, gc_physical = None, gc_progress_lease = None\<rparr>,
      prov_strict = False, prov_human_roles = [], prov_issuer = ''rekuest'', prov_kid = ''k1'',
      prov_ttl_seconds = 300, user_sub = (\<lambda>n. ''user''), org_slug = (\<lambda>n. ''org''),
      client_id_of = (\<lambda>n. ''client''), app_identifier_of = (\<lambda>n. ''app''),
      client_release = (\<lambda>n. 1), release_app = (\<lambda>n. 1), memberships = [],
      dump_json = (\<lambda>m. ''m''), sha256_hex = (\<lambda>s. s), hmac_sha256_hex = (\<lambda>k s. k @ s),
      jws_encode = (\<lambda>c. ''jws''), uuid4 = str_of_nat, random_choice = (\<lambda>n. n),
      post_succeeds = (\<lambda>p. True),
      dump_arg_port = (\<lambda>p. JDict [(''key'', JStr (po_key p))]),
      dump_return_port = (\<lambda>p. JDict [(''key'', JStr (po_key p))]),
      dump_port_group = (\<lambda>g. JDict []), dump_track = (\<lambda>t. JDict []),
      dump_definition = (\<lambda>d. [(''key'', JStr (df_key d))]),
      dump_state_definition = (\<lambda>d. [(''name'', JStr (sdi_name d))]),
      jsonb_path_match = (\<lambda>ob p. True), json_patch = (\<lambda>op d. Some d)\<rparr>"

definition demo_agent :: agent where
  "demo_agent =
     \<lparr>ag_app = 1, ag_hash = ''h'', ag_release = 1, ag_name = ''agent'', ag_health_check_interval = 300,
      ag_user = 1, ag_unique = ''u1'', ag_active_connection_id = Some ''c1'',
      ag_active_session_id = Some ''s1'', ag_lease_epoch = 3, ag_on_instance = ''all'',
      ag_kind = WEBSOCKET, ag_hook_url = None, ag_hook_url_secret = None, ag_connected = True,
      ag_last_seen = Some 0, ag_client = 1, ag_organization = 1, ag_blocked = False\<rparr>"

definition demo_action :: "bool \<Rightarrow> string \<Rightarrow> action" where
  "demo_action idem h =
     \<lparr>ac_app = 1, ac_key = h, ac_version = ''1'', ac_pure = False, ac_idempotent = idem,
      ac_stateful = False, ac_kind = FUNCTION, ac_name = h, ac_description = [], ac_scope = GLOBAL,
      ac_is_dev = False, ac_hash = h, ac_organization = 1, ac_args = [], ac_returns = [],
      ac_port_groups = [], ac_collections = [], ac_is_test_for = [], ac_protocols = [],
      ac_arg_count = 0, ac_return_count = 0\<rparr>"

definition demo_implementation :: "nat \<Rightarrow> effect_class \<Rightarrow> nat option \<Rightarrow> implementation" where
  "demo_implementation ac eff higher =
     \<lparr>im_release = 1, im_interface = ''f'', im_action = ac, im_agent = 1, im_name = ''f'',
      im_higher_order_for = higher, im_higher_order_config = [], im_params = [], im_tracks = [], im_manipulates = [],
      im_needs_token = True, im_provenance_audience = None, im_effect = eff\<rparr>"

definition demo_kick :: "string \<Rightarrow> to_agent_message" where
  "demo_kick s = Kick \<lparr>msg_id = s, ki_reason = None\<rparr>"

definition demo_task :: "nat \<Rightarrow> nat \<Rightarrow> nat option \<Rightarrow> string \<Rightarrow> task" where
  "demo_task impl ac parent ref =
     \<lparr>tk_acted_on = [], tk_implementation = Some impl, tk_resolution = None, tk_action = ac,
      tk_ephemeral = False, tk_hooks = [], tk_reference = ref, tk_dependency = None,
      tk_dependency_method = None, tk_capture = False, tk_parent = parent, tk_root = parent,
      tk_args = [], tk_args_hash = None, tk_dependencies = [], tk_caller = Some 1, tk_agent = 1,
      tk_latest_event_kind = STARTED, tk_latest_instruct_kind = I_ASSIGN, tk_is_done = False,
      tk_created_at = 0, tk_finished_at = None\<rparr>"

text \<open>Tasks: 1 plain, 2 idempotent, 3 physical, 4 a wrapper, 5 its child, 6 a finished plain task.\<close>

definition demo_world :: world where
  "demo_world = empty_world
     \<lparr>w_agents := \<lparr>rows = [(1, demo_agent)], seq = 1\<rparr>,
      w_callers := \<lparr>rows = [(1, \<lparr>cl_client = 1, cl_user = 1, cl_organization = 1\<rparr>)], seq = 1\<rparr>,
      w_actions := \<lparr>rows = [(1, demo_action False ''a1''), (2, demo_action True ''a2''),
                           (3, demo_action False ''a3''), (4, demo_action False ''a4'')], seq = 4\<rparr>,
      w_implementations := \<lparr>rows = [(1, demo_implementation 1 EFFECT_NONE None),
                                   (2, demo_implementation 2 EFFECT_NONE None),
                                   (3, demo_implementation 3 PHYSICAL None),
                                   (4, demo_implementation 4 EFFECT_NONE (Some 1))], seq = 4\<rparr>,
      w_tasks := \<lparr>rows = [(1, demo_task 1 1 None ''r1''), (2, demo_task 2 2 None ''r2''),
                         (3, demo_task 3 3 None ''r3''), (4, demo_task 4 4 None ''r4''),
                         (5, demo_task 1 1 (Some 4) ''r5''),
                         (6, mark_done COMPLETED 7 (demo_task 1 1 None ''r6''))], seq = 6\<rparr>,
      w_events := \<lparr>rows = [(1, (new_event 6 COMPLETED empty_world))], seq = 1\<rparr>\<rparr>"

text \<open>The same with the agent gone: not connected, its work still open.\<close>

definition gone_world :: world where
  "gone_world = demo_world
     \<lparr>w_agents := \<lparr>rows = [(1, demo_agent\<lparr>ag_connected := False\<rparr>)], seq = 1\<rparr>\<rparr>"

lemma demo_get [simp]:
  "t_get (w_agents demo_world) (Suc 0) = Some demo_agent"
  "t_get (w_agents gone_world) (Suc 0) = Some (demo_agent\<lparr>ag_connected := False\<rparr>)"
  "t_get (w_callers demo_world) (Suc 0) = Some \<lparr>cl_client = 1, cl_user = 1, cl_organization = 1\<rparr>"
  "t_get (w_tasks demo_world) (Suc 0) = Some (demo_task 1 1 None ''r1'')"
  "t_get (w_tasks demo_world) 2 = Some (demo_task 2 2 None ''r2'')"
  "t_get (w_tasks demo_world) 3 = Some (demo_task 3 3 None ''r3'')"
  "t_get (w_tasks demo_world) 4 = Some (demo_task 4 4 None ''r4'')"
  "t_get (w_tasks demo_world) 5 = Some (demo_task 1 1 (Some 4) ''r5'')"
  "t_get (w_tasks demo_world) 6 = Some (mark_done COMPLETED 7 (demo_task 1 1 None ''r6''))"
  "w_tasks gone_world = w_tasks demo_world" "w_events gone_world = w_events demo_world"
  "w_implementations gone_world = w_implementations demo_world"
  "w_actions gone_world = w_actions demo_world" "w_callers gone_world = w_callers demo_world"
  "now demo_world = 0" "now gone_world = 0"
  by (simp_all add: demo_world_def gone_world_def empty_world_def t_get_def)

lemma demo_implementations [simp]:
  "t_get (w_implementations demo_world) (Suc 0) = Some (demo_implementation 1 EFFECT_NONE None)"
  "t_get (w_implementations demo_world) 2 = Some (demo_implementation 2 EFFECT_NONE None)"
  "t_get (w_implementations demo_world) 3 = Some (demo_implementation 3 PHYSICAL None)"
  "t_get (w_implementations demo_world) 4 = Some (demo_implementation 4 EFFECT_NONE (Some 1))"
  by (simp_all add: demo_world_def t_get_def)

lemma demo_ledger: "ledger demo_world"
  unfolding ledger_def
proof (intro conjI allI impI)
  show "t_wf (w_tasks demo_world)" by (simp add: demo_world_def t_wf_def)
  show "\<forall>(j, ev) \<in> set (rows (w_events demo_world)). t_get (w_tasks demo_world) (te_task ev) \<noteq> None"
    by (simp add: demo_world_def t_get_def new_event_def)
  fix i t assume "t_get (w_tasks demo_world) i = Some t"
  then have "(i, t) \<in> set (rows (w_tasks demo_world))" by (auto simp: t_get_def dest: map_of_SomeD)
  then show "task_ledger (w_implementations demo_world) (w_events demo_world) i t"
    by (auto simp: demo_world_def task_ledger_def terminal_log_def demo_task_def mark_done_def
        new_event_def)
qed

lemma gone_ledger: "ledger gone_world"
  using demo_ledger by (simp add: ledger_def)

end
