(* ===== verification/Terminal_Contract.thy ===== *)
theory Terminal_Contract
  imports Lifecycle
begin

text \<open>
  What the transport relies on when an agent re-sends a terminal report until it is acknowledged:
  the handler ends the task once and is idle afterwards. The locale is interpreted by the five
  handlers of \<^verbatim>\<open>persist_backend.py\<close>.
\<close>

text \<open>\<open>n\<close> deliveries of the same message, one after the other.\<close>

fun redeliver :: "('w \<Rightarrow> unit outcome \<times> 'w) \<Rightarrow> nat \<Rightarrow> 'w \<Rightarrow> 'w" where
  "redeliver handle 0 w = w"
| "redeliver handle (Suc n) w = redeliver handle n (snd (handle w))"

locale terminal_handler =
  fixes handle :: "'w \<Rightarrow> unit outcome \<times> 'w"
    and lookup :: "'w \<Rightarrow> 't option"
    and finished :: "'t \<Rightarrow> bool"
    and rows_of :: "'w \<Rightarrow> 'd"
  assumes ends: "lookup w = Some t \<Longrightarrow> \<exists>t'. lookup (snd (handle w)) = Some t' \<and> finished t'"
    and idle: "lookup w = Some t \<Longrightarrow> finished t \<Longrightarrow>
      fst (handle w) = Inr () \<and> rows_of (snd (handle w)) = rows_of w"
begin

lemma resend_finished:
  "lookup w = Some t \<Longrightarrow> finished t \<Longrightarrow> rows_of (redeliver handle n w) = rows_of w"
proof (induction n arbitrary: w t)
  case 0
  then show ?case by simp
next
  case (Suc n)
  from ends [OF Suc.prems(1)] obtain t' where "lookup (snd (handle w)) = Some t'" "finished t'" by blast
  from Suc.IH [OF this] idle [OF Suc.prems] show ?case by simp
qed

text \<open>However often it is sent, a report leaves the rows its first delivery left.\<close>

lemma resend_once:
  assumes "lookup w = Some t"
  shows "rows_of (redeliver handle (Suc n) w) = rows_of (snd (handle w))"
proof -
  from ends [OF assms] obtain t' where "lookup (snd (handle w)) = Some t'" "finished t'" by blast
  from resend_finished [OF this] show ?thesis by simp
qed

lemma resend_accepted:
  assumes "lookup w = Some t"
  shows "fst (handle (redeliver handle (Suc n) w)) = Inr ()"
proof -
  have "\<exists>t'. lookup (redeliver handle (Suc n) w) = Some t' \<and> finished t'"
    using assms
  proof (induction n arbitrary: w t)
    case 0
    then show ?case using ends by simp
  next
    case (Suc n)
    from ends [OF Suc.prems] obtain t' where "lookup (snd (handle w)) = Some t'" by blast
    from Suc.IH [OF this] show ?case by simp
  qed
  then show ?thesis using idle by blast
qed

end

section \<open>The five handlers\<close>

definition find_task :: "string \<Rightarrow> world \<Rightarrow> (nat \<times> task) option" where
  "find_task s w = (case t_get_wire ''Task'' (w_tasks w) s of Inl _ \<Rightarrow> None | Inr it \<Rightarrow> Some it)"

text \<open>The rows of the ledger.\<close>

definition task_rows :: "world \<Rightarrow> task table \<times> task_event table" where
  "task_rows w = (w_tasks w, w_events w)"

lemma find_task_wire: "find_task s w = Some it \<longleftrightarrow> t_get_wire ''Task'' (w_tasks w) s = Inr it"
  by (auto simp: find_task_def split: sum.split)

lemma find_task_get:
  assumes "find_task s w = Some (i, t)" and "t_get (w_tasks w') i = Some t'"
  shows "find_task s w' = Some (i, t')"
  using assms by (auto simp: find_task_def t_get_wire_def split: option.splits if_splits sum.splits)

lemma unfold_keeps_done:
  assumes "k \<in> terminal_kinds" and "t_get (w_tasks w) i = Some t" and "tk_is_done t"
  shows "\<exists>t'. t_get (w_tasks (snd (unfold_to_higher_order env s k r msg w))) i = Some t' \<and> tk_is_done t'"
proof -
  have save: "\<exists>t'. t_get (t_upd p (mark_done k n) (w_tasks w)) i = Some t' \<and> tk_is_done t'" for p n
    using assms by (auto simp: t_get_upd)
  have ev: "w_tasks (snd (and_then (create_event env e w)
        (\<lambda>_ w1. (Inr (), save_task p (mark_done k (now w1)) w1)))) =
      (if t_get (w_tasks w) (te_task e) = None then w_tasks w
       else t_upd p (mark_done k (now w)) (w_tasks w))" for e p
    by (simp add: create_event_def)
  show ?thesis
    using assms save
    by (auto simp: unfold_to_higher_order_def ev split: sum.split exc.split option.split prod.split)
qed

lemma report_terminal_ends:
  assumes k: "k \<in> terminal_kinds" and f: "find_task s w = Some (i, t)"
  shows "\<exists>t'. find_task s (snd (report_terminal env tol k msg s w)) = Some (i, t') \<and> tk_is_done t'"
proof -
  have wire: "t_get_wire ''Task'' (w_tasks w) s = Inr (i, t)" using f by (simp add: find_task_wire)
  have t: "t_get (w_tasks w) i = Some t" by (rule t_get_wire_InrD [OF wire])
  show ?thesis
  proof (cases "tk_is_done t")
    case True
    with report_terminal_done [OF wire] f show ?thesis by (auto simp: find_task_def)
  next
    case False
    let ?w1 = "snd (create_event env ((new_event i k w)\<lparr>te_message := msg\<rparr>) (cancel_timers s w))"
    let ?w2 = "save_task i (mark_done k (now w)) ?w1"
    have "t_get (w_tasks ?w2) i = Some (mark_done k (now w) t)" using t by (simp add: t_get_upd)
    from unfold_keeps_done [OF k this, of env s None msg]
    obtain t' where t': "t_get (w_tasks (snd (report_terminal env tol k msg s w))) i = Some t'" "tk_is_done t'"
      by (auto simp: report_terminal_open [OF wire False] Let_def)
    from find_task_get [OF f t'(1)] t'(2) show ?thesis by blast
  qed
qed

lemma report_terminal_idle:
  assumes "find_task s w = Some (i, t)" and "tk_is_done t"
  shows "fst (report_terminal env tol k msg s w) = Inr () \<and>
         task_rows (snd (report_terminal env tol k msg s w)) = task_rows w"
  using report_terminal_done [of w s i t] assms by (simp add: find_task_wire task_rows_def)

lemma report_terminal_contract:
  "k \<in> terminal_kinds \<Longrightarrow>
   terminal_handler (report_terminal env tol k msg s) (find_task s) (\<lambda>(i, t). tk_is_done t) task_rows"
proof
  assume k: "k \<in> terminal_kinds"
  fix w it
  assume "find_task s w = Some it"
  then show "\<exists>t'. find_task s (snd (report_terminal env tol k msg s w)) = Some t' \<and>
      (\<lambda>(i, t). tk_is_done t) t'"
    using report_terminal_ends [OF k] by (cases it) fastforce
next
  fix w it
  assume "find_task s w = Some it" and "(\<lambda>(i, t). tk_is_done t) it"
  then show "fst (report_terminal env tol k msg s w) = Inr () \<and>
      task_rows (snd (report_terminal env tol k msg s w)) = task_rows w"
    using report_terminal_idle by (cases it) auto
qed

interpretation interrupted_handler:
  terminal_handler "on_agent_interrupted env a m" "find_task (interrupted_task m)" "\<lambda>(i, t). tk_is_done t" task_rows
  unfolding terminal_handlers by (rule report_terminal_contract) simp

interpretation done_handler:
  terminal_handler "on_agent_done env a m" "find_task (completed_task m)" "\<lambda>(i, t). tk_is_done t" task_rows
  unfolding terminal_handlers by (rule report_terminal_contract) simp

interpretation cancelled_handler:
  terminal_handler "on_agent_cancelled env a m" "find_task (cancelled_task m)" "\<lambda>(i, t). tk_is_done t" task_rows
  unfolding terminal_handlers by (rule report_terminal_contract) simp

interpretation error_handler:
  terminal_handler "on_agent_error env a m" "find_task (failed_task m)" "\<lambda>(i, t). tk_is_done t" task_rows
  unfolding terminal_handlers by (rule report_terminal_contract) simp

interpretation critical_handler:
  terminal_handler "on_agent_critical env a m" "find_task (critical_task m)" "\<lambda>(i, t). tk_is_done t" task_rows
  unfolding terminal_handlers by (rule report_terminal_contract) simp

end
