(* ===== verification/Task_Properties.thy ===== *)
theory Task_Properties
  imports Example_World Terminal_Contract
begin

text \<open>
  Properties of tasks: what a report does to a task and to its wrapper, that a report sent again is
  idle, and what becomes of the work of an executor that is gone.
\<close>

section \<open>Reports through the router\<close>

text \<open>The task, the kind and the message of a terminal report.\<close>

fun terminal_report :: "from_agent_message \<Rightarrow> (string \<times> task_event_kind \<times> string option) option" where
  "terminal_report (Completed m) = Some (completed_task m, COMPLETED, None)"
| "terminal_report (Cancelled m) = Some (cancelled_task m, CANCELLED, None)"
| "terminal_report (Interrupted m) = Some (interrupted_task m, INTERRUPTED, None)"
| "terminal_report (Failed m) = Some (failed_task m, FAILED, Some (failed_error m))"
| "terminal_report (Critical m) = Some (critical_task m, CRITICAL, Some (critical_error m))"
| "terminal_report _ = None"

fun report_id :: "from_agent_message \<Rightarrow> string" where
  "report_id (Completed m) = msg_id m"
| "report_id (Cancelled m) = msg_id m"
| "report_id (Interrupted m) = msg_id m"
| "report_id (Failed m) = msg_id m"
| "report_id (Critical m) = msg_id m"
| "report_id _ = []"

definition acks :: "string \<Rightarrow> string \<Rightarrow> to_agent_message option outcome \<Rightarrow> bool" where
  "acks event task r \<longleftrightarrow>
     (case r of Inr (Some (EventAck a)) \<Rightarrow> ea_event a = event \<and> ea_task a = Some task | _ \<Rightarrow> False)"

lemma terminal_report_kind: "terminal_report m = Some (s, k, msg) \<Longrightarrow> k \<in> terminal_kinds"
  by (cases m) auto

lemma acked_ok:
  "fst r = Inr () \<Longrightarrow> acks (msg_id m) s (fst (acked env m s r)) \<and>
   task_rows (snd (acked env m s r)) = task_rows (snd r) \<and> w_redis (snd (acked env m s r)) = w_redis (snd r)"
  by (cases r) (simp add: acked_def ack_def acks_def task_rows_def fresh_uuid_def)

lemma route_terminal:
  assumes "terminal_report m = Some (s, k, msg)"
  shows "\<exists>tol. (fst (report_terminal env tol k msg s w) = Inr () \<longrightarrow>
           acks (report_id m) s (fst (route_from_agent_message env a m w)) \<and>
           task_rows (snd (route_from_agent_message env a m w)) =
             task_rows (snd (report_terminal env tol k msg s w)))"
  by (rule exI [of _ "case m of Interrupted _ \<Rightarrow> True | _ \<Rightarrow> False"])
    (use assms in \<open>cases m; auto simp: terminal_handlers acked_ok\<close>)

lemma unfold_plain:
  "t_get_wire ''Task'' (w_tasks v) s = Inr (c, child) \<Longrightarrow> wrapper_of v child = None \<Longrightarrow>
   unfold_to_higher_order env s k r msg v = (Inr (), v)"
  by (simp add: unfold_to_higher_order_def)

text \<open>The rows after an event and a status change.\<close>

lemma report_terminal_plain:
  assumes wire: "t_get_wire ''Task'' (w_tasks w) s = Inr (i, t)" and op: "\<not> tk_is_done t"
    and plain: "wrapper_of w t = None"
  shows "report_terminal env tol k msg s w =
    (Inr (), save_task i (mark_done k (now w))
      (snd (create_event env ((new_event i k w)\<lparr>te_message := msg\<rparr>) (cancel_timers s w))))"
proof -
  have t: "t_get (w_tasks w) i = Some t" by (rule t_get_wire_InrD [OF wire])
  let ?w2 = "save_task i (mark_done k (now w))
      (snd (create_event env ((new_event i k w)\<lparr>te_message := msg\<rparr>) (cancel_timers s w)))"
  have get: "t_get_wire ''Task'' (w_tasks ?w2) s = Inr (i, mark_done k (now w) t)"
  proof -
    have "find_task s ?w2 = Some (i, mark_done k (now w) t)"
      by (rule find_task_get [where w = w and t = t]) (use wire t in \<open>simp_all add: find_task_wire t_get_upd\<close>)
    then show ?thesis by (simp add: find_task_wire)
  qed
  have "wrapper_of ?w2 (mark_done k (now w) t) = None"
  proof (cases "tk_parent t")
    case None
    then show ?thesis by (simp add: wrapper_of_def)
  next
    case (Some p)
    have "Option.bind (t_get (w_tasks ?w2) p) (\<lambda>pt. Option.bind (tk_implementation pt) (t_get (w_implementations w))) =
        Option.bind (t_get (w_tasks w) p) (\<lambda>pt. Option.bind (tk_implementation pt) (t_get (w_implementations w)))"
      by (cases "p = i"; cases "t_get (w_tasks w) p") (simp_all add: t_get_upd)
    with Some plain show ?thesis by (simp add: wrapper_of_def)
  qed
  from unfold_plain [OF get this] show ?thesis
    by (simp only: report_terminal_open [OF wire op] Let_def)
qed

text \<open>
  C6. A terminal report on an open task that has no wrapper above it is acknowledged, writes exactly
  one event, of the reported kind and with the reported error, and ends the task with that status at
  the time of the report; every other task row is as before.
\<close>

theorem terminal_report_effect:
  assumes "terminal_report m = Some (s, k, msg)"
    and "t_get_wire ''Task'' (w_tasks w) s = Inr (i, t)" and "\<not> tk_is_done t"
    and "wrapper_of w t = None"
  shows "acks (report_id m) s (fst (route_from_agent_message env a m w)) \<and>
         w_tasks (snd (route_from_agent_message env a m w)) = t_upd i (mark_done k (now w)) (w_tasks w) \<and>
         w_events (snd (route_from_agent_message env a m w)) =
           t_add ((new_event i k w)\<lparr>te_message := msg\<rparr>) (w_events w)"
proof -
  obtain tol where "fst (report_terminal env tol k msg s w) = Inr () \<longrightarrow>
           acks (report_id m) s (fst (route_from_agent_message env a m w)) \<and>
           task_rows (snd (route_from_agent_message env a m w)) =
             task_rows (snd (report_terminal env tol k msg s w))"
    using route_terminal [OF assms(1)] by blast
  with report_terminal_plain [OF assms(2,3,4), of env tol k msg]
  have "acks (report_id m) s (fst (route_from_agent_message env a m w))"
    and rows: "task_rows (snd (route_from_agent_message env a m w)) =
      task_rows (save_task i (mark_done k (now w))
        (snd (create_event env ((new_event i k w)\<lparr>te_message := msg\<rparr>) (cancel_timers s w))))" by simp_all
  then show ?thesis
    using t_get_wire_InrD [OF assms(2)] by (simp add: task_rows_def)
qed

definition demo_failed :: failed where
  "demo_failed = \<lparr>msg_id = ''m1'', fae_seq = Some 4, failed_task = str_of_nat 1, failed_error = ''boom''\<rparr>"

lemma terminal_report_effect_witness:
  "acks ''m1'' (str_of_nat 1) (fst (route_from_agent_message demo_env 1 (Failed demo_failed) demo_world)) \<and>
   w_tasks (snd (route_from_agent_message demo_env 1 (Failed demo_failed) demo_world)) =
     t_upd 1 (mark_done FAILED 0) (w_tasks demo_world)"
proof -
  have "terminal_report (Failed demo_failed) = Some (str_of_nat 1, FAILED, Some ''boom'')"
    by (simp add: demo_failed_def)
  moreover have "t_get_wire ''Task'' (w_tasks demo_world) (str_of_nat 1) = Inr (1, demo_task 1 1 None ''r1'')"
    by simp
  moreover have "wrapper_of demo_world (demo_task 1 1 None ''r1'') = None"
    by (simp add: wrapper_of_def demo_task_def)
  ultimately show ?thesis
    using terminal_report_effect [of "Failed demo_failed" "str_of_nat 1" FAILED "Some ''boom''" demo_world 1
        "demo_task 1 1 None ''r1''" demo_env 1]
    by (simp add: demo_task_def demo_failed_def)
qed

text \<open>
  A terminal report that is sent again, as agents do until they see the acknowledgement, is
  accepted each time and leaves the task and event tables as its first delivery left them. This
  holds for each of the five reports.
\<close>

theorem terminal_report_dedup:
  assumes "find_task s w = Some it"
    and "completed_task m1 = s" and "cancelled_task m2 = s" and "interrupted_task m3 = s"
    and "failed_task m4 = s" and "critical_task m5 = s"
  shows "task_rows (redeliver (on_agent_done env a m1) (Suc n) w) = task_rows (snd (on_agent_done env a m1 w)) \<and>
    fst (on_agent_done env a m1 (redeliver (on_agent_done env a m1) (Suc n) w)) = Inr () \<and>
    task_rows (redeliver (on_agent_cancelled env a m2) (Suc n) w) = task_rows (snd (on_agent_cancelled env a m2 w)) \<and>
    task_rows (redeliver (on_agent_interrupted env a m3) (Suc n) w) = task_rows (snd (on_agent_interrupted env a m3 w)) \<and>
    task_rows (redeliver (on_agent_error env a m4) (Suc n) w) = task_rows (snd (on_agent_error env a m4 w)) \<and>
    task_rows (redeliver (on_agent_critical env a m5) (Suc n) w) = task_rows (snd (on_agent_critical env a m5 w))"
proof (intro conjI)
  note f = assms(1)
  show "task_rows (redeliver (on_agent_done env a m1) (Suc n) w) = task_rows (snd (on_agent_done env a m1 w))"
    by (rule done_handler.resend_once) (use f assms in simp)
  show "fst (on_agent_done env a m1 (redeliver (on_agent_done env a m1) (Suc n) w)) = Inr ()"
    by (rule done_handler.resend_accepted) (use f assms in simp)
  show "task_rows (redeliver (on_agent_cancelled env a m2) (Suc n) w) = task_rows (snd (on_agent_cancelled env a m2 w))"
    by (rule cancelled_handler.resend_once) (use f assms in simp)
  show "task_rows (redeliver (on_agent_interrupted env a m3) (Suc n) w) = task_rows (snd (on_agent_interrupted env a m3 w))"
    by (rule interrupted_handler.resend_once) (use f assms in simp)
  show "task_rows (redeliver (on_agent_error env a m4) (Suc n) w) = task_rows (snd (on_agent_error env a m4 w))"
    by (rule error_handler.resend_once) (use f assms in simp)
  show "task_rows (redeliver (on_agent_critical env a m5) (Suc n) w) = task_rows (snd (on_agent_critical env a m5 w))"
    by (rule critical_handler.resend_once) (use f assms in simp)
qed

lemma terminal_report_dedup_witness:
  "task_rows (redeliver (on_agent_error demo_env 1 demo_failed) 3 demo_world) =
   task_rows (snd (on_agent_error demo_env 1 demo_failed demo_world))"
proof -
  have "find_task (str_of_nat 1) demo_world = Some (1, demo_task 1 1 None ''r1'')"
    by (simp add: find_task_wire)
  from terminal_report_dedup [OF this, where ?m1.0 = "\<lparr>msg_id = [], fae_seq = None, completed_task = str_of_nat 1\<rparr>"
      and ?m2.0 = "\<lparr>msg_id = [], fae_seq = None, cancelled_task = str_of_nat 1\<rparr>"
      and ?m3.0 = "\<lparr>msg_id = [], fae_seq = None, interrupted_task = str_of_nat 1\<rparr>"
      and ?m4.0 = demo_failed
      and ?m5.0 = "\<lparr>msg_id = [], fae_seq = None, critical_task = str_of_nat 1, critical_error = []\<rparr>"
      and n = 2 and env = demo_env and a = 1]
  show ?thesis by (simp add: demo_failed_def numeral_3_eq_3 numeral_2_eq_2)
qed

section \<open>Wrappers\<close>


definition demo_completed :: "nat \<Rightarrow> completed" where
  "demo_completed i = \<lparr>msg_id = ''m2'', fae_seq = None, completed_task = str_of_nat i\<rparr>"


definition ended_wrapper_world :: world where
  "ended_wrapper_world = demo_world\<lparr>w_tasks := t_upd 4 (mark_done FAILED 9) (w_tasks demo_world)\<rparr>"

text \<open>
  A yield of the child is unfolded onto a wrapper that has already ended: the wrapper stays done
  but its status is a yield again. Unfolding does not ask whether the wrapper is done.
\<close>

theorem wrapper_status_regresses:
  "tk_latest_event_kind (the (t_get (w_tasks ended_wrapper_world) 4)) = FAILED \<and>
   tk_is_done (the (t_get (w_tasks (snd (on_agent_yield demo_env 1
     \<lparr>msg_id = ''m'', fae_seq = None, yield_task = str_of_nat 5, yield_returns = None\<rparr> ended_wrapper_world))) 4)) \<and>
   tk_latest_event_kind (the (t_get (w_tasks (snd (on_agent_yield demo_env 1
     \<lparr>msg_id = ''m'', fae_seq = None, yield_task = str_of_nat 5, yield_returns = None\<rparr> ended_wrapper_world))) 4)) = YIELD"
proof -
  have get: "t_get (w_tasks ended_wrapper_world) 5 = Some (demo_task 1 1 (Some 4) ''r5'')"
    "t_get (w_tasks ended_wrapper_world) 4 = Some (mark_done FAILED 9 (demo_task 4 4 None ''r4''))"
    by (simp_all add: ended_wrapper_world_def t_get_upd)
  let ?ev = "(new_event 5 YIELD ended_wrapper_world)\<lparr>te_returns := None\<rparr>"
  let ?w1 = "snd (create_event demo_env ?ev ended_wrapper_world)"
  have wire: "wire_key (str_of_nat 5) = Inr 5" by (simp add: wire_key_def)
  have "t_get_wire ''Task'' (w_tasks ?w1) (str_of_nat 5) = Inr (5, demo_task 1 1 (Some 4) ''r5'')"
    by (simp add: get)
  moreover have "wrapper_of ?w1 (demo_task 1 1 (Some 4) ''r5'') = Some (4, [])"
    by (simp add: wrapper_of_def demo_task_def ended_wrapper_world_def demo_implementation_def t_get_upd)
  ultimately show ?thesis
    by (simp add: on_agent_yield_def create_event_wire_def wire and_then_create_event get
        unfold_to_higher_order_def t_get_upd)
qed

end
