(* ===== verification/Reconcile_Properties.thy ===== *)
theory Reconcile_Properties
  imports Task_Properties
begin

text \<open>
  What becomes of the work of an executor that is gone: the fate of one task, that a transition is
  claimed once, and what a whole reconciliation leaves behind.
\<close>

section \<open>One task\<close>

lemma claim_then_won:
  assumes "t_get (w_tasks w) i = Some t" and "\<not> tk_is_done t" and "skip \<noteq> Some (tk_latest_event_kind t)"
  shows "claim_then env i k d skip msg after w =
    after (snd (create_event env ((new_event i k w)\<lparr>te_message := Some msg\<rparr>)
                 (save_task i (if d then mark_done k (now w) else mark_kind k) w)))"
proof -
  let ?w1 = "save_task i (if d then mark_done k (now w) else mark_kind k) w"
  have ev: "new_event i k ?w1 = new_event i k w" by (simp add: new_event_def)
  have "t_get (w_tasks ?w1) i \<noteq> None" using assms(1) by (simp add: t_get_upd)
  then obtain t1 where "t_get (w_tasks ?w1) i = Some t1" by blast
  then show ?thesis
    using assms by (simp add: claim_then_def claim_task_transition_sync_def ev and_then_create_event)
qed

lemma claim_then_lost:
  assumes "t_get (w_tasks w) i = Some t" and "tk_is_done t \<or> skip = Some (tk_latest_event_kind t)"
  shows "claim_then env i k d skip msg after w = (Inr (), w)"
  using assms by (auto simp: claim_then_def claim_task_transition_sync_def)

lemma mint_lax:
  assumes "\<not> prov_strict env" and "Option.bind (tk_implementation t) (t_get (w_implementations w)) = Some im"
    and "t_get (w_agents w) (tk_agent t) = Some ag"
  shows "\<exists>token. fst (mint_token_for_task env i t ctx w) = Inr token"
  using assms by (simp add: mint_token_for_task_def Let_def split: prod.split)

text \<open>Without a strict policy a task with all its identity always gets a message.\<close>

lemma build_redispatch_lax:
  assumes "t_get (w_tasks w) i = Some t" and "\<not> prov_strict env"
    and "Option.bind (tk_implementation t) (t_get (w_implementations w)) = Some im"
    and "Option.bind (tk_caller t) (t_get (w_callers w)) = Some cl"
    and "t_get (w_actions w) (tk_action t) = Some ac" and "t_get (w_agents w) (tk_agent t) = Some ag"
  obtains m w1 where "build_redispatch_assign_sync env i w = (Inr (Some m), w1)"
    "as_task m = str_of_nat i" "as_args m = tk_args t" "as_reference m = Some (tk_reference t)"
    "as_implementation m = str_of_nat (the (tk_implementation t))"
    "db w1 = db w" "w_redis w1 = w_redis w"
proof -
  let ?ctx = "\<lparr>cx_user = cl_user cl, cx_client = Some (cl_client cl),
               cx_organization = Some (cl_organization cl), cx_roles = []\<rparr>"
  obtain token w1 where mint: "mint_token_for_task env i t ?ctx w = (Inr token, w1)"
    using mint_lax [OF assms(2,3,6)] by (metis prod.collapse)
  have w1: "db w1 = db w" "w_redis w1 = w_redis w"
    using db_mint [of env i t ?ctx w] redis_mint [of env i t ?ctx w] mint by simp_all
  show ?thesis
    by (rule that [of _ "snd (fresh_uuid env w1)"],
        simp add: build_redispatch_assign_sync_def assms mint Let_def fresh_uuid_def) (simp_all add: w1)
qed

text \<open>The events of a world after one was created for a task that exists.\<close>

definition logged :: "nat \<Rightarrow> task_event_kind \<Rightarrow> string \<Rightarrow> world \<Rightarrow> task_event table" where
  "logged i k msg w = t_add ((new_event i k w)\<lparr>te_message := Some msg\<rparr>) (w_events w)"

text \<open>
  C8. Physical work whose executor is lost is never run again: the task ends as critical with one
  event that says so, and nothing is queued for any agent.
\<close>

theorem physical_fate:
  assumes "t_get (w_tasks w) i = Some t" and "\<not> tk_is_done t" and "task_effect w t = PHYSICAL"
  shows "fst (fail_one env (i, t) w) = Inr () \<and>
         w_tasks (snd (fail_one env (i, t) w)) = t_upd i (mark_done CRITICAL (now w)) (w_tasks w) \<and>
         w_events (snd (fail_one env (i, t) w)) = logged i CRITICAL PHYSICAL_LOST w \<and>
         w_redis (snd (fail_one env (i, t) w)) = w_redis w"
proof -
  let ?w = "w\<lparr>auto_interrupt := gs_cancel (str_of_nat i) (auto_interrupt w)\<rparr>"
  have eff: "task_effect ?w t = PHYSICAL" using assms(3) by (simp add: task_effect_def)
  have ev: "new_event i CRITICAL ?w = new_event i CRITICAL w" by (simp add: new_event_def)
  show ?thesis
    unfolding fail_one_def prod.case Let_def using assms eff
    by (simp add: claim_then_won [where t = t] ev logged_def t_get_upd)
qed

lemma physical_fate_witness:
  "w_tasks (snd (fail_one demo_env (3, demo_task 3 3 None ''r3'') gone_world)) =
     t_upd 3 (mark_done CRITICAL 0) (w_tasks gone_world)"
  using physical_fate [of gone_world 3 "demo_task 3 3 None ''r3''" demo_env]
  by (simp add: task_effect_def demo_task_def demo_implementation_def)

text \<open>The middle branch in full.\<close>

lemma requeue_one:
  assumes "t_get (w_tasks w) i = Some t" and "\<not> tk_is_done t"
    and "task_effect w t \<noteq> PHYSICAL" and "task_idempotent w t" and "tk_latest_event_kind t \<noteq> QUEUED"
    and "Option.bind (tk_implementation t) (t_get (w_implementations w)) = Some im"
    and "Option.bind (tk_caller t) (t_get (w_callers w)) = Some cl"
    and "t_get (w_agents w) (tk_agent t) = Some ag" and "ag_kind ag = WEBSOCKET" and "\<not> prov_strict env"
  shows "\<exists>m. as_task m = str_of_nat i \<and> as_args m = tk_args t \<and> as_reference m = Some (tk_reference t) \<and>
           as_implementation m = str_of_nat (the (tk_implementation t)) \<and>
           fst (fail_one env (i, t) w) = Inr () \<and>
           w_tasks (snd (fail_one env (i, t) w)) = t_upd i (mark_kind QUEUED) (w_tasks w) \<and>
           w_events (snd (fail_one env (i, t) w)) = logged i QUEUED REQUEUED w \<and>
           w_redis (snd (fail_one env (i, t) w)) =
             redis_push (str_of_nat (tk_agent t)) (Assign m) (w_redis w)"
proof -
  let ?w = "w\<lparr>auto_interrupt := gs_cancel (str_of_nat i) (auto_interrupt w)\<rparr>"
  have eff: "task_effect ?w t \<noteq> PHYSICAL" "task_idempotent ?w t"
    using assms(3,4) by (simp_all add: task_effect_def task_idempotent_def)
  obtain ac where ac: "t_get (w_actions w) (tk_action t) = Some ac"
    using assms(4) by (auto simp: task_idempotent_def split: option.splits)
  obtain m w1 where m: "build_redispatch_assign_sync env i ?w = (Inr (Some m), w1)"
    and f: "as_task m = str_of_nat i" "as_args m = tk_args t" "as_reference m = Some (tk_reference t)"
      "as_implementation m = str_of_nat (the (tk_implementation t))"
    and w1: "db w1 = db ?w" "w_redis w1 = w_redis ?w"
    by (rule build_redispatch_lax [of ?w i t env im cl ac ag]) (use assms ac in simp_all)
  note fr = db_eqD [OF w1(1)]
  have ev: "new_event i QUEUED w1 = new_event i QUEUED w" using fr(1) by (simp add: new_event_def)
  have one: "fail_one env (i, t) w =
      broadcast_to env (tk_agent t) (Assign m)
        (snd (create_event env ((new_event i QUEUED w)\<lparr>te_message := Some REQUEUED\<rparr>)
           (save_task i (mark_kind QUEUED) w1)))"
    unfolding fail_one_def prod.case Let_def using eff assms(1,2,5) m fr
    by (simp add: claim_then_won [where t = t] ev)
  have ag: "t_get (w_agents (snd (create_event env e (save_task i (mark_kind QUEUED) w1)))) (tk_agent t) = Some ag"
    for e using assms(8) fr by simp
  show ?thesis
    by (rule exI [of _ m])
      (use f fr w1(2) assms(1,9) ag in \<open>simp add: one deliver_to_agent_def logged_def t_get_upd broadcast_to_def\<close>)
qed



text \<open>
  Other work of a lost executor is neither ended nor queued again: it stays open with the status
  disconnected and one event that its fate is unknown; when the status already was disconnected no
  row changes at all.
\<close>

theorem unknown_fate:
  assumes "t_get (w_tasks w) i = Some t" and "\<not> tk_is_done t"
    and "task_effect w t \<noteq> PHYSICAL" and "\<not> task_idempotent w t"
  shows "fst (fail_one env (i, t) w) = Inr () \<and>
         w_redis (snd (fail_one env (i, t) w)) = w_redis w \<and>
         task_rows (snd (fail_one env (i, t) w)) =
           (if tk_latest_event_kind t = DISCONNECTED then task_rows w
            else (t_upd i (mark_kind DISCONNECTED) (w_tasks w), logged i DISCONNECTED FATE_UNKNOWN w))"
proof -
  let ?w = "w\<lparr>auto_interrupt := gs_cancel (str_of_nat i) (auto_interrupt w)\<rparr>"
  have eff: "task_effect ?w t \<noteq> PHYSICAL" "\<not> task_idempotent ?w t"
    using assms(3,4) by (simp_all add: task_effect_def task_idempotent_def)
  have ev: "new_event i DISCONNECTED ?w = new_event i DISCONNECTED w" by (simp add: new_event_def)
  show ?thesis
  proof (cases "tk_latest_event_kind t = DISCONNECTED")
    case True
    then show ?thesis
      unfolding fail_one_def prod.case Let_def disconnected_fate_def using assms eff
      by (simp add: claim_then_lost [where t = t] task_rows_def)
  next
    case False
    then show ?thesis
      unfolding fail_one_def prod.case Let_def disconnected_fate_def using assms eff
      by (simp add: claim_then_won [where t = t] ev task_rows_def logged_def t_get_upd)
  qed
qed

lemma unknown_fate_witness:
  "task_rows (snd (fail_one demo_env (1, demo_task 1 1 None ''r1'') gone_world)) =
     (t_upd 1 (mark_kind DISCONNECTED) (w_tasks gone_world), logged 1 DISCONNECTED FATE_UNKNOWN gone_world)"
proof -
  have "t_get (w_actions demo_world) 1 = Some (demo_action False ''a1'')"
    by (simp add: demo_world_def t_get_def)
  with unknown_fate [of gone_world 1 "demo_task 1 1 None ''r1''" demo_env]
  show ?thesis
    by (simp add: task_effect_def task_idempotent_def demo_task_def demo_implementation_def demo_action_def)
qed



text \<open>Clock, agents, callers, actions, implementations and grace timers are not a reconciler's to change.\<close>

definition same_static :: "world \<Rightarrow> world \<Rightarrow> bool" where
  "same_static w w' \<longleftrightarrow>
     now w' = now w \<and> w_agents w' = w_agents w \<and> w_callers w' = w_callers w \<and>
     w_actions w' = w_actions w \<and> w_implementations w' = w_implementations w \<and>
     executor_grace w' = executor_grace w"

lemma same_static_trans: "same_static u v \<Longrightarrow> same_static v w \<Longrightarrow> same_static u w"
  by (simp add: same_static_def)

lemma claim_then_static:
  assumes "\<And>v. same_static v (snd (after v))"
  shows "same_static w (snd (claim_then env i k d skip msg after w))"
proof (cases rule: claim_then_cases [of env i k d skip msg after w])
  case lost
  then show ?thesis by (simp add: same_static_def)
next
  case (won t w1 w2)
  have "same_static w w2" unfolding won(3,4) by (simp add: same_static_def)
  with assms [of w2] show ?thesis unfolding won(6) by (rule same_static_trans [rotated])
qed

lemma fail_one_static: "same_static w (snd (fail_one env (i, t) w))"
proof -
  let ?w = "w\<lparr>auto_interrupt := gs_cancel (str_of_nat i) (auto_interrupt w)\<rparr>"
  have skip: "same_static v (snd (Pair (Inr ()) v))" and send: "same_static v (snd (broadcast_to env b m v))"
    for b m v by (simp_all add: same_static_def)
  have unknown: "same_static v (snd (disconnected_fate env i v))" for v
    unfolding disconnected_fate_def by (rule claim_then_static) (rule skip)
  have physical: "same_static v (snd (claim_then env i CRITICAL True None PHYSICAL_LOST (Pair (Inr ())) v))" for v
    by (rule claim_then_static) (rule skip)
  have again: "same_static v (snd (claim_then env i QUEUED False (Some QUEUED) REQUEUED (broadcast_to env b m) v))"
    for b m v by (rule claim_then_static) (rule send)
  obtain r w1 where r: "build_redispatch_assign_sync env i ?w = (r, w1)" by (cases "build_redispatch_assign_sync env i ?w")
  then have "db w1 = db ?w" using db_build_redispatch [of env i ?w] by simp
  from db_eqD [OF this] have w1: "same_static w w1" by (simp add: same_static_def)
  have w: "same_static w v" if "same_static ?w v" for v using that by (simp add: same_static_def)
  show ?thesis
    unfolding fail_one_def prod.case Let_def r
    using w [OF physical] w [OF unknown] same_static_trans [OF w1 unknown] same_static_trans [OF w1 again] w1
    by (cases r) (auto split: option.split)
qed

lemma cascade_static: "same_static w (snd (fail_and_cascade_inflight env its w))"
proof (induction its arbitrary: w)
  case Nil
  then show ?case by (simp add: same_static_def)
next
  case (Cons it its)
  obtain i t where "it = (i, t)" by (cases it)
  then show ?case
    using fail_one_static [of w env i t] Cons.IH
    by (auto simp: and_then_def split: prod.split sum.split) (metis same_static_trans snd_conv)
qed

section \<open>A whole reconciliation\<close>

definition settled :: "world \<Rightarrow> task \<Rightarrow> task \<Rightarrow> bool" where
  "settled w t t' \<longleftrightarrow>
     (if task_effect w t = PHYSICAL then t' = mark_done CRITICAL (now w) t
      else t' = mark_kind QUEUED t \<or> t' = mark_kind DISCONNECTED t)"

lemma settled_cong:
  "now v = now w \<Longrightarrow> w_implementations v = w_implementations w \<Longrightarrow> settled v t = settled w t"
  by (simp add: settled_def task_effect_def fun_eq_iff)

text \<open>What one iteration leaves: its own row settled, all else the next one reads as it was.\<close>

definition settles :: "nat \<Rightarrow> task \<Rightarrow> world \<Rightarrow> unit outcome \<times> world \<Rightarrow> bool" where
  "settles i t w r \<longleftrightarrow>
     fst r = Inr () \<and> now (snd r) = now w \<and> w_agents (snd r) = w_agents w \<and>
     w_implementations (snd r) = w_implementations w \<and>
     (\<exists>t'. settled w t t' \<and> w_tasks (snd r) = t_upd i (\<lambda>_. t') (w_tasks w))"

lemma t_upd_same_row: "t_wf tb \<Longrightarrow> t_get tb i = Some r \<Longrightarrow> t_upd i f tb = t_upd i (\<lambda>_. f r) tb"
proof -
  assume wf: "t_wf tb" and r: "t_get tb i = Some r"
  have "map (\<lambda>(j, r). (j, if j = i then f r else r)) (rows tb) =
      map (\<lambda>(j, r'). (j, if j = i then f r else r')) (rows tb)"
    using r by (intro map_cong refl) (auto simp: t_get_rows [OF wf])
  then show ?thesis by (simp add: t_upd_def)
qed

lemma t_upd_row_id: "t_wf tb \<Longrightarrow> t_get tb i = Some r \<Longrightarrow> t_upd i (\<lambda>_. r) tb = tb"
proof -
  assume wf: "t_wf tb" and r: "t_get tb i = Some r"
  have "map (\<lambda>(j, r'). (j, if j = i then r else r')) (rows tb) = rows tb"
    using r by (intro map_idI) (auto simp: t_get_rows [OF wf])
  then show ?thesis by (simp add: t_upd_def)
qed

lemma mark_kind_id: "mark_kind (tk_latest_event_kind t) t = t"
  by (simp add: mark_kind_def)

lemma settlesI:
  assumes "t_wf (w_tasks w)" and "t_get (w_tasks w) i = Some t"
    and "fst r = Inr ()" and "now (snd r) = now w" and "w_agents (snd r) = w_agents w"
    and "w_implementations (snd r) = w_implementations w"
    and "w_tasks (snd r) = t_upd i f (w_tasks w)" and "settled w t (f t)"
  shows "settles i t w r"
  using assms(3-8) t_upd_same_row [OF assms(1,2), of f] by (auto simp: settles_def)

text \<open>A claim settles its task, whether it wins or finds the status already there.\<close>

lemma settles_claim:
  assumes "t_wf (w_tasks w)" and "t_get (w_tasks w) i = Some t" and "\<not> tk_is_done t"
    and "settled w t ((if d then mark_done k (now w) else mark_kind k) t)"
    and "skip = None \<or> skip = Some k \<and> \<not> d"
    and "\<And>v. t_get (w_agents v) (tk_agent t) = t_get (w_agents w) (tk_agent t) \<Longrightarrow>
           fst (after v) = Inr () \<and> db (snd (after v)) = db v"
  shows "settles i t w (claim_then env i k d skip msg after w)"
proof (cases "skip = Some (tk_latest_event_kind t)")
  case True
  then have "k = tk_latest_event_kind t" "\<not> d" using assms(5) by auto
  then have "settled w t t" using assms(4) by (simp add: mark_kind_id)
  moreover have "claim_then env i k d skip msg after w = (Inr (), w)"
    using assms(2) True by (simp add: claim_then_lost)
  ultimately show ?thesis
    by (intro settlesI [OF assms(1,2), where f = "\<lambda>_. t"]) (simp_all add: t_upd_row_id [OF assms(1,2)])
next
  case False
  let ?f = "if d then mark_done k (now w) else mark_kind k"
  let ?v = "snd (create_event env ((new_event i k w)\<lparr>te_message := Some msg\<rparr>) (save_task i ?f w))"
  have v: "claim_then env i k d skip msg after w = after ?v"
    using assms(2,3) False by (simp add: claim_then_won)
  have a: "fst (after ?v) = Inr ()" "db (snd (after ?v)) = db ?v" using assms(6) [of ?v] by simp_all
  show ?thesis
    unfolding v by (rule settlesI [OF assms(1,2), where f = ?f]) (use a(1) assms(4) db_eqD [OF a(2)] in simp_all)
qed

lemma build_redispatch_returns:
  assumes "t_get (w_tasks w) i = Some t" and "t_get (w_agents w) (tk_agent t) = Some ag"
  obtains m w1 where "build_redispatch_assign_sync env i w = (Inr m, w1)" "db w1 = db w"
proof -
  have "\<exists>m. fst (build_redispatch_assign_sync env i w) = Inr m"
    using assms
    by (auto simp: build_redispatch_assign_sync_def mint_token_for_task_def Let_def fresh_uuid_def
        split: option.split prod.split sum.split)
  then show ?thesis using that db_build_redispatch [of env i w] by (metis prod.collapse)
qed

lemma settles_fail_one:
  assumes wf: "t_wf (w_tasks w)" and t: "t_get (w_tasks w) i = Some t" and op: "\<not> tk_is_done t"
    and ag: "t_get (w_agents w) (tk_agent t) = Some ag"
  shows "settles i t w (fail_one env (i, t) w)"
proof -
  let ?w = "w\<lparr>auto_interrupt := gs_cancel (str_of_nat i) (auto_interrupt w)\<rparr>"
  have eff: "task_effect ?w t = task_effect w t" by (simp add: task_effect_def)
  obtain m w1 where m: "build_redispatch_assign_sync env i ?w = (Inr m, w1)" and w1: "db w1 = db ?w"
    by (rule build_redispatch_returns [of ?w i t ag env]) (use t ag in simp_all)
  note fr = db_eqD [OF w1]
  have s: "settles i t w r" if "settles i t v r" "now v = now w" "w_agents v = w_agents w"
    "w_implementations v = w_implementations w" "w_tasks v = w_tasks w" for v r
    using that settled_cong [of v w] by (simp add: settles_def)
  have claim: "settles i t w (claim_then env i k d skip msg after v)"
    if "settled w t ((if d then mark_done k (now w) else mark_kind k) t)"
      "skip = None \<or> skip = Some k \<and> \<not> d" "now v = now w" "w_agents v = w_agents w"
      "w_implementations v = w_implementations w" "w_tasks v = w_tasks w"
      "\<And>u. t_get (w_agents u) (tk_agent t) = Some ag \<Longrightarrow> fst (after u) = Inr () \<and> db (snd (after u)) = db u"
    for k d skip msg v and after :: "world \<Rightarrow> unit outcome \<times> world"
    by (rule s [of v], rule settles_claim)
      (use that wf t op ag settled_cong [of v w] in \<open>simp_all add: if_distribR split: if_splits\<close>)
  show ?thesis
  proof (cases "task_effect w t = PHYSICAL")
    case True
    then show ?thesis
      unfolding fail_one_def prod.case Let_def using eff
      by (auto intro!: claim simp: settled_def)
  next
    case False
    have unknown: "settles i t w (disconnected_fate env i v)"
      if "now v = now w" "w_agents v = w_agents w"
        "w_implementations v = w_implementations w" "w_tasks v = w_tasks w" for v
      unfolding disconnected_fate_def by (rule claim) (use that False in \<open>simp_all add: settled_def\<close>)
    have "settles i t w (case m of
        Some a \<Rightarrow> claim_then env i QUEUED False (Some QUEUED) REQUEUED (broadcast_to env (tk_agent t) (Assign a)) w1
      | None \<Rightarrow> disconnected_fate env i w1)"
      by (cases m) (use False fr in \<open>auto intro!: claim unknown simp: settled_def broadcast_to_def\<close>)
    then show ?thesis
      unfolding fail_one_def prod.case Let_def using eff False m unknown [of ?w] by simp
  qed
qed

lemma cascade_settles:
  assumes "t_wf (w_tasks w)" and "distinct (map fst its)"
    and "\<forall>(i, t) \<in> set its. t_get (w_tasks w) i = Some t \<and> \<not> tk_is_done t \<and>
           (\<exists>ag. t_get (w_agents w) (tk_agent t) = Some ag)"
  shows "fst (fail_and_cascade_inflight env its w) = Inr () \<and>
    (\<forall>j. t_get (w_tasks (snd (fail_and_cascade_inflight env its w))) j \<noteq> None \<longleftrightarrow> t_get (w_tasks w) j \<noteq> None) \<and>
    (\<forall>j t t'. t_get (w_tasks w) j = Some t \<longrightarrow>
       t_get (w_tasks (snd (fail_and_cascade_inflight env its w))) j = Some t' \<longrightarrow>
       (if j \<in> fst ` set its then settled w t t' else t' = t))"
  using assms
proof (induction its arbitrary: w)
  case Nil
  then show ?case by simp
next
  case (Cons it its)
  obtain i t where it: "it = (i, t)" by (cases it)
  from Cons.prems it obtain ag where t: "t_get (w_tasks w) i = Some t" "\<not> tk_is_done t"
    and ag: "t_get (w_agents w) (tk_agent t) = Some ag" by auto
  from settles_fail_one [OF Cons.prems(1) t ag, of env] obtain t1 where
    r: "fst (fail_one env (i, t) w) = Inr ()" and t1: "settled w t t1"
    and rows: "w_tasks (snd (fail_one env (i, t) w)) = t_upd i (\<lambda>_. t1) (w_tasks w)"
    and fr: "now (snd (fail_one env (i, t) w)) = now w" "w_agents (snd (fail_one env (i, t) w)) = w_agents w"
      "w_implementations (snd (fail_one env (i, t) w)) = w_implementations w"
    by (auto simp: settles_def)
  let ?w = "snd (fail_one env (i, t) w)"
  have step: "fail_and_cascade_inflight env (it # its) w = fail_and_cascade_inflight env its ?w"
    using r by (auto simp: it and_then_def split: prod.split)
  have "i \<notin> fst ` set its" using Cons.prems(2) it by simp
  then have rest: "\<forall>(j, u) \<in> set its. t_get (w_tasks ?w) j = Some u \<and> \<not> tk_is_done u \<and>
           (\<exists>ag. t_get (w_agents ?w) (tk_agent u) = Some ag)"
  proof clarify
    fix j u assume ju: "(j, u) \<in> set its"
    then have "j \<noteq> i" using \<open>i \<notin> fst ` set its\<close> by force
    moreover from Cons.prems(3) ju have "t_get (w_tasks w) j = Some u \<and> \<not> tk_is_done u \<and>
        (\<exists>ag. t_get (w_agents w) (tk_agent u) = Some ag)" by auto
    ultimately show "t_get (w_tasks ?w) j = Some u \<and> \<not> tk_is_done u \<and>
        (\<exists>ag. t_get (w_agents ?w) (tk_agent u) = Some ag)" by (simp add: rows fr t_get_upd)
  qed
  have IH: "fst (fail_and_cascade_inflight env its ?w) = Inr () \<and>
    (\<forall>j. t_get (w_tasks (snd (fail_and_cascade_inflight env its ?w))) j \<noteq> None \<longleftrightarrow> t_get (w_tasks ?w) j \<noteq> None) \<and>
    (\<forall>j t t'. t_get (w_tasks ?w) j = Some t \<longrightarrow>
       t_get (w_tasks (snd (fail_and_cascade_inflight env its ?w))) j = Some t' \<longrightarrow>
       (if j \<in> fst ` set its then settled ?w t t' else t' = t))"
    by (rule Cons.IH) (use Cons.prems rest in \<open>simp_all add: rows t_wf_upd\<close>)
  have s: "settled ?w = settled w" by (rule ext)+ (simp add: settled_cong [OF fr(1,3)])
  show ?case
    unfolding step using IH \<open>i \<notin> fst ` set its\<close> t t1
    by (auto simp: rows t_get_upd s it split: if_splits)
qed

lemma in_flight_iff:
  "t_wf (w_tasks w) \<Longrightarrow> (j, t) \<in> set (in_flight a w) \<longleftrightarrow>
     t_get (w_tasks w) j = Some t \<and> tk_agent t = a \<and> \<not> tk_is_done t"
  by (simp add: in_flight_def t_filter_get)

lemma distinct_in_flight: "t_wf (w_tasks w) \<Longrightarrow> distinct (map fst (in_flight a w))"
  unfolding in_flight_def t_filter_def t_wf_def by (rule distinct_map_filter) simp

lemma in_flight_settles:
  assumes wf: "t_wf (w_tasks w)" and ag: "t_get (w_agents w) a = Some ag"
  shows "fst (fail_and_cascade_inflight env (in_flight a w) w) = Inr ()"
    and "t_get (w_tasks w) j = Some t \<Longrightarrow>
      \<exists>t'. t_get (w_tasks (snd (fail_and_cascade_inflight env (in_flight a w) w))) j = Some t' \<and>
           (if tk_agent t = a \<and> \<not> tk_is_done t then settled w t t' else t' = t)"
proof -
  note all = cascade_settles [OF wf distinct_in_flight [OF wf], of a env]
  have "\<forall>(i, t) \<in> set (in_flight a w). t_get (w_tasks w) i = Some t \<and> \<not> tk_is_done t \<and>
           (\<exists>ag. t_get (w_agents w) (tk_agent t) = Some ag)"
    using ag by (auto simp: in_flight_iff [OF wf])
  note all = all [OF this]
  from all show "fst (fail_and_cascade_inflight env (in_flight a w) w) = Inr ()" by blast
  assume t: "t_get (w_tasks w) j = Some t"
  have "j \<in> fst ` set (in_flight a w) \<longleftrightarrow> tk_agent t = a \<and> \<not> tk_is_done t"
  proof -
    have "j \<in> fst ` set (in_flight a w) \<longleftrightarrow> (\<exists>u. (j, u) \<in> set (in_flight a w))" by force
    then show ?thesis using t by (simp add: in_flight_iff [OF wf])
  qed
  with all t show "\<exists>t'. t_get (w_tasks (snd (fail_and_cascade_inflight env (in_flight a w) w))) j = Some t' \<and>
           (if tk_agent t = a \<and> \<not> tk_is_done t then settled w t t' else t' = t)"
    by (metis not_None_eq)
qed

text \<open>
  C11. Reconciling an executor leaves a live one alone. For one that is gone it always returns, and
  every open task of it has met its fate: physical work has ended as critical, all other work is
  open and queued or disconnected. No other task changes.
\<close>

theorem reconcile_settles:
  assumes "t_wf (w_tasks w)" and "t_get (w_agents w) a = Some ag"
  shows "if agent_is_live env (now w) (ag_connected ag) (ag_last_seen ag)
         then reconcile_orphaned_executor_work env a w = (Inr (), w)
         else fst (reconcile_orphaned_executor_work env a w) = Inr () \<and>
           (\<forall>j t. t_get (w_tasks w) j = Some t \<longrightarrow>
              (\<exists>t'. t_get (w_tasks (snd (reconcile_orphaned_executor_work env a w))) j = Some t' \<and>
                 (if tk_agent t = a \<and> \<not> tk_is_done t then settled w t t' else t' = t)))"
  using in_flight_settles [OF assms] assms(2) by (simp add: reconcile_orphaned_executor_work_def)

lemma reconcile_settles_witness:
  "\<exists>t'. t_get (w_tasks (snd (reconcile_orphaned_executor_work demo_env 1 gone_world))) 3 = Some t' \<and>
        tk_is_done t' \<and> tk_latest_event_kind t' = CRITICAL"
proof -
  have "t_wf (w_tasks gone_world)" using gone_ledger by (simp add: ledger_def)
  with reconcile_settles [of gone_world 1 "demo_agent\<lparr>ag_connected := False\<rparr>" demo_env]
  have "\<exists>t'. t_get (w_tasks (snd (reconcile_orphaned_executor_work demo_env 1 gone_world))) 3 = Some t' \<and>
      (if tk_agent (demo_task 3 3 None ''r3'') = 1 \<and> \<not> tk_is_done (demo_task 3 3 None ''r3'')
       then settled gone_world (demo_task 3 3 None ''r3'') t' else t' = demo_task 3 3 None ''r3'')"
    by (simp add: agent_is_live_def)
  then show ?thesis
    by (auto simp: demo_task_def settled_def task_effect_def demo_implementation_def mark_done_def)
qed

section \<open>Coming back\<close>

text \<open>
  C12. An agent that may claim its lease comes back in one of two ways. With a session other than the
  one it had, its in-flight work is settled at once and it is handed nothing. With the same session,
  or when it had none, it is handed exactly its open tasks to report on and no task or event changes.
\<close>

theorem reconnect_outcome:
  assumes "t_wf (w_tasks w)" and "t_get (w_agents w) i = Some a" and "force \<or> \<not> is_active env (now w) a"
  shows "if ag_active_session_id a \<in> {None, Some s}
         then fst (on_agent_connected env i conn (Some s) force w) =
                Inr \<lparr>lcm_claimed = True, lcm_epoch = Some (ag_lease_epoch a + 1), lcm_tasks = in_flight i w,
                     lcm_displaced_incumbent = ag_connected a\<rparr> \<and>
              task_rows (snd (on_agent_connected env i conn (Some s) force w)) = task_rows w
         else fst (on_agent_connected env i conn (Some s) force w) =
                Inr \<lparr>lcm_claimed = True, lcm_epoch = Some (ag_lease_epoch a + 1), lcm_tasks = [],
                     lcm_displaced_incumbent = ag_connected a\<rparr> \<and>
              (\<forall>j t. t_get (w_tasks w) j = Some t \<longrightarrow>
                 (\<exists>t'. t_get (w_tasks (snd (on_agent_connected env i conn (Some s) force w))) j = Some t' \<and>
                    (if tk_agent t = i \<and> \<not> tk_is_done t then settled w t t' else t' = t)))"
proof -
  let ?r = "\<lparr>lc_claimed = True, lc_epoch = Some (ag_lease_epoch a + 1),
             lc_prior_session = ag_active_session_id a, lc_displaced = ag_connected a\<rparr>"
  obtain w1 where claim: "claim_lease_sync env i conn (Some s) force w = (Inr ?r, w1)"
    and w1: "w_tasks w1 = w_tasks w" "w_events w1 = w_events w" "now w1 = now w"
      "w_implementations w1 = w_implementations w" "t_get (w_agents w1) i \<noteq> None"
    using assms(2,3) by (auto simp: claim_lease_sync_def is_active_def t_get_upd)
  let ?w2 = "w1\<lparr>executor_grace := gs_cancel (str_of_nat i) (executor_grace w1)\<rparr>"
  obtain a1 where "t_get (w_agents ?w2) i = Some a1" using w1(5) by auto
  then have all: "fst (fail_and_cascade_inflight env (in_flight i ?w2) ?w2) = Inr ()"
    "t_get (w_tasks ?w2) j = Some t \<Longrightarrow>
      \<exists>t'. t_get (w_tasks (snd (fail_and_cascade_inflight env (in_flight i ?w2) ?w2))) j = Some t' \<and>
           (if tk_agent t = i \<and> \<not> tk_is_done t then settled ?w2 t t' else t' = t)" for j t
    using in_flight_settles [of ?w2 i a1] assms(1) w1 by simp_all
  have fl: "in_flight i ?w2 = in_flight i w" by (simp add: in_flight_def w1)
  have s: "settled ?w2 = settled w" by (rule ext) (rule settled_cong; simp add: w1)
  obtain w3 where w3: "fail_and_cascade_inflight env (in_flight i w) ?w2 = (Inr (), w3)"
    using all(1) fl by (metis prod.collapse)
  show ?thesis
  proof (cases "ag_active_session_id a \<in> {None, Some s}")
    case True
    then show ?thesis
      unfolding on_agent_connected_def claim using fl w1 by (auto simp: Let_def task_rows_def)
  next
    case False
    then have conn: "on_agent_connected env i conn (Some s) force w =
        (Inr \<lparr>lcm_claimed = True, lcm_epoch = Some (ag_lease_epoch a + 1), lcm_tasks = [],
              lcm_displaced_incumbent = ag_connected a\<rparr>, w3)"
      unfolding on_agent_connected_def claim using fl w3 by (simp add: Let_def)
    have "\<exists>t'. t_get (w_tasks w3) j = Some t' \<and>
        (if tk_agent t = i \<and> \<not> tk_is_done t then settled w t t' else t' = t)"
      if "t_get (w_tasks w) j = Some t" for j t
      using all(2) [of j t] that unfolding fl s w3 by (simp add: w1)
    then show ?thesis unfolding if_not_P [OF False] conn by simp
  qed
qed

lemma reconnect_outcome_witness:
  "fst (on_agent_connected demo_env 1 (Some ''c2'') (Some ''s1'') False gone_world) =
     Inr \<lparr>lcm_claimed = True, lcm_epoch = Some 4, lcm_tasks = in_flight 1 gone_world,
          lcm_displaced_incumbent = False\<rparr>"
proof -
  have "t_wf (w_tasks gone_world)" using gone_ledger by (simp add: ledger_def)
  with reconnect_outcome [of gone_world 1 "demo_agent\<lparr>ag_connected := False\<rparr>" False demo_env "''s1''" "Some ''c2''"]
  show ?thesis by (simp add: is_active_def agent_is_live_def demo_agent_def)
qed

section \<open>Sweeping again and again\<close>

definition sweep_once :: "rekuest_env \<Rightarrow> nat \<Rightarrow> world \<Rightarrow> world" where
  "sweep_once env a w = snd (reconcile_orphaned_executor_work env a w)"

text \<open>One open idempotent task \<open>t\<close> of a websocket executor that is gone.\<close>

definition orphan :: "rekuest_env \<Rightarrow> nat \<Rightarrow> nat \<Rightarrow> task \<Rightarrow> world \<Rightarrow> bool" where
  "orphan env a i t w \<longleftrightarrow>
     t_wf (w_tasks w) \<and> in_flight a w = [(i, t)] \<and> \<not> prov_strict env \<and>
     (\<exists>ag. t_get (w_agents w) a = Some ag \<and> ag_kind ag = WEBSOCKET \<and>
           \<not> agent_is_live env (now w) (ag_connected ag) (ag_last_seen ag)) \<and>
     task_effect w t \<noteq> PHYSICAL \<and> task_idempotent w t \<and>
     (\<exists>im. Option.bind (tk_implementation t) (t_get (w_implementations w)) = Some im) \<and>
     (\<exists>cl. Option.bind (tk_caller t) (t_get (w_callers w)) = Some cl)"

lemma orphan_task:
  assumes "orphan env a i t w"
  shows "t_get (w_tasks w) i = Some t" and "\<not> tk_is_done t" and "tk_agent t = a"
proof -
  have "(i, t) \<in> set (in_flight a w)" "t_wf (w_tasks w)" using assms by (auto simp: orphan_def)
  then show "t_get (w_tasks w) i = Some t" "\<not> tk_is_done t" "tk_agent t = a"
    by (simp_all add: in_flight_iff)
qed

lemma orphan_sweep: "orphan env a i t w \<Longrightarrow> sweep_once env a w = snd (fail_one env (i, t) w)"
  by (auto simp: orphan_def sweep_once_def reconcile_orphaned_executor_work_def and_then_def
      split: prod.split sum.split)

lemma in_flight_mark_kind:
  "w_tasks w' = t_upd i (mark_kind k) (w_tasks w) \<Longrightarrow> in_flight a w = [(i, t)] \<Longrightarrow>
   in_flight a w' = [(i, mark_kind k t)]"
  by (auto simp: in_flight_def t_filter_def t_upd_def filter_map comp_def mark_kind_def split_def
      cong: filter_cong)

lemma orphan_step:
  assumes "orphan env a i t w" and "w_tasks (snd (fail_one env (i, t) w)) = t_upd i (mark_kind k) (w_tasks w)"
  shows "orphan env a i (mark_kind k t) (snd (fail_one env (i, t) w))"
proof -
  let ?w' = "snd (fail_one env (i, t) w)"
  note t = orphan_task [OF assms(1)]
  from assms(1) obtain ag where "t_get (w_agents w) a = Some ag" "t_wf (w_tasks w)" by (auto simp: orphan_def)
  then have "settles i t w (fail_one env (i, t) w)" using t by (auto intro: settles_fail_one)
  then have fr: "now ?w' = now w" "w_agents ?w' = w_agents w" "w_implementations ?w' = w_implementations w"
    by (simp_all add: settles_def)
  have "in_flight a ?w' = [(i, mark_kind k t)]"
    by (rule in_flight_mark_kind [OF assms(2)]) (use assms(1) in \<open>simp add: orphan_def\<close>)
  then show ?thesis
    using assms fr fail_one_static [of w env i t]
    by (simp add: orphan_def task_effect_def task_idempotent_def mark_kind_def t_wf_upd same_static_def)
qed

lemma orphan_requeued:
  assumes "orphan env a i t w" and "tk_latest_event_kind t \<noteq> QUEUED"
  shows "\<exists>m. as_task m = str_of_nat i \<and> orphan env a i (mark_kind QUEUED t) (sweep_once env a w) \<and>
    w_redis (sweep_once env a w) = redis_push (str_of_nat a) (Assign m) (w_redis w)"
proof -
  note t = orphan_task [OF assms(1)]
  from assms(1) obtain im cl ag where
    "Option.bind (tk_implementation t) (t_get (w_implementations w)) = Some im"
    "Option.bind (tk_caller t) (t_get (w_callers w)) = Some cl"
    "t_get (w_agents w) a = Some ag" "ag_kind ag = WEBSOCKET" "\<not> prov_strict env"
    "task_effect w t \<noteq> PHYSICAL" "task_idempotent w t"
    by (auto simp: orphan_def)
  with requeue_one [OF t(1,2), of im cl ag env] t(3) assms(2)
  obtain m where m: "as_task m = str_of_nat i"
    "w_tasks (snd (fail_one env (i, t) w)) = t_upd i (mark_kind QUEUED) (w_tasks w)"
    "w_redis (snd (fail_one env (i, t) w)) = redis_push (str_of_nat a) (Assign m) (w_redis w)"
    by auto
  with orphan_step [OF assms(1) m(2)] show ?thesis
    unfolding orphan_sweep [OF assms(1)] by blast
qed

lemma orphan_disconnected:
  assumes "orphan env a i t w" and "tk_latest_event_kind t = QUEUED"
  shows "orphan env a i (mark_kind DISCONNECTED t) (sweep_once env a w) \<and>
    w_redis (sweep_once env a w) = w_redis w"
proof -
  note t = orphan_task [OF assms(1)]
  have "task_effect w t \<noteq> PHYSICAL" using assms(1) by (simp add: orphan_def)
  then have "w_tasks (snd (fail_one env (i, t) w)) = t_upd i (mark_kind DISCONNECTED) (w_tasks w) \<and>
      w_redis (snd (fail_one env (i, t) w)) = w_redis w"
    unfolding fail_one_def prod.case Let_def disconnected_fate_def using t assms(2)
    by (simp add: claim_then_won [where t = t] task_effect_def)
  with orphan_step [OF assms(1)] show ?thesis unfolding orphan_sweep [OF assms(1)] by blast
qed

text \<open>
  A queue never forgets that a task was disconnected: as long as the executor of an idempotent
  task stays away, every second sweep pushes another Assign for the task, so \<open>2 n\<close> sweeps leave
  \<open>n\<close> copies of the same work in the queue, although the status queued is meant to stop that.
\<close>

theorem sweeps_requeue_again:
  assumes "orphan env a i t w" and "tk_latest_event_kind t \<noteq> QUEUED"
  shows "\<exists>ms. length ms = n \<and> (\<forall>m \<in> set ms. as_task m = str_of_nat i) \<and>
    w_redis ((sweep_once env a ^^ (2 * n)) w) =
      fold (\<lambda>m. redis_push (str_of_nat a) (Assign m)) ms (w_redis w)"
  using assms
proof (induction n arbitrary: t w)
  case 0
  then show ?case by simp
next
  case (Suc n)
  obtain m where m: "as_task m = str_of_nat i" and o1: "orphan env a i (mark_kind QUEUED t) (sweep_once env a w)"
    and r1: "w_redis (sweep_once env a w) = redis_push (str_of_nat a) (Assign m) (w_redis w)"
    using orphan_requeued [OF Suc.prems] by blast
  have o2: "orphan env a i (mark_kind DISCONNECTED (mark_kind QUEUED t)) (sweep_once env a (sweep_once env a w))"
    and r2: "w_redis (sweep_once env a (sweep_once env a w)) = w_redis (sweep_once env a w)"
    using orphan_disconnected [OF o1] by (simp_all add: mark_kind_def)
  from Suc.IH [OF o2] obtain ms where "length ms = n" "\<forall>m \<in> set ms. as_task m = str_of_nat i"
    "w_redis ((sweep_once env a ^^ (2 * n)) (sweep_once env a (sweep_once env a w))) =
      fold (\<lambda>m. redis_push (str_of_nat a) (Assign m)) ms (w_redis (sweep_once env a (sweep_once env a w)))"
    by (auto simp: mark_kind_def)
  then have "length (m # ms) = Suc n \<and> (\<forall>m \<in> set (m # ms). as_task m = str_of_nat i) \<and>
      w_redis ((sweep_once env a ^^ (2 * Suc n)) w) =
        fold (\<lambda>m. redis_push (str_of_nat a) (Assign m)) (m # ms) (w_redis w)"
    using m r1 r2 by (simp add: funpow_swap1)
  then show ?case by blast
qed

text \<open>The idempotent task of the demo configuration alone.\<close>

definition orphan_world :: world where
  "orphan_world = gone_world\<lparr>w_tasks := \<lparr>rows = [(2, demo_task 2 2 None ''r2'')], seq = 2\<rparr>\<rparr>"

lemma sweeps_requeue_again_witness:
  "\<exists>ms. length ms = 3 \<and> (\<forall>m \<in> set ms. as_task m = str_of_nat 2) \<and>
    w_redis ((sweep_once demo_env 1 ^^ 6) orphan_world) =
      fold (\<lambda>m. redis_push (str_of_nat 1) (Assign m)) ms (w_redis orphan_world)"
proof -
  have "orphan demo_env 1 2 (demo_task 2 2 None ''r2'') orphan_world"
    by (simp add: orphan_def orphan_world_def gone_world_def demo_world_def t_wf_def in_flight_def
        t_filter_def t_get_def demo_env_def demo_task_def task_effect_def task_idempotent_def
        demo_implementation_def demo_action_def demo_agent_def agent_is_live_def)
  from sweeps_requeue_again [OF this, of 3] show ?thesis by (simp add: demo_task_def)
qed

end
