(* ===== verification/Agent_Properties.thy ===== *)
theory Agent_Properties
  imports Reconcile_Properties
begin

text \<open>
  Properties of an agent's connection: the write lease and its fencing token, registration, the
  relay of its queue, and the timers that watch over it.
\<close>

section \<open>The lease\<close>

text \<open>Any sequence of claims, revocations, renewals and releases of one agent's lease.\<close>

definition lease_run ::
  "'c env \<Rightarrow> nat \<Rightarrow> lease_call lease_op list \<Rightarrow> world \<Rightarrow> lease_result list \<times> world" where
  "lease_run env i = fencing.run (claim_at env i) (revoke_at env i) (renew_at i) (release_at i)"

text \<open>
  C14. The token of a claim is a fence: after any sequence of operations by anyone, it still renews
  the lease if and only if no other claim and no revocation went through since. Releases, renewals
  and rejected claims never invalidate it.
\<close>

theorem lease_fenced:
  assumes "claim_at env i c w = (Some e, w1)" and "lease_run env i ops w1 = (rs, w2)"
  shows "fst (renew_at i d e w2) \<longleftrightarrow> (\<forall>r \<in> set rs. \<not> fences r)"
  by (rule agent_lease.renewable_iff [OF assms(1) assms(2) [unfolded lease_run_def]])

definition demo_call :: "int \<Rightarrow> string \<Rightarrow> bool \<Rightarrow> lease_call" where
  "demo_call t conn force = \<lparr>lcl_time = t, lcl_connection = Some conn, lcl_session = Some ''s1'', lcl_force = force\<rparr>"

lemma lease_fenced_witness:
  "\<exists>w1 w2. claim_at demo_env 1 (demo_call 5 ''c2'' True) demo_world = (Some 4, w1) \<and>
     lease_run demo_env 1 [Release (demo_call 6 ''c1'' False), Claim (demo_call 7 ''c3'' True)] w1 =
       ([Released, Claimed 5], w2) \<and>
     \<not> fst (renew_at 1 (demo_call 8 ''c2'' False) 4 w2)"
proof -
  obtain w1 where w1: "claim_at demo_env 1 (demo_call 5 ''c2'' True) demo_world = (Some 4, w1)"
    by (simp add: claim_at_def claim_lease_sync_def demo_call_def demo_agent_def demo_world_def t_get_def)
  have e1: "agent_epoch 1 (release_at 1 (demo_call 6 ''c1'' False) w1) = Some 4"
    using agent_lease.claim_Some [OF w1] by (simp add: agent_lease.release_epoch)
  obtain a where a: "t_get (w_agents (release_at 1 (demo_call 6 ''c1'' False) w1)) 1 = Some a" "ag_lease_epoch a = 4"
    using e1 by (auto simp: agent_epoch_def)
  obtain w2 where w2: "claim_at demo_env 1 (demo_call 7 ''c3'' True) (release_at 1 (demo_call 6 ''c1'' False) w1) = (Some 5, w2)"
    using a by (simp add: claim_at_def claim_lease_sync_def demo_call_def)
  have run: "lease_run demo_env 1 [Release (demo_call 6 ''c1'' False), Claim (demo_call 7 ''c3'' True)] w1 =
      ([Released, Claimed 5], w2)"
    using w2 by (simp add: lease_run_def agent_lease.run.simps)
  from lease_fenced [OF w1 run, of "demo_call 8 ''c2'' False"] w1 run show ?thesis by auto
qed

text \<open>
  C15. Tokens are issued in strictly increasing order, all above the epoch the row had, so no token
  is ever issued twice; and the row's epoch is the number of claims and revocations that went
  through on top of the one it had.
\<close>

theorem lease_tokens_increase:
  assumes "agent_epoch i w = Some n" and "lease_run env i ops w = (rs, w')"
  shows "sorted_wrt (<) (issued rs) \<and> (\<forall>e \<in> set (issued rs). n < e) \<and>
         agent_epoch i w' = Some (n + int (length (filter fences rs)))"
  using agent_lease.issued_increasing [OF assms(1) assms(2) [unfolded lease_run_def]]
    agent_lease.run_epoch [OF assms(1) assms(2) [unfolded lease_run_def]] by simp

lemma lease_tokens_increase_witness:
  "\<exists>rs w'. lease_run demo_env 1 [Claim (demo_call 5 ''c2'' True), Claim (demo_call 7 ''c3'' True)] demo_world = (rs, w') \<and>
     sorted_wrt (<) (issued rs) \<and> (\<forall>e \<in> set (issued rs). 3 < e)"
proof -
  have "agent_epoch 1 demo_world = Some 3" by (simp add: agent_epoch_def demo_agent_def)
  moreover obtain rs w' where
    "lease_run demo_env 1 [Claim (demo_call 5 ''c2'' True), Claim (demo_call 7 ''c3'' True)] demo_world = (rs, w')"
    by (cases "lease_run demo_env 1 [Claim (demo_call 5 ''c2'' True), Claim (demo_call 7 ''c3'' True)] demo_world")
  ultimately show ?thesis using lease_tokens_increase by blast
qed

text \<open>
  C16. A heartbeat protects the incumbent for exactly the stale window: an unforced claim at a later
  time is rejected, and changes nothing, if and only if the window since the last renewal is not
  over. At the very end of the window the claim succeeds.
\<close>

theorem heartbeat_protects:
  assumes "renew_agent_lease i e w = (True, w1)"
    and "t_get (w_agents w) i = Some a" and "ag_connected a"
  shows "if t < now w + stale_after_seconds env
         then snd (claim_lease_sync env i conn sess False (w1\<lparr>now := t\<rparr>)) = w1\<lparr>now := t\<rparr> \<and>
              map_option lc_claimed (case fst (claim_lease_sync env i conn sess False (w1\<lparr>now := t\<rparr>)) of
                Inl _ \<Rightarrow> None | Inr r \<Rightarrow> Some r) = Some False
         else \<exists>r. fst (claim_lease_sync env i conn sess False (w1\<lparr>now := t\<rparr>)) = Inr r \<and> lc_claimed r \<and>
              lc_epoch r = Some (e + 1) \<and> lc_displaced r"
  using assms
  by (auto simp: renew_agent_lease_def claim_lease_sync_def t_get_upd agent_is_live_iff split: if_splits)

lemma heartbeat_protects_witness:
  "\<exists>w1 r. renew_agent_lease 1 3 (demo_world\<lparr>now := 10\<rparr>) = (True, w1) \<and>
     fst (claim_lease_sync demo_env 1 (Some ''c2'') None False (w1\<lparr>now := 90000010\<rparr>)) = Inr r \<and> lc_claimed r"
proof -
  obtain w1 where "renew_agent_lease 1 3 (demo_world\<lparr>now := 10\<rparr>) = (True, w1)"
    by (simp add: renew_agent_lease_def demo_agent_def)
  with heartbeat_protects [OF this, of demo_agent 90000010 demo_env "Some ''c2''" None]
  show ?thesis by (auto simp: demo_agent_def stale_after_seconds_def demo_env_def)
qed

text \<open>
  A connection that was displaced cannot disconnect its successor: once another connection's
  claim went through, its own disconnect returns without touching anything.
\<close>

theorem displaced_disconnect_is_idle:
  assumes "claim_lease_sync env i (Some new) sess force w = (Inr r, w1)" and "lc_claimed r" and "old \<noteq> new"
  shows "on_agent_disconnected env i (Some old) w1 = (Inr (), w1)"
proof -
  from assms(1,2) obtain a where "t_get (w_agents w1) i = Some a" "ag_active_connection_id a = Some new"
    by (auto simp: claim_lease_sync_def t_get_upd split: option.splits if_splits)
  then have "release_connection i (Some old) w1 = (Inr False, w1)"
    using assms(3) by (simp add: release_guard)
  then show ?thesis by (simp add: on_agent_disconnected_def)
qed

lemma displaced_disconnect_is_idle_witness:
  "\<exists>r w1. claim_lease_sync demo_env 1 (Some ''c2'') (Some ''s2'') True demo_world = (Inr r, w1) \<and>
     on_agent_disconnected demo_env 1 (Some ''c1'') w1 = (Inr (), w1)"
proof -
  obtain r w1 where "claim_lease_sync demo_env 1 (Some ''c2'') (Some ''s2'') True demo_world = (Inr r, w1)"
    and "lc_claimed r"
    by (simp add: claim_lease_sync_def)
  from displaced_disconnect_is_idle [OF this, of "''c1''"] this show ?thesis by auto
qed

section \<open>The frames of a connection\<close>

fun unregistered_code :: "frame \<Rightarrow> close_code" where
  "unregistered_code No_text = FROM_AGENT_MESSAGE_IS_NOT_VALID_JSON_CODE"
| "unregistered_code Not_json = FROM_AGENT_MESSAGE_IS_NOT_VALID_JSON_CODE"
| "unregistered_code _ = FROM_AGENT_MESSAGE_DOES_NOT_MATCH_SCHEMA_CODE"

text \<open>
  C20. Until a Register arrived, nothing a peer sends reaches the shared state: whatever else comes,
  text that is not JSON, a schema error or any other message, closes the connection with the code
  for it, opens no session, and leaves every table, timer and queue as it was.
\<close>

theorem unregistered_is_harmless:
  assumes "\<not> cn_received_initial c" and "\<forall>reg. f \<noteq> Parsed (Register reg)"
  shows "cn_closed (fst (receive env identify f c w)) = cn_closed c @ [unregistered_code f] \<and>
         cn_session (fst (receive env identify f c w)) = cn_session c \<and>
         \<not> cn_received_initial (fst (receive env identify f c w)) \<and>
         db (snd (receive env identify f c w)) = db w \<and> w_redis (snd (receive env identify f c w)) = w_redis w"
proof (cases f)
  case (Parsed m)
  with assms have "receive env identify f c w =
      (close_with FROM_AGENT_MESSAGE_DOES_NOT_MATCH_SCHEMA_CODE c, w)"
    using unregistered_frame by blast
  with Parsed assms(1) show ?thesis by (simp add: close_with_def)
qed (use assms(1) in \<open>simp_all add: close_with_def send_message_def split_beta\<close>)

lemma unregistered_is_harmless_witness:
  "db (snd (receive demo_env (\<lambda>_. None) (Parsed (Completed (demo_completed 1))) (new_connection ''c9'') demo_world)) =
     db demo_world"
  using unregistered_is_harmless [of "new_connection ''c9''" "Parsed (Completed (demo_completed 1))" demo_env "\<lambda>_. None" demo_world]
  by (simp add: new_connection_def)

text \<open>
  C19. A connection whose token was superseded is cut off at its next heartbeat: the heartbeat writes
  nothing, the connection is closed with the code for a replaced agent, and its relay loop never
  takes another message from the queue.
\<close>

theorem fenced_connection_stops:
  assumes "cn_session c = Some s" and "agent_epoch (rs_agent s) w \<noteq> Some (rs_lease_epoch s)"
    and "on_agent_heartbeat s c w = (c1, w1)"
  shows "w1 = w \<and> cn_closed c1 = cn_closed c @ [AGENT_REPLACED_CODE] \<and>
         (\<forall>v. listen_step c1 v = (c1, v))"
  using fenced_heartbeat [OF assms(1,2)] assms(3) by auto

definition demo_session :: registered_session where
  "demo_session = \<lparr>rs_agent = 1, rs_session_id = Some ''s1'', rs_caller_id = ''1'', rs_lease_epoch = 2,
     rs_listening = True, rs_beating = True, rs_pending = True\<rparr>"

lemma fenced_connection_stops_witness:
  "\<exists>c1. on_agent_heartbeat demo_session ((new_connection ''c1'')\<lparr>cn_session := Some demo_session\<rparr>) demo_world = (c1, demo_world) \<and>
     cn_closed c1 = [AGENT_REPLACED_CODE]"
proof -
  let ?c = "(new_connection ''c1'')\<lparr>cn_session := Some demo_session\<rparr>"
  obtain c1 w1 where hb: "on_agent_heartbeat demo_session ?c demo_world = (c1, w1)"
    by (cases "on_agent_heartbeat demo_session ?c demo_world")
  have "agent_epoch (rs_agent demo_session) demo_world \<noteq> Some (rs_lease_epoch demo_session)"
    by (simp add: demo_session_def agent_epoch_def demo_agent_def)
  from fenced_connection_stops [OF _ this hb] hb show ?thesis by (simp add: new_connection_def)
qed

section \<open>The relay\<close>

text \<open>\<open>n\<close> rounds of the relay loop of one connection.\<close>

definition relay_rounds :: "nat \<Rightarrow> connection \<times> world \<Rightarrow> connection \<times> world" where
  "relay_rounds n = (\<lambda>(c, w). listen_step c w) ^^ n"

text \<open>The rounds of a listening session are the loop of \<^theory_text>\<open>Agent_Queue\<close> on its agent's lists.\<close>

lemma relay_is_listen:
  assumes "cn_session c = Some s" and "rs_listening s"
  shows "\<exists>sent r. listen redis_pop redis_ack (str_of_nat (rs_agent s)) (replicate n Whole) (w_redis w) = (sent, r) \<and>
    relay_rounds n (c, w) = (c\<lparr>cn_sent := cn_sent c @ sent\<rparr>, w\<lparr>w_redis := r\<rparr>)"
  using assms
proof (induction n arbitrary: c w)
  case 0
  then show ?case by (simp add: relay_rounds_def)
next
  case (Suc n)
  let ?a = "str_of_nat (rs_agent s)"
  show ?case
  proof (cases "redis_pop ?a (w_redis w)")
    case None
    then have "listen_step c w = (c, w)" using Suc.prems by (simp add: listen_step_def)
    then have "relay_rounds (Suc n) (c, w) = relay_rounds n (c, w)"
      by (simp add: relay_rounds_def funpow_swap1)
    moreover have "listen redis_pop redis_ack ?a (replicate n Whole) (w_redis w) = ([], w_redis w)"
      using None by (cases n) simp_all
    ultimately show ?thesis using Suc.IH [OF Suc.prems, of w] None by simp
  next
    case (Some mq)
    obtain m q where mq: "mq = (m, q)" by (cases mq)
    let ?c = "send_message m c" and ?w = "w\<lparr>w_redis := redis_ack ?a m q\<rparr>"
    have "listen_step c w = (?c, ?w)" using Suc.prems Some mq by (simp add: listen_step_def)
    then have "relay_rounds (Suc n) (c, w) = relay_rounds n (?c, ?w)"
      by (simp add: relay_rounds_def funpow_swap1)
    moreover have "cn_session ?c = Some s" using Suc.prems by (simp add: send_message_def)
    from Suc.IH [OF this Suc.prems(2), of ?w] obtain sent r where
      "listen redis_pop redis_ack ?a (replicate n Whole) (redis_ack ?a m q) = (sent, r)"
      "relay_rounds n (?c, ?w) = (?c\<lparr>cn_sent := cn_sent ?c @ sent\<rparr>, ?w\<lparr>w_redis := r\<rparr>)" by auto
    ultimately show ?thesis using Some mq by (simp add: send_message_def)
  qed
qed

text \<open>
  C21. A listening connection relays the queue of its agent in the order the messages were pushed:
  after as many rounds as messages waited it has sent exactly those, oldest first, nothing waits any
  more, and the queues of all other agents are as before.
\<close>

theorem relay_is_fifo:
  assumes "cn_session c = Some s" and "rs_listening s"
    and "redis_waiting (str_of_nat (rs_agent s)) (w_redis w) = ms"
  shows "cn_sent (fst (relay_rounds (length ms) (c, w))) = cn_sent c @ ms \<and>
         redis_waiting (str_of_nat (rs_agent s)) (w_redis (snd (relay_rounds (length ms) (c, w)))) = [] \<and>
         (\<forall>b. b \<noteq> str_of_nat (rs_agent s) \<longrightarrow>
            redis_waiting b (w_redis (snd (relay_rounds (length ms) (c, w)))) = redis_waiting b (w_redis w))"
proof -
  let ?a = "str_of_nat (rs_agent s)"
  obtain sent r where l: "listen redis_pop redis_ack ?a (replicate (length ms) Whole) (w_redis w) = (sent, r)"
    and r: "relay_rounds (length ms) (c, w) = (c\<lparr>cn_sent := cn_sent c @ sent\<rparr>, w\<lparr>w_redis := r\<rparr>)"
    using relay_is_listen [OF assms(1,2)] by blast
  have "sent = ms \<and> redis_waiting ?a r = []"
    using redis_queue.listen_fifo [of ?a "w_redis w" "length ms"] assms(3) l by simp
  moreover have "redis_waiting b r = redis_waiting b (w_redis w)" if "b \<noteq> ?a" for b
    using redis_queue.listen_other [OF that, of "replicate (length ms) Whole" "w_redis w"] l by simp
  ultimately show ?thesis by (simp add: r)
qed

lemma relay_is_fifo_witness:
  "cn_sent (fst (relay_rounds 2 ((new_connection ''c1'')\<lparr>cn_session := Some demo_session\<rparr>,
     demo_world\<lparr>w_redis := redis_push ''1'' (demo_kick ''k2'') (redis_push ''1'' (demo_kick ''k1'') (\<lambda>_. []))\<rparr>))) =
   [demo_kick ''k1'', demo_kick ''k2'']"
proof -
  have one: "str_of_nat 1 = ''1''" by code_simp
  show ?thesis
    using relay_is_fifo [of "(new_connection ''c1'')\<lparr>cn_session := Some demo_session\<rparr>" demo_session
        "demo_world\<lparr>w_redis := redis_push ''1'' (demo_kick ''k2'') (redis_push ''1'' (demo_kick ''k1'') (\<lambda>_. []))\<rparr>" "[demo_kick ''k1'', demo_kick ''k2'']"] one
    by (simp add: demo_session_def new_connection_def redis_waiting_def redis_push_def queue_key_def numeral_2_eq_2)
qed

text \<open>
  C22. Wherever a run of the relay is cut, after a pop or after a send, no message is lost: each one
  that was waiting has been sent, still waits, or is held in the processing list. But nothing reads
  the processing list back: a run sends only what was waiting in the queue, so what a crash left in
  that list is sent by no later run.
\<close>

theorem relay_loses_nothing:
  "set (redis_waiting a r) \<subseteq>
     set (fst (listen redis_pop redis_ack a its r)) \<union>
     set (redis_waiting a (snd (listen redis_pop redis_ack a its r))) \<union>
     set (redis_holding a (snd (listen redis_pop redis_ack a its r))) \<and>
   set (fst (listen redis_pop redis_ack a its r)) \<subseteq> set (redis_waiting a r)"
  using redis_queue.listen_no_loss [of a r its] redis_queue.listen_sent_waiting [of a its r] by blast

text \<open>
  The two forms of each liveness test agree. The row filters the queries use select exactly the
  agents the predicates accept, for liveness and for availability; the filter of the sweep and the
  predicate it re-checks under the lock differ for one agent only, whose heartbeat is exactly as old
  as the window.
\<close>

theorem filters_are_predicates:
  "live_agent_q env t a = is_active env t a \<and> agent_available_q env t a = agent_is_available env t a \<and>
   (agent_is_stale env t (ag_connected a) (ag_last_seen a) \<longleftrightarrow>
      stale_agent_q env t a \<or> (ag_connected a \<and> ag_last_seen a = Some (t - stale_after_seconds env))) \<and>
   (agent_is_live env t (ag_connected a) (ag_last_seen a) \<noteq>
      agent_is_stale env t (ag_connected a) (ag_last_seen a) \<longleftrightarrow> ag_connected a)"
  by (intro conjI live_q_is_live available_q_is_available stale_q_iff live_or_stale)

section \<open>Registration\<close>

lemma caller_id_frame:
  assumes "get_or_create_caller_id i w = (r, w1)"
  shows "w_tasks w1 = w_tasks w \<and> w_events w1 = w_events w \<and> w_agents w1 = w_agents w \<and> now w1 = now w"
  using assms by (auto simp: get_or_create_caller_id_def get_or_create_caller_def split: option.splits prod.splits)

lemma caller_id_ok:
  assumes "t_get (w_agents w) i = Some a"
  obtains cid w1 where "get_or_create_caller_id i w = (Inr cid, w1)"
  using assms that by (fastforce simp: get_or_create_caller_id_def split: prod.splits)

text \<open>A claim that may go through does, and leaves the row it wrote.\<close>

lemma connected_claims:
  assumes "t_wf (w_tasks w)" and "t_get (w_agents w) i = Some a" and "force \<or> \<not> is_active env (now w) a"
  obtains cl w2 where "on_agent_connected env i conn sess force w = (Inr cl, w2)" "lcm_claimed cl"
    "lcm_epoch cl = Some (ag_lease_epoch a + 1)" "now w2 = now w"
    "executor_grace w2 = gs_cancel (str_of_nat i) (executor_grace w)"
    "t_get (w_agents w2) i = Some (a\<lparr>ag_lease_epoch := ag_lease_epoch a + 1, ag_connected := True,
       ag_last_seen := Some (now w), ag_active_connection_id := conn, ag_active_session_id := sess\<rparr>)"
proof -
  let ?a = "a\<lparr>ag_lease_epoch := ag_lease_epoch a + 1, ag_connected := True,
       ag_last_seen := Some (now w), ag_active_connection_id := conn, ag_active_session_id := sess\<rparr>"
  let ?r = "\<lparr>lc_claimed = True, lc_epoch = Some (ag_lease_epoch a + 1),
             lc_prior_session = ag_active_session_id a, lc_displaced = ag_connected a\<rparr>"
  obtain w1 where claim: "claim_lease_sync env i conn sess force w = (Inr ?r, w1)"
    and w1: "t_get (w_agents w1) i = Some ?a" "now w1 = now w" "w_tasks w1 = w_tasks w"
      "executor_grace w1 = executor_grace w"
    using assms(2,3) by (auto simp: claim_lease_sync_def is_active_def t_get_upd)
  let ?w2 = "w1\<lparr>executor_grace := gs_cancel (str_of_nat i) (executor_grace w1)\<rparr>"
  have "fst (fail_and_cascade_inflight env (in_flight i ?w2) ?w2) = Inr ()"
    by (rule in_flight_settles(1) [where ag = ?a]) (use assms(1) w1 in simp_all)
  then obtain w3 where w3: "fail_and_cascade_inflight env (in_flight i ?w2) ?w2 = (Inr (), w3)"
    by (metis prod.collapse)
  have st: "now w3 = now w" "w_agents w3 = w_agents w1"
    "executor_grace w3 = gs_cancel (str_of_nat i) (executor_grace w)"
    using cascade_static [of ?w2 env "in_flight i ?w2"] w3 w1(2,4) by (simp_all add: same_static_def)
  show ?thesis
  proof (cases "ag_active_session_id a \<noteq> None \<and> sess \<noteq> None \<and> ag_active_session_id a \<noteq> sess")
    case True
    show ?thesis
      by (rule that [of "\<lparr>lcm_claimed = True, lcm_epoch = Some (ag_lease_epoch a + 1), lcm_tasks = [],
            lcm_displaced_incumbent = ag_connected a\<rparr>" w3])
        (use True claim w3 st w1 in \<open>simp_all add: on_agent_connected_def Let_def\<close>)
  next
    case False
    show ?thesis
      by (rule that [of "\<lparr>lcm_claimed = True, lcm_epoch = Some (ag_lease_epoch a + 1), lcm_tasks = in_flight i ?w2,
            lcm_displaced_incumbent = ag_connected a\<rparr>" ?w2])
        (use False claim w1 in \<open>auto simp: on_agent_connected_def Let_def\<close>)
  qed
qed

text \<open>
  C17. A Register of a known agent has one of three outcomes. A blocked agent is closed with the code
  for blocked agents and nothing is written. An unblocked agent with a live incumbent is, unless it
  forces its way, told so and closed with the code for a connected agent, without a session and
  without a change to any agent, task or event. Otherwise the connection gets a session with the
  next token of the agent, the row names this connection, and the last thing sent is the Init.
\<close>

theorem register_outcomes:
  assumes "default_authenticator identify r w = Inr i" and "t_get (w_agents w) i = Some a"
    and "t_wf (w_tasks w)" and "on_register env identify r c w = (res, c', w')"
  shows "if ag_blocked a then res = Inr () \<and> c' = close_with AGENT_IS_BLOCKED_CODE c \<and> w' = w
         else if is_active env (now w) a \<and> \<not> rg_force r then
           res = Inr () \<and> cn_session c' = cn_session c \<and>
           cn_closed c' = cn_closed c @ [AGENT_ALREADY_CONNECTED_CODE] \<and>
           w_agents w' = w_agents w \<and> w_tasks w' = w_tasks w \<and> w_events w' = w_events w
         else
           res = Inr () \<and> token c' = Some (i, ag_lease_epoch a + 1) \<and> cn_closed c' = cn_closed c \<and>
           (\<exists>a'. t_get (w_agents w') i = Some a' \<and> ag_lease_epoch a' = ag_lease_epoch a + 1 \<and>
                 ag_active_connection_id a' = Some (cn_connection_id c) \<and> is_active env (now w') a' = (0 < stale_after_seconds env)) \<and>
           (\<exists>m. cn_sent c' = cn_sent c @ [Init m] \<and> in_agent m = str_of_nat i)"
proof -
  obtain cid w1 where id: "get_or_create_caller_id i w = (Inr cid, w1)" by (rule caller_id_ok [OF assms(2)])
  note fr = caller_id_frame [OF id]
  let ?c1 = "c\<lparr>cn_caller_group := Some cid, cn_agent_group := Some i\<rparr>"
  show ?thesis
  proof (cases "ag_blocked a")
    case True
    then show ?thesis using assms(1,2,4) by (simp add: on_register_def)
  next
    case unblocked: False
    show ?thesis
    proof (cases "is_active env (now w) a \<and> \<not> rg_force r")
      case True
      then have "claim_lease_sync env i (Some (cn_connection_id c)) (rg_session_id r) (rg_force r) w1 =
          (Inr \<lparr>lc_claimed = False, lc_epoch = None, lc_prior_session = ag_active_session_id a,
                lc_displaced = False\<rparr>, w1)"
        using fr assms(2) by (simp add: claim_lease_sync_def is_active_def)
      then show ?thesis
        using True unblocked assms(1,2,4) id fr
        by (auto simp: on_register_def on_agent_connected_def close_with_def send_message_def split_beta Let_def)
    next
      case False
      obtain cl w2 where cl: "on_agent_connected env i (Some (cn_connection_id c)) (rg_session_id r) (rg_force r) w1 = (Inr cl, w2)"
        "lcm_claimed cl" "lcm_epoch cl = Some (ag_lease_epoch a + 1)" "now w2 = now w1"
        "t_get (w_agents w2) i = Some (a\<lparr>ag_lease_epoch := ag_lease_epoch a + 1, ag_connected := True,
           ag_last_seen := Some (now w1), ag_active_connection_id := Some (cn_connection_id c),
           ag_active_session_id := rg_session_id r\<rparr>)"
        by (rule connected_claims [of w1 i a "rg_force r" env "Some (cn_connection_id c)" "rg_session_id r"])
          (use assms(2,3) fr False in auto)
      have reg: "(res, c', w') = (Inr (), accept_claim env i (rg_session_id r) cid cl ?c1 w2)"
        using assms(1,2,4) unblocked id cl(1,2) by (simp add: on_register_def split_beta)
      have "token c' = Some (i, ag_lease_epoch a + 1)" using reg cl(3) accept_claim_token by (metis option.sel prod.inject fst_conv)
      moreover have "w_agents w' = w_agents w2 \<and> now w' = now w2"
        using reg by (simp add: accept_claim_def Let_def split_beta)
      moreover have "cn_closed c' = cn_closed c \<and> (\<exists>m. cn_sent c' = cn_sent c @ [Init m] \<and> in_agent m = str_of_nat i)"
        using reg by (simp add: accept_claim_def Let_def split_beta send_message_def kick_others_def)
      ultimately show ?thesis
        using reg unblocked False cl(4,5) fr by (simp add: is_active_def agent_is_live_iff)
    qed
  qed
qed

definition demo_register :: register where
  "demo_register = \<lparr>msg_id = ''m'', rg_token = ''t'', rg_force = True, rg_session_id = Some ''s1''\<rparr>"

lemma register_outcomes_witness:
  "\<exists>res c' w'. on_register demo_env (\<lambda>_. Some (1, 1, 1)) demo_register (new_connection ''c2'') demo_world = (res, c', w') \<and>
     token c' = Some (1, 4)"
proof -
  obtain res c' w' where reg:
    "on_register demo_env (\<lambda>_. Some (1, 1, 1)) demo_register (new_connection ''c2'') demo_world = (res, c', w')"
    by (cases "on_register demo_env (\<lambda>_. Some (1, 1, 1)) demo_register (new_connection ''c2'') demo_world")
  have auth: "default_authenticator (\<lambda>_. Some (1, 1, 1)) demo_register demo_world = Inr 1"
    by (simp add: default_authenticator_def t_first_def t_filter_def demo_world_def demo_agent_def)
  have wf: "t_wf (w_tasks demo_world)" using demo_ledger by (simp add: ledger_def)
  have a: "t_get (w_agents demo_world) 1 = Some demo_agent" by simp
  have "\<not> ag_blocked demo_agent" "rg_force demo_register" "ag_lease_epoch demo_agent = 3"
    by (simp_all add: demo_agent_def demo_register_def)
  with register_outcomes [OF auth a wf reg] have "token c' = Some (1, 4)" by simp
  with reg show ?thesis by blast
qed

section \<open>Grace\<close>


definition grace_env :: rekuest_env where
  "grace_env = demo_env\<lparr>grace_cfg := \<lparr>gc_default = Some 5000000, gc_physical = None, gc_progress_lease = None\<rparr>\<rparr>"


text \<open>
  A grace timer can escape its scheduler. When a timer is re-armed while the action of the
  earlier one still runs, the end of that action unregisters the key, which by then names the new
  timer: the new timer sleeps on, and cancelling the key does not reach it any more.
\<close>

theorem rearmed_timer_escapes:
  assumes "gs_wf g" and "t + d \<le> t1"
    and "h = length (gs_timers g)" and "g1 = gs_wake t1 h (gs_schedule t k d act g)"
    and "g2 = gs_finish h (gs_schedule t2 k d2 act2 g1)"
  shows "gs_sleeping k (gs_cancel k g2) = {Suc h} \<and> \<not> gs_contains k g2"
proof -
  let ?g0 = "gs_schedule t k d act g" and ?g3 = "gs_schedule t2 k d2 act2 g1"
  have "gs_due t1 h ?g0" using assms(2,3) by (simp add: gs_due_def gs_schedule_new)
  then have g1: "g1 = gs_set_state h Running ?g0" by (simp add: assms(4) gs_wake_def)
  have wf: "gs_wf g1" using gs_wf_wake [OF gs_wf_schedule [OF assms(1)]] by (simp add: assms(4))
  have len: "length (gs_timers g1) = Suc h" by (simp add: g1 gs_schedule_new assms(3))
  have h1: "tm_state (gs_timers g1 ! h) = Running" "tm_key (gs_timers g1 ! h) = k" "dict_get (gs_tasks g1) k = Some h"
    using assms(3) by (simp_all add: g1 gs_schedule_new) (simp add: gs_schedule_def Let_def gs_cancel_timers)
  have h3: "tm_state (gs_timers ?g3 ! h) = Cancelling" "tm_key (gs_timers ?g3 ! h) = k" "h < length (gs_timers ?g3)"
    using h1 len by (simp_all add: gs_schedule_def Let_def gs_cancel_def nth_append)
  then have g2: "g2 = gs_set_state h Finished (?g3\<lparr>gs_tasks := AList.delete k (gs_tasks ?g3)\<rparr>)"
    by (simp add: assms(5) gs_finish_def)
  have gone: "dict_get (gs_tasks g2) k = None" by (simp add: g2)
  have "gs_sleeping k g2 = gs_sleeping k ?g3"
    using h3 by (auto simp: g2 gs_sleeping_def split: if_splits)
  also have "\<dots> = {Suc h}" using gs_sleeping_schedule [OF wf, of k t2 d2 act2] len by simp
  finally show ?thesis
    using gone gone [unfolded dict_get_def] by (simp add: gs_cancel_def gs_contains_def dict_has_def)
qed

lemma rearmed_timer_escapes_witness:
  "gs_sleeping ''1'' (gs_cancel ''1'' (gs_finish 0 (gs_schedule 6 ''1'' 5 (Reconcile_orphans 1)
     (gs_wake 5 0 (gs_schedule 0 ''1'' 5 (Reconcile_orphans 1) gs_init))))) = {1}"
  using rearmed_timer_escapes [OF gs_wf_init, of 0 5 5 0 "gs_wake 5 0 (gs_schedule 0 ''1'' 5 (Reconcile_orphans 1) gs_init)" "''1''"]
  by (simp add: gs_init_def)

section \<open>The sweep\<close>

definition revoked :: "agent \<Rightarrow> agent" where
  "revoked a = a\<lparr>ag_connected := False, ag_lease_epoch := ag_lease_epoch a + 1\<rparr>"

lemma heal_one:
  assumes "ledger w" and "t_wf (w_agents w)" and "t_get (w_agents w) i = Some a"
    and "stale_agent_q env (now w) a"
  obtains w2 where "and_then (revoke_lease_sync env i w)
       (\<lambda>won w1. if \<not> won then heal_agents env rest n w1
                 else and_then (reconcile_orphaned_executor_work env i w1)
                        (\<lambda>_. heal_agents env rest (Suc n))) = heal_agents env rest (Suc n) w2"
    "ledger w2" "now w2 = now w" "w_agents w2 = t_upd i (\<lambda>_. revoked a) (w_agents w)"
proof -
  let ?f = "\<lambda>r. r\<lparr>ag_connected := False, ag_lease_epoch := ag_lease_epoch a + 1\<rparr>"
  have "agent_is_stale env (now w) (ag_connected a) (ag_last_seen a)"
    using assms(4) stale_q_iff [of env "now w" a] by simp
  then have rev: "revoke_lease_sync env i w = (Inr True, save_agent i ?f w)"
    using assms(3) by (simp add: revoke_lease_sync_def)
  let ?w1 = "save_agent i ?f w"
  have L1: "ledger ?w1" using keeps_lease(2) [of w env i] assms(1) rev by (simp add: keeps_def)
  have a1: "t_get (w_agents ?w1) i = Some (revoked a)" using assms(3) by (simp add: t_get_upd revoked_def)
  have eq: "reconcile_orphaned_executor_work env i ?w1 = fail_and_cascade_inflight env (in_flight i ?w1) ?w1"
    using a1 by (simp add: reconcile_orphaned_executor_work_def revoked_def)
  obtain w2 where w2: "fail_and_cascade_inflight env (in_flight i ?w1) ?w1 = (Inr (), w2)"
    using in_flight_settles(1) [of ?w1 i "revoked a" env] L1 a1 by (metis ledger_def prod.collapse)
  have st: "now w2 = now w" "w_agents w2 = w_agents ?w1"
    using cascade_static [of ?w1 env "in_flight i ?w1"] w2 by (simp_all add: same_static_def)
  have "ledger w2" using keeps_fail_and_cascade [of ?w1 env "in_flight i ?w1"] w2 L1 by (simp add: keeps_def)
  moreover have "t_upd i ?f (w_agents w) = t_upd i (\<lambda>_. revoked a) (w_agents w)"
    by (subst t_upd_same_row [OF assms(2,3)]) (simp add: revoked_def)
  ultimately show ?thesis using that [of w2] rev eq w2 st by simp
qed

lemma t_filter_none:
  "t_wf tb \<Longrightarrow> (\<And>j b. t_get tb j = Some b \<Longrightarrow> \<not> P b) \<Longrightarrow> t_filter P tb = []"
  by (auto simp: t_filter_def filter_empty_conv t_get_rows)

lemma heal_all:
  assumes "ledger w" and "t_wf (w_agents w)" and "distinct (map fst as)"
    and "\<forall>(i, a) \<in> set as. t_get (w_agents w) i = Some a \<and> stale_agent_q env (now w) a"
  shows "fst (heal_agents env as n w) = Inr (n + length as) \<and> now (snd (heal_agents env as n w)) = now w \<and>
    t_wf (w_agents (snd (heal_agents env as n w))) \<and>
    (\<forall>j. t_get (w_agents (snd (heal_agents env as n w))) j =
       (if j \<in> fst ` set as then map_option revoked (t_get (w_agents w) j) else t_get (w_agents w) j))"
  using assms
proof (induction "as" arbitrary: n w)
  case Nil
  then show ?case by simp
next
  case (Cons ia "as")
  obtain i a where ia: "ia = (i, a)" by (cases ia)
  from Cons.prems ia have a: "t_get (w_agents w) i = Some a" "stale_agent_q env (now w) a" by auto
  obtain w2 where step: "heal_agents env (ia # as) n w = heal_agents env as (Suc n) w2"
    and w2: "ledger w2" "now w2 = now w" "w_agents w2 = t_upd i (\<lambda>_. revoked a) (w_agents w)"
    by (rule heal_one [OF Cons.prems(1,2) a, of "as" n], rule that) (simp_all add: ia)
  have i: "i \<notin> fst ` set as" using Cons.prems(3) ia by simp
  have rest: "\<forall>(j, b) \<in> set as. t_get (w_agents w2) j = Some b \<and> stale_agent_q env (now w2) b"
  proof clarify
    fix j b assume jb: "(j, b) \<in> set as"
    then have "j \<noteq> i" using i by force
    with Cons.prems(4) jb show "t_get (w_agents w2) j = Some b \<and> stale_agent_q env (now w2) b"
      by (auto simp: w2 t_get_upd)
  qed
  have "t_wf (w_agents w2)" using Cons.prems(2) by (simp add: w2 t_wf_upd)
  from Cons.IH [OF w2(1) this _ rest, of "Suc n"] Cons.prems(3) ia
  show ?case unfolding step using i a by (auto simp: w2 t_get_upd)
qed

text \<open>
  C13. The sweep always returns, revokes exactly the websocket agents whose heartbeat is older than
  the window and says how many, leaves every other agent's row as it was, and settles the matter: a
  second sweep at the same time finds nobody and changes nothing.
\<close>

theorem sweep_heals:
  assumes "ledger w" and "t_wf (w_agents w)"
  shows "\<exists>w'. reconcile_stale_agents env w =
        (Inr (length (t_filter (\<lambda>a. ag_kind a = WEBSOCKET \<and> stale_agent_q env (now w) a) (w_agents w))), w') \<and>
      (\<forall>i a. t_get (w_agents w) i = Some a \<longrightarrow>
         t_get (w_agents w') i = Some (if ag_kind a = WEBSOCKET \<and> stale_agent_q env (now w) a then revoked a else a)) \<and>
      reconcile_stale_agents env w' = (Inr 0, w')"
proof -
  let ?P = "\<lambda>a. ag_kind a = WEBSOCKET \<and> stale_agent_q env (now w) a"
  let ?as = "t_filter ?P (w_agents w)"
  let ?w' = "snd (heal_agents env ?as 0 w)"
  have "distinct (map fst ?as)"
    using assms(2) unfolding t_filter_def t_wf_def by (blast intro: distinct_map_filter)
  moreover have "\<forall>(i, a) \<in> set ?as. t_get (w_agents w) i = Some a \<and> stale_agent_q env (now w) a"
    by (auto simp: t_filter_get [OF assms(2)])
  ultimately have all: "fst (heal_agents env ?as 0 w) = Inr (length ?as)" "now ?w' = now w" "t_wf (w_agents ?w')"
    "\<And>j. t_get (w_agents ?w') j =
       (if j \<in> fst ` set ?as then map_option revoked (t_get (w_agents w) j) else t_get (w_agents w) j)"
    using heal_all [OF assms, of ?as env 0] by auto
  have mem: "j \<in> fst ` set ?as \<longleftrightarrow> ?P a" if "t_get (w_agents w) j = Some a" for j a
  proof -
    have "j \<in> fst ` set ?as \<longleftrightarrow> (\<exists>b. (j, b) \<in> set ?as)" by force
    then show ?thesis using that by (simp add: t_filter_get [OF assms(2)])
  qed
  have get: "t_get (w_agents ?w') i = Some (if ?P a then revoked a else a)" if "t_get (w_agents w) i = Some a" for i a
    using all(4) [of i] mem [OF that] that by simp
  have none: "\<not> ?P b" if b: "t_get (w_agents ?w') j = Some b" for j b
  proof (cases "t_get (w_agents w) j")
    case None
    with all(4) [of j] b show ?thesis by (simp split: if_splits)
  next
    case (Some a)
    have "\<not> ?P (revoked a)" by (simp add: revoked_def stale_agent_q_def)
    moreover have "b = (if ?P a then revoked a else a)" using get [OF Some] b by simp
    ultimately show ?thesis by (cases "?P a") simp_all
  qed
  have "t_filter ?P (w_agents ?w') = []"
    by (rule t_filter_none [OF all(3)]) (use none in blast)
  then have "reconcile_stale_agents env ?w' = (Inr 0, ?w')"
    using all(2) by (simp add: reconcile_stale_agents_def)
  moreover have "reconcile_stale_agents env w = (Inr (length ?as), ?w')"
    using all(1) unfolding reconcile_stale_agents_def by (metis prod.collapse)
  ultimately show ?thesis using get by blast
qed

lemma sweep_heals_witness:
  "\<exists>w'. fst (reconcile_stale_agents demo_env (demo_world\<lparr>now := 90000001\<rparr>)) = Inr 1 \<and>
     snd (reconcile_stale_agents demo_env (demo_world\<lparr>now := 90000001\<rparr>)) = w' \<and>
     t_get (w_agents w') 1 = Some (revoked demo_agent)"
proof -
  let ?w = "demo_world\<lparr>now := 90000001\<rparr>"
  have "ledger ?w" using demo_ledger by (simp add: ledger_def)
  moreover have "t_wf (w_agents ?w)" by (simp add: demo_world_def t_wf_def)
  moreover have "stale_agent_q demo_env 90000001 demo_agent" "ag_kind demo_agent = WEBSOCKET"
    by (simp_all add: stale_agent_q_def demo_agent_def stale_after_seconds_def demo_env_def)
  moreover from this have "length (t_filter (\<lambda>a. ag_kind a = WEBSOCKET \<and> stale_agent_q demo_env (now ?w) a) (w_agents ?w)) = 1"
    by (simp add: t_filter_def demo_world_def)
  ultimately show ?thesis using sweep_heals [of ?w demo_env] by auto
qed

end
