(* ===== verification/Assign_Properties.thy ===== *)
theory Assign_Properties
  imports Agent_Properties
begin

text \<open>
  Properties of an assignment: what a successful one stores and sends, for a plain and for a
  higher-order implementation, and what its refusals leave behind.
\<close>

section \<open>What the steps of an assignment leave\<close>

lemma and_then_Inr:
  "and_then r k = (Inr y, s) \<longleftrightarrow> (\<exists>x s1. r = (Inr x, s1) \<and> k x s1 = (Inr y, s))"
  by (cases r; cases "fst r") auto

text \<open>The queues after a message was handed to the transport of agent \<open>a\<close>.\<close>

definition queued_for :: "nat \<Rightarrow> to_agent_message \<Rightarrow> world \<Rightarrow> to_agent_message redis" where
  "queued_for a m w =
     (case t_get (w_agents w) a of
        None \<Rightarrow> w_redis w
      | Some ag \<Rightarrow> (if ag_kind ag = WEBHOOK then w_redis w else redis_push (str_of_nat a) m (w_redis w)))"

definition dispatches :: "nat \<Rightarrow> task \<Rightarrow> world \<Rightarrow> world \<Rightarrow> bool" where
  "dispatches i t w w' \<longleftrightarrow>
     (\<exists>m. as_task m = str_of_nat i \<and> as_args m = tk_args t \<and> as_reference m = Some (tk_reference t) \<and>
          w_redis w' = queued_for (tk_agent t) (Assign m) w)"

lemma dispatches_cong:
  "w_agents v = w_agents w \<Longrightarrow> w_redis v = w_redis w \<Longrightarrow> dispatches i t v w' = dispatches i t w w'"
  by (simp add: dispatches_def queued_for_def cong: option.case_cong if_cong)

lemma dispatch_task_ok:
  assumes "dispatch_task env ctx i c im ac w = (Inr (), w')" and "t_get (w_tasks w) i = Some t"
  shows "db w' = db w \<and> dispatches i t w w'"
proof -
  from assms obtain token w1 where mint: "mint_token_for_task env i t ctx w = (Inr token, w1)"
    and send: "(let (mid, w2) = fresh_uuid env w1 in broadcast_to env (tk_agent t)
        (Assign (assign_message env mid i (tk_args t) ctx (tk_reference t) c im ac token)) w2) = (Inr (), w')"
    by (auto simp: dispatch_task_def and_then_Inr)
  let ?m = "assign_message env (fst (fresh_uuid env w1)) i (tk_args t) ctx (tk_reference t) c im ac token"
  let ?w2 = "snd (fresh_uuid env w1)"
  have send: "broadcast_to env (tk_agent t) (Assign ?m) ?w2 = (Inr (), w')" using send by (simp add: split_beta)
  have w1: "db w1 = db w" "w_redis w1 = w_redis w"
    using db_mint [of env i t ctx w] redis_mint [of env i t ctx w] mint by simp_all
  have ag: "w_agents ?w2 = w_agents w" using db_eqD(2) [OF w1(1)] by simp
  have "db w' = db w"
    using db_broadcast_to [of env "tk_agent t" "Assign ?m" ?w2] send w1(1) by simp
  moreover have rd: "w_redis ?w2 = w_redis w" using w1(2) by simp
  have "w_redis w' = queued_for (tk_agent t) (Assign ?m) w"
    using redis_broadcast_to [of env "tk_agent t" "Assign ?m" ?w2] unfolding rd ag send
    by (simp add: queued_for_def)
  ultimately show ?thesis
    unfolding dispatches_def by (auto simp: assign_message_def intro!: exI [of _ ?m])
qed

lemma create_task_ok:
  assumes "create_task parent hooks mk w = (Inr i, w')"
  shows "hooks = [] \<and> i = Suc (seq (w_tasks w)) \<and> w_redis w' = w_redis w \<and>
    (\<exists>p. w_tasks w' = t_add (mk p) (w_tasks w) \<and> w_agents w' = w_agents w \<and> w_events w' = w_events w \<and>
       w_callers w' = w_callers w \<and> w_implementations w' = w_implementations w \<and>
       (parent = None \<longrightarrow> p = None) \<and>
       (\<forall>s. parent = Some s \<longrightarrow> (\<exists>n. p = Some n \<and> py_int s = Some (int n) \<and> t_get (w_tasks w) n \<noteq> None)))"
proof (cases parent)
  case None
  with assms show ?thesis
    by (auto simp: create_task_def Let_def split_beta split: if_splits)
next
  case (Some s)
  with assms obtain n where n: "py_int s = Some n" by (auto simp: create_task_def split: option.splits)
  with assms Some have "\<not> (n < 0 \<or> t_get (w_tasks w) (nat n) = None)" "hooks = []"
    "i = Suc (seq (w_tasks w))" "w' = snd (insert_task (mk (Some (nat n))) w)"
    by (auto simp: create_task_def Let_def split_beta split: if_splits)
  then show ?thesis using Some n by (auto intro!: exI [of _ "Some (nat n)"] exI [of _ "nat n"])
qed

text \<open>A fresh row of an assignment for caller \<open>c\<close> with the given arguments and reference.\<close>

definition fresh_row :: "rekuest_env \<Rightarrow> nat \<Rightarrow> assign_input \<Rightarrow> task \<Rightarrow> bool" where
  "fresh_row env c input t \<longleftrightarrow>
     starts_open t \<and> tk_latest_event_kind t = STARTED \<and> tk_latest_instruct_kind t = I_ASSIGN \<and>
     tk_caller t = Some c \<and> tk_args t = ai_args input \<and>
     tk_args_hash t = Some (args_hash env (ai_args input)) \<and> tk_root t = None \<and>
     (\<forall>s. ai_reference input = Some s \<and> s \<noteq> [] \<longrightarrow> tk_reference t = s) \<and>
     (case ai_parent input of None \<Rightarrow> tk_parent t = None
      | Some s \<Rightarrow> (\<exists>n. tk_parent t = Some n \<and> py_int s = Some (int n)))"

lemma reference_given:
  "reference_or_fresh env r w = (s, w1) \<Longrightarrow>
   (\<forall>x. r = Some x \<and> x \<noteq> [] \<longrightarrow> s = x) \<and> w_redis w1 = w_redis w \<and> db w1 = db w"
  by (auto simp: reference_or_fresh_def fresh_uuid_def split: option.splits if_splits)

lemma fresh_row_new:
  "(\<forall>s. ai_reference input = Some s \<and> s \<noteq> [] \<longrightarrow> r = s) \<Longrightarrow> (ai_parent input = None \<longrightarrow> p = None) \<Longrightarrow>
   (\<forall>s. ai_parent input = Some s \<longrightarrow> (\<exists>n. p = Some n \<and> py_int s = Some (int n) \<and> P n)) \<Longrightarrow>
   fresh_row env c input (new_task env tg input acted r deps c w p) \<and>
   fresh_row env c input (wrapper_task env higher input acted r deps c w p)"
  by (cases "ai_parent input") (auto simp: fresh_row_def starts_open_def new_task_def wrapper_task_def)

lemma start_task_ok:
  assumes "start_task env ctx input tg im ac c w = (Inr i, w')" and wf: "t_wf (w_tasks w)"
  obtains t where "i = Suc (seq (w_tasks w))" "w_tasks w' = t_add t (w_tasks w)" "fresh_row env c input t"
    "tk_agent t = tg_agent tg" "tk_implementation t = Some (tg_implementation tg)" "tk_action t = tg_action tg"
    "w_events w' = w_events w" "w_callers w' = w_callers w" "dispatches i t w w'"
    "w_agents w' = w_agents w" "w_implementations w' = w_implementations w"
    "ai_hooks input = None \<or> ai_hooks input = Some []"
proof -
  obtain r w1 where r: "reference_or_fresh env (ai_reference input) w = (r, w1)"
    by (cases "reference_or_fresh env (ai_reference input) w")
  note ref = reference_given [OF r]
  let ?hooks = "case ai_hooks input of None \<Rightarrow> [] | Some hs \<Rightarrow> hs"
  have hooks: "run_init_hooks ?hooks = Inr () \<or> (\<exists>e. run_init_hooks ?hooks = Inl e)"
    by (cases "run_init_hooks ?hooks") auto
  from assms(1) r hooks obtain acted deps w2 w3 where
    c: "create_task (ai_parent input) ?hooks (new_task env tg input acted r deps c w1) w1 = (Inr i, w2)"
    and d: "dispatch_task env ctx i (default_bool (ai_capture input)) (tg_implementation tg, im) ac w2 = (Inr (), w3)"
    and e: "w' = w3"
    by (auto simp: start_task_def Let_def and_then_Inr split: sum.splits prod.splits)
  note cr = create_task_ok [OF c]
  from cr obtain p where p: "w_tasks w2 = t_add (new_task env tg input acted r deps c w1 p) (w_tasks w1)"
    "w_agents w2 = w_agents w1" "w_events w2 = w_events w1" "w_callers w2 = w_callers w1"
    "w_implementations w2 = w_implementations w1"
    "ai_parent input = None \<longrightarrow> p = None"
    "\<forall>s. ai_parent input = Some s \<longrightarrow> (\<exists>n. p = Some n \<and> py_int s = Some (int n) \<and> t_get (w_tasks w1) n \<noteq> None)"
    by - ((elim conjE exE), (rule that; assumption))
  let ?t = "new_task env tg input acted r deps c w1 p"
  have fr: "w_tasks w1 = w_tasks w" "w_agents w1 = w_agents w" "w_events w1 = w_events w"
    "w_callers w1 = w_callers w" "w_implementations w1 = w_implementations w" "w_redis w1 = w_redis w"
    using ref db_eqD [of w1 w] by simp_all
  have "t_get (w_tasks w2) i = Some ?t" using cr wf by (simp add: p(1) fr(1) t_get_add)
  from dispatch_task_ok [OF d this] have w3: "db w3 = db w2" "dispatches i ?t w2 w3" by simp_all
  note fr3 = db_eqD [OF w3(1)]
  have "dispatches i ?t w w3"
    using w3(2) dispatches_cong [of w2 w] cr fr p(2) by simp
  moreover have "fresh_row env c input ?t"
    using fresh_row_new [OF _ p(6,7)] ref by blast
  moreover have "ai_hooks input = None \<or> ai_hooks input = Some []" using cr by (auto split: option.splits)
  ultimately show ?thesis
    using that [of ?t] cr p fr fr3 e by (simp add: new_task_def)
qed

text \<open>The child's row of a higher-order assignment.\<close>

definition child_row :: "nat \<Rightarrow> json dict \<Rightarrow> nat \<Rightarrow> nat \<times> implementation \<Rightarrow> task \<Rightarrow> bool" where
  "child_row c args h lower t \<longleftrightarrow>
     starts_open t \<and> tk_parent t = Some h \<and> tk_root t = Some h \<and> tk_args t = args \<and>
     tk_caller t = Some c \<and> tk_implementation t = Some (fst lower) \<and> tk_agent t = im_agent (snd lower) \<and>
     tk_action t = im_action (snd lower) \<and> tk_latest_event_kind t = STARTED"

lemma start_lower_ok:
  assumes "start_lower env ctx lower la args deps c h w = (Inr h', w')" and wf: "t_wf (w_tasks w)"
  obtains t where "h' = h" "w_tasks w' = t_add t (w_tasks w)" "child_row c args h lower t"
    "dispatches (Suc (seq (w_tasks w))) t w w'" "w_events w' = w_events w" "w_callers w' = w_callers w"
    "w_agents w' = w_agents w"
proof -
  obtain r w1 where r: "fresh_uuid env w = (r, w1)" by (cases "fresh_uuid env w")
  have w1: "db w1 = db w" "w_redis w1 = w_redis w" using r by (auto simp: fresh_uuid_def)
  note fr = db_eqD [OF w1(1)]
  from assms(1) r obtain acted where "acted_on_from_args args la = Inr acted"
    by (auto simp: start_lower_def split: sum.splits)
  let ?t = "lower_task env lower args acted r deps c h w1"
  let ?w2 = "snd (insert_task ?t w1)"
  from assms(1) r \<open>acted_on_from_args args la = Inr acted\<close> have
    d: "dispatch_task env ctx (Suc (seq (w_tasks w))) False lower la ?w2 = (Inr (), w')" and h: "h' = h"
    by (auto simp: start_lower_def Let_def split_beta and_then_Inr fr(7))
  have "t_get (w_tasks ?w2) (Suc (seq (w_tasks w))) = Some ?t" using wf fr by (simp add: t_get_add)
  from dispatch_task_ok [OF d this] have w': "db w' = db ?w2" "dispatches (Suc (seq (w_tasks w))) ?t ?w2 w'"
    by simp_all
  have "dispatches (Suc (seq (w_tasks w))) ?t w w'"
    using w'(2) dispatches_cong [of ?w2 w] fr w1(2) by simp
  moreover have "child_row c args h lower ?t" by (simp add: child_row_def lower_task_def starts_open_def)
  ultimately show ?thesis using that [of ?t] h db_eqD [OF w'(1)] fr by simp
qed

lemma start_wrapper_ok:
  assumes "start_wrapper env ctx input higher ha lower la c w = (Inr i, w')" and wf: "t_wf (w_tasks w)"
  obtains t ct args where "i = Suc (seq (w_tasks w))" "w_tasks w' = t_add ct (t_add t (w_tasks w))"
    "fresh_row env c input t" "tk_implementation t = Some (fst higher)"
    "build_lower_args (im_higher_order_config (snd higher)) (ai_args input) = Inr args"
    "child_row c args i lower ct" "dispatches (Suc i) ct w w'" "w_events w' = w_events w"
    "w_callers w' = w_callers w" "w_agents w' = w_agents w" "ai_hooks input = None \<or> ai_hooks input = Some []"
proof -
  from assms(1) obtain hd' args lds where pj: "project_inputs env ctx input higher w = Inr (hd', args, lds)"
    by (auto simp: start_wrapper_def split: sum.splits)
  then have args: "build_lower_args (im_higher_order_config (snd higher)) (ai_args input) = Inr args"
    by (auto simp: project_inputs_def split: sum.splits)
  obtain r w1 where r: "reference_or_fresh env (ai_reference input) w = (r, w1)"
    by (cases "reference_or_fresh env (ai_reference input) w")
  note ref = reference_given [OF r]
  let ?hooks = "case ai_hooks input of None \<Rightarrow> [] | Some hs \<Rightarrow> hs"
  from assms(1) pj r obtain acted h w2 where
    c: "create_task (ai_parent input) ?hooks (wrapper_task env higher input acted r hd' c w1) w1 = (Inr h, w2)"
    and l: "start_lower env ctx lower la args lds c h w2 = (Inr i, w')"
    by (auto simp: start_wrapper_def and_then_Inr split: sum.splits)
  note cr = create_task_ok [OF c]
  from cr obtain p where p: "w_tasks w2 = t_add (wrapper_task env higher input acted r hd' c w1 p) (w_tasks w1)"
    "w_agents w2 = w_agents w1" "w_events w2 = w_events w1" "w_callers w2 = w_callers w1"
    "w_implementations w2 = w_implementations w1"
    "ai_parent input = None \<longrightarrow> p = None"
    "\<forall>s. ai_parent input = Some s \<longrightarrow> (\<exists>n. p = Some n \<and> py_int s = Some (int n) \<and> t_get (w_tasks w1) n \<noteq> None)"
    by - ((elim conjE exE), (rule that; assumption))
  let ?t = "wrapper_task env higher input acted r hd' c w1 p"
  have fr: "w_tasks w1 = w_tasks w" "w_agents w1 = w_agents w" "w_events w1 = w_events w"
    "w_callers w1 = w_callers w" "w_redis w1 = w_redis w"
    using ref db_eqD [of w1 w] by simp_all
  have wf2: "t_wf (w_tasks w2)" using wf by (simp add: p(1) fr(1) t_wf_add)
  obtain ct where ct: "i = h" "w_tasks w' = t_add ct (w_tasks w2)" "child_row c args h lower ct"
    "dispatches (Suc (seq (w_tasks w2))) ct w2 w'" "w_events w' = w_events w2" "w_callers w' = w_callers w2" "w_agents w' = w_agents w2"
    by (rule start_lower_ok [OF l wf2])
  have "dispatches (Suc i) ct w w'"
    using ct(1,4) dispatches_cong [of w2 w] cr fr p(1,2) by (simp add: seq_add)
  moreover have "fresh_row env c input ?t" using fresh_row_new [OF _ p(6,7)] ref by blast
  moreover have "ai_hooks input = None \<or> ai_hooks input = Some []" using cr by (auto split: option.splits)
  moreover have "tk_implementation ?t = Some (fst higher)" by (simp add: wrapper_task_def new_task_def)
  moreover have "i = Suc (seq (w_tasks w))" using ct(1) cr fr by simp
  moreover have "w_tasks w' = t_add ct (t_add ?t (w_tasks w))" using ct(2) p(1) fr by simp
  moreover have "child_row c args i lower ct" using ct(1,3) by simp
  moreover have "w_events w' = w_events w" "w_callers w' = w_callers w" "w_agents w' = w_agents w"
    using ct(5-7) p(2-4) fr by simp_all
  ultimately show ?thesis using args by - (rule that)
qed

lemma assign_higher_order_ok:
  assumes "assign_higher_order env ctx input higher c w = (Inr i, w')"
  obtains l lower la ha lower_agent where "im_higher_order_for (snd higher) = Some l"
    "t_get (w_implementations w) l = Some lower" "t_get (w_agents w) (im_agent lower) = Some lower_agent"
    "agent_is_available env (now w) lower_agent"
    "start_wrapper env ctx input higher ha (l, lower) la c w = (Inr i, w')"
  using assms
  by (auto simp: assign_higher_order_def bind_eq_Some_conv split: option.splits if_splits prod.splits)

text \<open>Looking up the target draws at most a random number.\<close>

lemma resolve_target_frame:
  "db (snd (resolve_target env g input w)) = db w \<and> w_redis (snd (resolve_target env g input w)) = w_redis w"
proof -
  have d: "db (snd (dependency_target env input s w)) = db w \<and> w_redis (snd (dependency_target env input s w)) = w_redis w" for s
    by (auto simp: dependency_target_def split: sum.split option.split json.split)
  show ?thesis by (auto simp: resolve_target_def d split: sum.split list.split)
qed

lemma caller_frame:
  "get_caller_for_context ctx w = (Inr c, w1) \<Longrightarrow>
   w_tasks w1 = w_tasks w \<and> w_events w1 = w_events w \<and> w_redis w1 = w_redis w \<and> w_agents w1 = w_agents w \<and>
   w_implementations w1 = w_implementations w \<and> now w1 = now w"
  by (auto simp: get_caller_for_context_def get_or_create_caller_def split: option.splits prod.splits)

text \<open>A successful assignment, taken apart.\<close>

lemma assign_ok:
  assumes "assign env ctx input w0 = (Inr i, w')"
  obtains c w1 w tg im ac g where "get_caller_for_context ctx w0 = (Inr c, w1)"
    "cx_organization ctx = Some g" "resolve_target env g input w1 = (Inr tg, w)"
    "w_tasks w = w_tasks w0" "w_events w = w_events w0" "w_redis w = w_redis w0" "w_agents w = w_agents w0"
    "w_implementations w = w_implementations w0" "now w = now w0" "w_callers w = w_callers w1"
    "t_get (w_implementations w0) (tg_implementation tg) = Some im"
    "(if im_higher_order_for im \<noteq> None then assign_higher_order env ctx input (tg_implementation tg, im) c w
      else start_task env ctx input tg im ac c w) = (Inr i, w')"
proof -
  from assms obtain g where g: "cx_organization ctx = Some g" by (auto simp: assign_def split: option.splits)
  from assms g obtain c w1 tg w where c: "get_caller_for_context ctx w0 = (Inr c, w1)"
    and tg: "resolve_target env g input w1 = (Inr tg, w)"
    and k: "(case (t_get (w_implementations w) (tg_implementation tg), t_get (w_actions w) (tg_action tg)) of
              (Some im, Some ac) \<Rightarrow>
                (if im_higher_order_for im \<noteq> None
                 then assign_higher_order env ctx input (tg_implementation tg, im) c w
                 else start_task env ctx input tg im ac c w)
            | _ \<Rightarrow> (Inl (DoesNotExist ''Action''), w)) = (Inr i, w')"
    by (auto simp: assign_def and_then_Inr)
  have w: "db w = db w1" "w_redis w = w_redis w1" using resolve_target_frame [of env g input w1] tg by simp_all
  note fr = db_eqD [OF w(1)] and cf = caller_frame [OF c]
  from k obtain im ac where im: "t_get (w_implementations w) (tg_implementation tg) = Some im"
    and k: "(if im_higher_order_for im \<noteq> None then assign_higher_order env ctx input (tg_implementation tg, im) c w
      else start_task env ctx input tg im ac c w) = (Inr i, w')"
    by (auto split: option.splits)
  show ?thesis
    by (rule that [OF c g tg]) (use fr cf w im k in simp_all)
qed

section \<open>A successful assignment\<close>

text \<open>Both shapes of a success in one statement.\<close>

lemma assign_success:
  assumes "assign env ctx input w = (Inr i, w')" and wf: "t_wf (w_tasks w)"
  obtains t c im where "fst (get_caller_for_context ctx w) = Inr c" "i = Suc (seq (w_tasks w))"
    "fresh_row env c input t" "Option.bind (tk_implementation t) (t_get (w_implementations w)) = Some im"
    "w_events w' = w_events w" "ai_hooks input = None \<or> ai_hooks input = Some []"
    "w_callers w' = w_callers (snd (get_caller_for_context ctx w))" "t_get (w_tasks w') i = Some t"
    "w_agents w' = w_agents w"
    "im_higher_order_for im = None \<Longrightarrow> w_tasks w' = t_add t (w_tasks w) \<and> dispatches i t w w'"
    "im_higher_order_for im \<noteq> None \<Longrightarrow> (\<exists>l lower ct args. im_higher_order_for im = Some l \<and>
       t_get (w_implementations w) l = Some lower \<and> w_tasks w' = t_add ct (t_add t (w_tasks w)) \<and>
       build_lower_args (im_higher_order_config im) (ai_args input) = Inr args \<and>
       child_row c args i (l, lower) ct \<and> dispatches (Suc i) ct w w')"
proof -
  obtain c w1 v tg im ac g where c: "get_caller_for_context ctx w = (Inr c, w1)"
    and fr: "w_tasks v = w_tasks w" "w_events v = w_events w" "w_redis v = w_redis w" "w_agents v = w_agents w"
      "w_implementations v = w_implementations w" "w_callers v = w_callers w1"
    and im: "t_get (w_implementations w) (tg_implementation tg) = Some im"
    and k: "(if im_higher_order_for im \<noteq> None then assign_higher_order env ctx input (tg_implementation tg, im) c v
      else start_task env ctx input tg im ac c v) = (Inr i, w')"
    by (rule assign_ok [OF assms(1)])
  have wf': "t_wf (w_tasks v)" using wf fr by simp
  show ?thesis
  proof (cases "im_higher_order_for im = None")
    case True
    with k have "start_task env ctx input tg im ac c v = (Inr i, w')" by simp
    then obtain t where t: "i = Suc (seq (w_tasks v))" "w_tasks w' = t_add t (w_tasks v)" "fresh_row env c input t"
      "tk_agent t = tg_agent tg" "tk_implementation t = Some (tg_implementation tg)" "tk_action t = tg_action tg"
      "w_events w' = w_events v" "w_callers w' = w_callers v" "dispatches i t v w'"
      "w_agents w' = w_agents v" "w_implementations w' = w_implementations v"
      "ai_hooks input = None \<or> ai_hooks input = Some []"
      by (rule start_task_ok [OF _ wf'])
    show ?thesis
      by (rule that [of c t im])
        (use t c fr im True wf dispatches_cong [of v w] in \<open>simp_all add: t_get_add\<close>)
  next
    case False
    with k have "assign_higher_order env ctx input (tg_implementation tg, im) c v = (Inr i, w')" by simp
    then obtain l lower la ha lag where l: "im_higher_order_for (snd (tg_implementation tg, im)) = Some l"
      "t_get (w_implementations v) l = Some lower" "t_get (w_agents v) (im_agent lower) = Some lag"
      "agent_is_available env (now v) lag"
      "start_wrapper env ctx input (tg_implementation tg, im) ha (l, lower) la c v = (Inr i, w')"
      by (rule assign_higher_order_ok)
    obtain t ct args where t: "i = Suc (seq (w_tasks v))" "w_tasks w' = t_add ct (t_add t (w_tasks v))"
      "fresh_row env c input t" "tk_implementation t = Some (fst (tg_implementation tg, im))"
      "build_lower_args (im_higher_order_config (snd (tg_implementation tg, im))) (ai_args input) = Inr args"
      "child_row c args i (l, lower) ct" "dispatches (Suc i) ct v w'" "w_events w' = w_events v"
      "w_callers w' = w_callers v" "w_agents w' = w_agents v" "ai_hooks input = None \<or> ai_hooks input = Some []"
      by (rule start_wrapper_ok [OF l(5) wf'])
    have "\<exists>l lower ct args. im_higher_order_for im = Some l \<and>
       t_get (w_implementations w) l = Some lower \<and> w_tasks w' = t_add ct (t_add t (w_tasks w)) \<and>
       build_lower_args (im_higher_order_config im) (ai_args input) = Inr args \<and>
       child_row c args i (l, lower) ct \<and> dispatches (Suc i) ct w w'"
      by (rule exI [of _ l], rule exI [of _ lower], rule exI [of _ ct], rule exI [of _ args])
        (use t l fr dispatches_cong [of v w] in simp)
    then show ?thesis
      by (rule that [of c t im, rotated -1])
        (use t c fr im False wf in \<open>simp_all add: t_get_add t_wf_add seq_add\<close>)
  qed
qed


definition demo_ctx :: caller_context where
  "demo_ctx = \<lparr>cx_user = 1, cx_client = Some 1, cx_organization = Some 1, cx_roles = []\<rparr>"

definition demo_input :: "nat \<Rightarrow> assign_input" where
  "demo_input impl = (assign_defaults [(''x'', JInt 3)])\<lparr>ai_implementation := Some (str_of_nat impl),
     ai_reference := Some ''ref''\<rparr>"

lemma demo_wf: "t_wf (w_tasks demo_world)"
  using demo_ledger by (simp add: ledger_def)

lemma demo_assigns:
  "fst (assign demo_env demo_ctx (demo_input 1) demo_world) = Inr 7"
  "fst (assign demo_env demo_ctx (demo_input 4) demo_world) = Inr 7"
  by code_simp+




section \<open>Refused assignments\<close>

lemma create_task_hooks: "hooks \<noteq> [] \<Longrightarrow> \<exists>e. create_task parent hooks mk w = (Inl e, w)"
  by (auto simp: create_task_def split: option.split)

text \<open>A refusal that leaves tasks, events and queues alone.\<close>

definition refused :: "world \<Rightarrow> 'a outcome \<times> world \<Rightarrow> bool" where
  "refused w r \<longleftrightarrow> (\<exists>e. fst r = Inl e) \<and> w_tasks (snd r) = w_tasks w \<and> w_events (snd r) = w_events w \<and>
     w_redis (snd r) = w_redis w"

lemma refused_from:
  "refused v r \<Longrightarrow> w_tasks v = w_tasks w \<Longrightarrow> w_events v = w_events w \<Longrightarrow> w_redis v = w_redis w \<Longrightarrow> refused w r"
  by (simp add: refused_def)

lemma start_task_hooks:
  assumes "ai_hooks input = Some (h # hs)"
  shows "refused w (start_task env ctx input tg im ac c w)"
proof -
  obtain r w1 where r: "reference_or_fresh env (ai_reference input) w = (r, w1)"
    by (cases "reference_or_fresh env (ai_reference input) w")
  have fr: "w_tasks w1 = w_tasks w" "w_events w1 = w_events w" "w_redis w1 = w_redis w"
    using reference_given [OF r] db_eqD [of w1 w] by simp_all
  have "refused w1 (and_then (create_task (ai_parent input) (h # hs) mk w1) k)" for mk k
    using create_task_hooks [of "h # hs" "ai_parent input" mk w1] by (auto simp: refused_def)
  then have "refused w (and_then (create_task (ai_parent input) (h # hs) mk w1) k)" for mk k
    by (rule refused_from) (use fr in simp_all)
  then show ?thesis
    using fr by (auto simp: start_task_def r assms refused_def Let_def split: sum.split)
qed

lemma start_wrapper_hooks:
  assumes "ai_hooks input = Some (h # hs)"
  shows "refused w (start_wrapper env ctx input higher ha lower la c w)"
proof -
  obtain r w1 where r: "reference_or_fresh env (ai_reference input) w = (r, w1)"
    by (cases "reference_or_fresh env (ai_reference input) w")
  have fr: "w_tasks w1 = w_tasks w" "w_events w1 = w_events w" "w_redis w1 = w_redis w"
    using reference_given [OF r] db_eqD [of w1 w] by simp_all
  have "refused w1 (and_then (create_task (ai_parent input) (h # hs) mk w1) k)" for mk and k :: "nat \<Rightarrow> world \<Rightarrow> nat outcome \<times> world"
    using create_task_hooks [of "h # hs" "ai_parent input" mk w1] by (auto simp: refused_def)
  then have "refused w (and_then (create_task (ai_parent input) (h # hs) mk w1) k)" for mk and k :: "nat \<Rightarrow> world \<Rightarrow> nat outcome \<times> world"
    by (rule refused_from) (use fr in simp_all)
  then show ?thesis
    using fr by (auto simp: start_wrapper_def r assms refused_def Let_def split: sum.split prod.split)
qed

lemma caller_context_cases:
  obtains (ok) c w1 where "get_caller_for_context ctx w = (Inr c, w1)"
  | (err) e where "get_caller_for_context ctx w = (Inl e, w)"
proof -
  have "(\<exists>c w1. get_caller_for_context ctx w = (Inr c, w1)) \<or> (\<exists>e. get_caller_for_context ctx w = (Inl e, w))"
    by (auto simp: get_caller_for_context_def split_beta split: option.split)
  then show ?thesis using that by blast
qed

text \<open>
  An assignment that carries any hook never succeeds, whatever it asks for: the hooks cannot be
  encoded for their column. No task, no event and no message comes of it.
\<close>

theorem hooks_never_succeed:
  assumes "ai_hooks input = Some (h # hs)"
  shows "(\<exists>e. fst (assign env ctx input w) = Inl e) \<and> w_tasks (snd (assign env ctx input w)) = w_tasks w \<and>
    w_events (snd (assign env ctx input w)) = w_events w \<and> w_redis (snd (assign env ctx input w)) = w_redis w"
proof (cases "cx_organization ctx")
  case None
  then show ?thesis by (simp add: assign_def)
next
  case (Some g)
  show ?thesis
  proof (cases rule: caller_context_cases [of ctx w])
    case (err e)
    with Some show ?thesis by (simp add: assign_def)
  next
    case (ok c w1)
    obtain x v where tg: "resolve_target env g input w1 = (x, v)" by (cases "resolve_target env g input w1")
    have fr: "w_tasks v = w_tasks w" "w_events v = w_events w" "w_redis v = w_redis w"
      using resolve_target_frame [of env g input w1] caller_frame [OF ok] db_eqD [of v w1] tg by simp_all
    have a: "refused w (start_task env ctx input tg' im ac c v)" for tg' im ac
      by (rule refused_from [OF start_task_hooks [OF assms]]) (use fr in simp_all)
    have "refused v (assign_higher_order env ctx input higher c v)" for higher
      using start_wrapper_hooks [OF assms]
      by (auto simp: assign_higher_order_def refused_def split: option.split)
    then have b: "refused w (assign_higher_order env ctx input higher c v)" for higher
      by (rule refused_from) (use fr in simp_all)
    have "refused w (assign env ctx input w)"
      using a b fr by (cases x) (auto simp: assign_def Some ok tg refused_def split: option.split)
    then show ?thesis by (simp add: refused_def)
  qed
qed

lemma hooks_never_succeed_witness:
  "\<exists>e. fst (assign demo_env demo_ctx ((demo_input 1)\<lparr>ai_hooks := Some [\<lparr>hk_kind = HOOK_CLEANUP, hk_hash = ''h''\<rparr>]\<rparr>) demo_world) = Inl e"
proof -
  have "ai_hooks ((demo_input 1)\<lparr>ai_hooks := Some [\<lparr>hk_kind = HOOK_CLEANUP, hk_hash = ''h''\<rparr>]\<rparr>) =
      Some (\<lparr>hk_kind = HOOK_CLEANUP, hk_hash = ''h''\<rparr> # [])" by simp
  from hooks_never_succeed [OF this] show ?thesis by blast
qed

end
