(* ===== verification/Caller_Properties.thy ===== *)
theory Caller_Properties
  imports Assign_Properties
begin

text \<open>
  Properties of the caller side: assignments over an agent's socket, control requests, and the
  authentication of webhook deliveries.
\<close>

section \<open>Assigning twice\<close>

lemma t_first_add:
  "t_first P tb = None \<Longrightarrow> t_first P (t_add r tb) = (if P r then Some (Suc (seq tb), r) else None)"
  by (auto simp: t_first_def t_filter_def t_add_def split: list.splits)

lemma t_first_add_old: "t_first P tb = Some x \<Longrightarrow> t_first P (t_add r tb) = Some x"
  by (auto simp: t_first_def t_filter_def t_add_def split: list.splits)

lemma get_or_create_caller_again:
  "get_or_create_caller c u g w = (i, w1) \<Longrightarrow> w_callers v = w_callers w1 \<Longrightarrow> get_or_create_caller c u g v = (i, v)"
  by (auto simp: get_or_create_caller_def t_first_add split: option.splits)

lemma get_or_create_caller_frame:
  "get_or_create_caller c u g w = (i, w1) \<Longrightarrow> w_tasks w1 = w_tasks w \<and> w_events w1 = w_events w \<and>
     w_redis w1 = w_redis w \<and> w_agents w1 = w_agents w"
  by (auto simp: get_or_create_caller_def split: option.splits)

lemma caller_ctx_agent:
  "get_caller_for_context (ctx_from_agent a roles) w =
     (let (i, w1) = get_or_create_caller (ag_client a) (ag_user a) (ag_organization a) w in (Inr i, w1))"
  by (simp add: get_caller_for_context_def ctx_from_agent_def)


definition demo_request :: "string option \<Rightarrow> assign_request" where
  "demo_request parent =
     \<lparr>msg_id = ''q'', aqr_reference = ''ref'', aqr_args = [], aqr_action = None, aqr_action_hash = None,
      aqr_implementation = Some ''1'', aqr_agent = None, aqr_interface = None, aqr_parent = parent,
      aqr_dependency = None, aqr_method = None, aqr_resolution = None, aqr_hooks = None,
      aqr_capture = None, aqr_ephemeral = None, aqr_step = None\<rparr>"


definition strict_env :: rekuest_env where
  "strict_env = demo_env\<lparr>prov_strict := True, prov_human_roles := [''human'']\<rparr>"

text \<open>
  A refusal to mint is not the end of an assignment. Under the strict provenance policy a
  request without a human at its root is answered with an error, yet its task is stored, open and
  started, and was sent to nobody; and the same request sent again is answered with that task, as
  if it had been accepted.
\<close>

theorem refused_request_is_then_accepted:
  "let (r1, w1) = caller_assign_sync strict_env 1 (demo_request (Some ''1'')) demo_world;
       (r2, w2) = caller_assign_sync strict_env 1 (demo_request (Some ''1'')) w1
   in r1 = Inl (ValueError ''Refusing to mint provenance token'') \<and> r2 = Inr (7, False) \<and>
      map_option (\<lambda>t. (tk_is_done t, tk_latest_event_kind t)) (t_get (w_tasks w2) 7) = Some (False, STARTED) \<and>
      redis_waiting ''1'' (w_redis w2) = []"
  by code_simp

section \<open>Control requests\<close>

lemma fresh_uuid_redis [simp]: "w_redis (snd (fresh_uuid env w)) = w_redis w"
  by (simp add: fresh_uuid_def)

text \<open>
  What each control asks of a task: the instruction it records, the event it logs, the message it
  sends, and whether it is for the whole tree below the task.
\<close>

fun op_instruct :: "control_op \<Rightarrow> task_instruct_kind" where
  "op_instruct Op_cancel = I_CANCEL"
| "op_instruct Op_interrupt = I_INTERRUPT"
| "op_instruct Op_pause = I_PAUSE"
| "op_instruct (Op_resume b) = I_RESUME"

fun op_event :: "control_op \<Rightarrow> task_event_kind" where
  "op_event Op_cancel = CANCELLING"
| "op_event Op_interrupt = INTERRUPTING"
| "op_event Op_pause = PAUSING"
| "op_event (Op_resume b) = RESUMING"

fun op_message :: "control_op \<Rightarrow> string \<Rightarrow> string \<Rightarrow> to_agent_message" where
  "op_message Op_cancel = (\<lambda>mid s. Cancel \<lparr>msg_id = mid, ca_task = s\<rparr>)"
| "op_message Op_interrupt = (\<lambda>mid s. Interrupt \<lparr>msg_id = mid, it_task = s\<rparr>)"
| "op_message Op_pause = (\<lambda>mid s. Pause \<lparr>msg_id = mid, pa_task = s\<rparr>)"
| "op_message (Op_resume b) = (\<lambda>mid s. Resume \<lparr>msg_id = mid, rs_task = s, rs_step = b\<rparr>)"

definition op_targets :: "control_op \<Rightarrow> nat \<Rightarrow> task \<Rightarrow> world \<Rightarrow> (nat \<times> task) list" where
  "op_targets op' i t w = (i, t) # (if op' = Op_interrupt
     then t_filter (\<lambda>r. tk_root r = Some i \<and> \<not> tk_is_done r) (w_tasks w) else [])"

lemma run_control_request:
  "run_control env op' s w =
     request_control env s (op_instruct op') (op_event op') (op_message op') (op' = Op_interrupt) w"
  by (cases op') (simp_all add: control_cancel_def control_interrupt_def control_pause_def control_resume_def)

lemma queued_for_cong:
  "w_agents v = w_agents w \<Longrightarrow> w_redis v = w_redis w \<Longrightarrow> queued_for a m v = queued_for a m w"
  by (simp add: queued_for_def cong: option.case_cong if_cong)

lemma request_each_ok:
  assumes "request_each env ik ek factory ts w = (Inr (), w')"
    and "\<forall>(i, t) \<in> set ts. t_get (w_tasks w) i \<noteq> None"
  shows "w_agents w' = w_agents w \<and> now w' = now w \<and>
    (\<forall>j. t_get (w_tasks w') j = (if j \<in> fst ` set ts then map_option (mark_instruct ik) (t_get (w_tasks w) j) else t_get (w_tasks w) j)) \<and>
    w_events w' = fold (\<lambda>(i, t). t_add (new_event i ek w)) ts (w_events w) \<and>
    (\<exists>mids. length mids = length ts \<and>
       w_redis w' = fold (\<lambda>(mid, i, t) q. queued_for (tk_agent t) (factory mid (str_of_nat i)) (w\<lparr>w_redis := q\<rparr>))
                      (zip mids ts) (w_redis w))"
  using assms
proof (induction ts arbitrary: w)
  case Nil
  then show ?case by simp
next
  case (Cons it ts)
  obtain i t where it: "it = (i, t)" by (cases it)
  let ?w1 = "snd (create_event env (new_event i ek w) (save_task i (mark_instruct ik) w))"
  obtain mid w2 where u: "fresh_uuid env ?w1 = (mid, w2)" by (cases "fresh_uuid env ?w1")
  have "t_get (w_tasks w) i \<noteq> None" using Cons.prems(2) it by auto
  then obtain t0 where t0: "t_get (w_tasks w) i = Some t0" by blast
  have ce: "and_then (create_event env (new_event i ek w) (save_task i (mark_instruct ik) w)) k = k () ?w1"
    for k :: "unit \<Rightarrow> world \<Rightarrow> unit outcome \<times> world"
    by (rule and_then_create_event [where t = "mark_instruct ik t0"]) (simp add: t_get_upd t0)
  have evs: "w_events ?w1 = t_add (new_event i ek w) (w_events w)"
    by (simp add: t_get_upd t0)
  have f2: "w_tasks w2 = t_upd i (mark_instruct ik) (w_tasks w)" "w_agents w2 = w_agents w" "now w2 = now w"
    "w_events w2 = t_add (new_event i ek w) (w_events w)" "w_redis w2 = w_redis w"
    using u evs db_fresh_uuid [of env ?w1] db_eqD [of w2 ?w1] fresh_uuid_redis [of env ?w1] by simp_all
  have "and_then (broadcast_to env (tk_agent t) (factory mid (str_of_nat i)) w2)
      (\<lambda>_. request_each env ik ek factory ts) = (Inr (), w')"
    using Cons.prems(1) by (simp only: it request_each.simps ce u Let_def prod.case)
  from iffD1 [OF and_then_Inr this] obtain w3 where b: "broadcast_to env (tk_agent t) (factory mid (str_of_nat i)) w2 = (Inr (), w3)"
    and rest: "request_each env ik ek factory ts w3 = (Inr (), w')"
    by auto
  have f3: "w_tasks w3 = w_tasks w2" "w_agents w3 = w_agents w" "now w3 = now w" "w_events w3 = w_events w2"
    using db_broadcast_to [of env "tk_agent t" "factory mid (str_of_nat i)" w2] b db_eqD [of w3 w2] f2 by simp_all
  have q: "w_redis w3 = queued_for (tk_agent t) (factory mid (str_of_nat i)) w"
    using redis_broadcast_to [of env "tk_agent t" "factory mid (str_of_nat i)" w2] unfolding b f2
    by (simp add: queued_for_def)
  have "\<forall>(j, u) \<in> set ts. t_get (w_tasks w3) j \<noteq> None"
    using Cons.prems(2) by (auto simp: f3 f2 t_get_upd)
  from Cons.IH [OF rest this] obtain mids where IH: "w_agents w' = w_agents w" "now w' = now w"
    "\<forall>j. t_get (w_tasks w') j = (if j \<in> fst ` set ts then map_option (mark_instruct ik) (t_get (w_tasks w3) j) else t_get (w_tasks w3) j)"
    "w_events w' = fold (\<lambda>(i, t). t_add (new_event i ek w3)) ts (w_events w3)"
    "length mids = length ts"
    "w_redis w' = fold (\<lambda>(mid, i, t) q. queued_for (tk_agent t) (factory mid (str_of_nat i)) (w3\<lparr>w_redis := q\<rparr>)) (zip mids ts) (w_redis w3)"
    using f3 by auto
  have ne: "new_event j ek w3 = new_event j ek w" for j using f3(3) by (simp add: new_event_def)
  have qe: "queued_for a m (w3\<lparr>w_redis := q\<rparr>) = queued_for a m (w\<lparr>w_redis := q\<rparr>)" for a m q
    by (rule queued_for_cong) (simp_all add: f3(2))
  have tk: "map_option (mark_instruct ik) (map_option (mark_instruct ik) x) = map_option (mark_instruct ik) x" for x
    by (cases x) (simp_all add: mark_instruct_def)
  have "w_redis w' = fold (\<lambda>(mid, i, t) q. queued_for (tk_agent t) (factory mid (str_of_nat i)) (w\<lparr>w_redis := q\<rparr>))
      (zip (mid # mids) (it # ts)) (w_redis w)"
    using IH(6) by (simp add: it q qe)
  then have "\<exists>mids. length mids = length (it # ts) \<and>
       w_redis w' = fold (\<lambda>(mid, i, t) q. queued_for (tk_agent t) (factory mid (str_of_nat i)) (w\<lparr>w_redis := q\<rparr>))
                      (zip mids (it # ts)) (w_redis w)"
    using IH(5) by (intro exI [of _ "mid # mids"]) simp
  moreover have "t_get (w_tasks w') j = (if j \<in> fst ` set (it # ts) then map_option (mark_instruct ik) (t_get (w_tasks w) j)
      else t_get (w_tasks w) j)" for j
    using IH(3) tk by (auto simp: it f3 f2 t_get_upd)
  ultimately show ?case using IH(1,2,4) by (simp add: it ne f3(4) f2(4))
qed

lemma run_control_takes:
  assumes "run_control env op' s w = (Inr i, w')" and "t_wf (w_tasks w)"
  obtains t where "t_get_wire ''Task'' (w_tasks w) s = Inr (i, t)" "\<not> tk_is_done t"
    "request_each env (op_instruct op') (op_event op') (op_message op') (op_targets op' i t w) w = (Inr (), w')"
    "\<forall>(j, u) \<in> set (op_targets op' i t w). t_get (w_tasks w) j \<noteq> None"
proof -
  have rc: "request_control env s (op_instruct op') (op_event op') (op_message op') (op' = Op_interrupt) w = (Inr i, w')"
    using assms(1) by (simp only: run_control_request)
  then obtain t where t: "t_get_wire ''Task'' (w_tasks w) s = Inr (i, t)" "\<not> tk_is_done t"
    and each: "request_each env (op_instruct op') (op_event op') (op_message op') (op_targets op' i t w) w = (Inr (), w')"
    unfolding request_control_def op_targets_def Let_def
    by (auto simp: and_then_Inr simp del: request_each.simps split: sum.splits if_splits)
  have "\<forall>(j, u) \<in> set (op_targets op' i t w). t_get (w_tasks w) j \<noteq> None"
    using t_get_wire_InrD [OF t(1)] by (auto simp: op_targets_def t_filter_get [OF assms(2)] split: if_splits)
  with t each show ?thesis by (rule that)
qed



text \<open>
  C25. A control request is refused without effect. When the task belongs to another caller the
  answer is a permission error, whatever the operation; when it is the agent's own but has ended it
  is a value error. Either way, apart from the lookup of the agent's caller, nothing is written.
\<close>

theorem control_refused:
  assumes "t_get (w_agents w) a = Some ag"
    and "get_or_create_caller (ag_client ag) (ag_user ag) (ag_organization ag) w = (c, v)"
    and "t_get_wire ''Task'' (w_tasks w) s = Inr (i, t)" and "tk_caller t \<noteq> Some c \<or> tk_is_done t"
  shows "caller_control_sync env a s op' w =
    (Inl (if tk_caller t \<noteq> Some c then PermissionError ''Not authorized to control this task''
          else ValueError ''Task is already terminal''), v) \<and>
    w_tasks v = w_tasks w \<and> w_events v = w_events w \<and> w_redis v = w_redis w"
proof -
  note fr = get_or_create_caller_frame [OF assms(2)]
  have "run_control env op' s v = (Inl (ValueError ''Task is already terminal''), v)" if "tk_is_done t"
    unfolding run_control_request request_control_def using assms(3) fr that by simp
  then show ?thesis using assms fr by (auto simp: caller_control_sync_def)
qed

lemma control_refused_witness:
  "caller_control_sync demo_env 1 (str_of_nat 6) Op_cancel demo_world =
     (Inl (ValueError ''Task is already terminal''), demo_world)"
proof -
  have "get_or_create_caller (ag_client demo_agent) (ag_user demo_agent) (ag_organization demo_agent) demo_world = (1, demo_world)"
    by (simp add: get_or_create_caller_def t_first_def t_filter_def demo_world_def demo_agent_def)
  with control_refused [of demo_world 1 demo_agent 1 demo_world "str_of_nat 6" 6
      "mark_done COMPLETED 7 (demo_task 1 1 None ''r6'')" demo_env Op_cancel]
  show ?thesis by (simp add: mark_done_def demo_task_def)
qed

text \<open>
  An interrupt does not reach the work that agents assigned below a task. The row of an
  assignment with a parent names no root, so an interrupt of that parent neither records the
  instruction on it nor logs or sends anything for it, although it is the parent's child.
\<close>

theorem interrupt_misses_dependents:
  assumes "assign env ctx input w = (Inr i, w1)" and "t_wf (w_tasks w)"
    and "ai_parent input = Some (str_of_nat p)" and "t_get (w_tasks w) p \<noteq> None"
    and "run_control env Op_interrupt (str_of_nat p) w1 = (Inr n, w2)"
  shows "n = p \<and> (\<exists>t. t_get (w_tasks w2) i = Some t \<and> tk_parent t = Some p \<and> \<not> tk_is_done t \<and>
    tk_latest_instruct_kind t = I_ASSIGN)"
proof (rule assign_success [OF assms(1,2)])
  fix t c im
  assume i: "i = Suc (seq (w_tasks w))" and row: "fresh_row env c input t"
    and get: "t_get (w_tasks w1) i = Some t"
    and plain: "im_higher_order_for im = None \<Longrightarrow> w_tasks w1 = t_add t (w_tasks w) \<and> dispatches i t w w1"
    and higher: "im_higher_order_for im \<noteq> None \<Longrightarrow> (\<exists>l lower ct args. im_higher_order_for im = Some l \<and>
       t_get (w_implementations w) l = Some lower \<and> w_tasks w1 = t_add ct (t_add t (w_tasks w)) \<and>
       build_lower_args (im_higher_order_config im) (ai_args input) = Inr args \<and>
       child_row c args i (l, lower) ct \<and> dispatches (Suc i) ct w w1)"
  have wf1: "t_wf (w_tasks w1)"
    using plain higher assms(2) by (cases "im_higher_order_for im = None") (auto simp: t_wf_add)
  obtain u where u: "t_get_wire ''Task'' (w_tasks w1) (str_of_nat p) = Inr (n, u)"
    "request_each env (op_instruct Op_interrupt) (op_event Op_interrupt) (op_message Op_interrupt)
       (op_targets Op_interrupt n u w1) w1 = (Inr (), w2)"
    "\<forall>(j, u) \<in> set (op_targets Op_interrupt n u w1). t_get (w_tasks w1) j \<noteq> None"
    by (rule run_control_takes [OF assms(5) wf1]) blast
  from u(1) have n: "n = p" by (simp split: option.splits)
  have "i \<noteq> p" using i t_get_fresh [OF assms(2)] assms(4) by auto
  moreover have "tk_root t = None" using row by (simp add: fresh_row_def)
  ultimately have "i \<notin> fst ` set (op_targets Op_interrupt n u w1)"
    using get n by (auto simp: op_targets_def t_filter_get [OF wf1])
  with request_each_ok [OF u(2,3)] get have "t_get (w_tasks w2) i = Some t" by simp
  with n row assms(3) show ?thesis by (auto simp: fresh_row_def starts_open_def)
qed

lemma interrupt_misses_dependents_witness:
  "\<exists>w1 w2. assign demo_env demo_ctx ((demo_input 1)\<lparr>ai_parent := Some (str_of_nat 1)\<rparr>) demo_world = (Inr 7, w1) \<and>
     run_control demo_env Op_interrupt (str_of_nat 1) w1 = (Inr 1, w2) \<and>
     map_option tk_latest_instruct_kind (t_get (w_tasks w2) 7) = Some I_ASSIGN"
proof -
  let ?in = "(demo_input 1)\<lparr>ai_parent := Some (str_of_nat 1)\<rparr>"
  have "fst (assign demo_env demo_ctx ?in demo_world) = Inr 7"
    "fst (run_control demo_env Op_interrupt (str_of_nat 1) (snd (assign demo_env demo_ctx ?in demo_world))) = Inr 1"
    by code_simp+
  then obtain w1 w2 where w: "assign demo_env demo_ctx ?in demo_world = (Inr 7, w1)"
    "run_control demo_env Op_interrupt (str_of_nat 1) w1 = (Inr 1, w2)"
    by (metis prod.collapse snd_conv)
  from interrupt_misses_dependents [OF w(1) demo_wf _ _ w(2)] w show ?thesis by auto
qed

end
