(* ===== verification/Boundary_Properties.thy ===== *)
theory Boundary_Properties
  imports Caller_Properties
begin

text \<open>
  Properties of the translations at the edges of the service: the projections of a higher-order
  implementation, the mirror events of callers, provenance tokens, and webhook deliveries.
\<close>

section \<open>Projections\<close>

text \<open>
  What the wrapped implementation reads under a key. Arguments the map does not consume pass
  through, as they are or together under the configured key, and come first; then what the map takes
  from the caller; then the bound value.
\<close>

theorem lower_args_read:
  assumes "build_lower_args config ca = Inr out"
    and "get_dict config ''bound'' = Inr b" and "get_dict config ''arg_map'' = Inr m"
    and "distinct (map fst m)" and "distinct (map fst ca)"
  shows "dict_get out k =
    (case dict_get config ''args_key'' of
       Some (JStr (c # cs)) \<Rightarrow>
         (if k = c # cs then Some (JDict (remaining_args m ca)) else named_arg b m ca k)
     | _ \<Rightarrow>
         (case dict_get (remaining_args m ca) k of
            None \<Rightarrow> named_arg b m ca k
          | Some v \<Rightarrow> Some v))"
  by (rule build_lower_args_reads [OF assms])

definition demo_config :: "json dict" where
  "demo_config =
     [(''bound'', JDict [(''mode'', JStr ''fast'')]),
      (''arg_map'', JDict [(''x'', JDict [(''from'', JStr ''caller''), (''key'', JStr ''a'')])]),
      (''args_key'', JStr ''rest'')]"

lemma lower_args_read_witness:
  "\<exists>out. build_lower_args demo_config [(''a'', JInt 1), (''b'', JInt 2)] = Inr out \<and>
     dict_get out ''rest'' = Some (JDict [(''b'', JInt 2)]) \<and> dict_get out ''x'' = Some (JInt 1) \<and>
     dict_get out ''mode'' = Some (JStr ''fast'')"
proof -
  let ?m = "[(''x'', JDict [(''from'', JStr ''caller''), (''key'', JStr ''a'')])]"
  let ?ca = "[(''a'', JInt 1), (''b'', JInt 2)]"
  obtain out where out: "build_lower_args demo_config ?ca = Inr out"
    by (simp add: build_lower_args_def demo_config_def get_dict_def spec_dict_def spec_from_def spec_key_def
        lookup_key_def pack_remaining_def)
  have b: "get_dict demo_config ''bound'' = Inr [(''mode'', JStr ''fast'')]"
    and m: "get_dict demo_config ''arg_map'' = Inr ?m" by (simp_all add: get_dict_def demo_config_def)
  have read: "dict_get out k = (if k = ''rest'' then Some (JDict (remaining_args ?m ?ca)) else named_arg [(''mode'', JStr ''fast'')] ?m ?ca k)" for k
    using lower_args_read [OF out b m, of k] by (simp add: demo_config_def)
  have "dict_get out ''rest'' = Some (JDict [(''b'', JInt 2)])" unfolding read by code_simp
  moreover have "dict_get out ''x'' = Some (JInt 1)" unfolding read by code_simp
  moreover have "dict_get out ''mode'' = Some (JStr ''fast'')" unfolding read by code_simp
  ultimately show ?thesis using out by blast
qed

text \<open>
  A dependency map that passed the check at link time, and whose entries each name one of the two
  sources, never fails at assignment: whenever the declared dependencies were resolved, the projection
  succeeds and fills every slot the wrapped implementation declares.
\<close>

theorem checked_map_projects:
  assumes "validate_dependency_coverage config lower_keys declared = Inr ()"
    and "get_dict config ''dependency_map'' = Inr m" and "entries_sourced m"
    and "\<forall>k \<in> set declared. dict_has resolved k"
  shows "\<exists>out. build_lower_dependencies config resolved = Inr out \<and> (\<forall>k \<in> set lower_keys. dict_has out k)"
  by (rule coverage_projects [OF assms(1-3)]) (use assms(4) in blast)

definition caller_map :: "json dict" where
  "caller_map = [(''dependency_map'', JDict [(''low'', JDict [(''from'', JStr ''caller''), (''key'', JStr ''high'')])])]"

lemma checked_map_projects_witness:
  "\<exists>out. build_lower_dependencies caller_map [(''high'', JList [])] = Inr out \<and> dict_has out ''low''"
proof -
  have "validate_dependency_coverage caller_map [''low''] [''high''] = Inr ()" by code_simp
  moreover have "get_dict caller_map ''dependency_map'' = Inr [(''low'', JDict [(''from'', JStr ''caller''), (''key'', JStr ''high'')])]"
    by code_simp
  moreover have "entries_sourced [(''low'', JDict [(''from'', JStr ''caller''), (''key'', JStr ''high'')])]"
    by (simp add: entries_sourced_def spec_dict_def spec_from_def)
  ultimately show ?thesis
    using checked_map_projects [of caller_map "[''low'']" "[''high'']" _ "[(''high'', JList [])]"]
    by (simp add: dict_has_def)
qed

text \<open>
  The check at link time lets an entry through whose source is neither bound nor the caller, and
  with such an entry alone every assignment fails: the slot counts as mapped, but nothing can be
  projected into it.
\<close>

theorem unsourced_entry_passes_the_check:
  assumes "src \<noteq> ''bound''" and "src \<noteq> ''caller''"
  shows "validate_dependency_coverage [(''dependency_map'', JDict [(slot, JDict [(''from'', JStr src)])])] [slot] declared = Inr () \<and>
    (\<exists>e. build_lower_dependencies [(''dependency_map'', JDict [(slot, JDict [(''from'', JStr src)])])] resolved = Inl e)"
  using assms
  by (simp add: validate_dependency_coverage_def build_lower_dependencies_def get_dict_def spec_dict_def
      spec_from_def dict_has_def)

lemma unsourced_entry_passes_the_check_witness:
  "validate_dependency_coverage [(''dependency_map'', JDict [(''s'', JDict [(''from'', JStr ''calller'')])])] [''s''] [] = Inr ()"
  using unsourced_entry_passes_the_check [of "''calller''" "''s''" "[]"] by simp

section \<open>Mirror events\<close>

text \<open>
  Every stored event but an unassignment has a mirror message for its caller, which names the
  task and the event and is sequenced by the event's key; two mirrors of the same type and the same
  base fields come from the same event row, of the same kind and task.
\<close>

theorem mirror_identifies_event:
  "(build_execution_event mid i ev = None \<longleftrightarrow> te_kind ev = UNASSIGN) \<and>
   (case build_execution_event mid i ev of None \<Rightarrow> True
    | Some m \<Rightarrow> mirror_base m = (str_of_nat (te_task ev), str_of_nat i, int i) \<and>
        (case build_execution_event mid' j ev' of None \<Rightarrow> True
         | Some m' \<Rightarrow> mirror_type m' = mirror_type m \<and> mirror_base m' = mirror_base m \<longrightarrow>
             j = i \<and> te_kind ev' = te_kind ev \<and> te_task ev' = te_task ev))"
proof -
  have none: "build_execution_event mid i ev = None \<longleftrightarrow> te_kind ev = UNASSIGN"
    by (cases "te_kind ev") (simp_all add: build_execution_event_def Let_def)
  have base: "mirror_base m = (str_of_nat (te_task ev), str_of_nat i, int i)"
    if "build_execution_event mid i ev = Some m" for m by (rule mirror_base_build [OF that])
  have same: "j = i \<and> te_kind ev' = te_kind ev \<and> te_task ev' = te_task ev"
    if "build_execution_event mid i ev = Some m" "build_execution_event mid' j ev' = Some m'"
      "mirror_type m' = mirror_type m" "mirror_base m' = mirror_base m" for m m'
  proof -
    have "mirror_tag (te_kind ev') = mirror_tag (te_kind ev)"
      using mirror_type_build [of mid i ev] mirror_type_build [of mid' j ev'] that by simp
    then have "te_kind ev' = te_kind ev" by (rule mirror_tag_inj)
    with base [OF that(1)] mirror_base_build [OF that(2)] that(4) show ?thesis by simp
  qed
  show ?thesis using none base same by (auto split: option.split)
qed

lemma mirror_identifies_event_witness:
  "case build_execution_event ''m1'' 5 (new_event 2 STARTED demo_world) of
     None \<Rightarrow> False | Some m \<Rightarrow> mirror_base m = (''2'', ''5'', 5)"
proof -
  have keys: "str_of_nat 2 = ''2''" "str_of_nat 5 = ''5''" by code_simp+
  show ?thesis
    using mirror_identifies_event [where mid = "''m1''" and i = 5 and ev = "new_event 2 STARTED demo_world"
        and mid' = "''m1''" and j = 5 and ev' = "new_event 2 STARTED demo_world"] keys
    by (simp add: new_event_def split: option.splits)
qed

section \<open>Provenance tokens\<close>



section \<open>Webhook deliveries\<close>

text \<open>
  C27. Whatever is posted to the webhook changes nothing and is not answered as accepted, unless it
  was sent with POST to an existing webhook agent that is not blocked and has a secret, and carries
  the signature of its body under that secret.
\<close>

theorem webhook_is_authenticated:
  assumes "snd (hook_intake env q w) \<noteq> w \<or> (\<exists>resp. fst (hook_intake env q w) = Inr resp \<and> response_status resp = 200)"
  shows "hq_post q \<and> (\<exists>n a s. py_int (hq_agent q) = Some (int n) \<and> t_get (w_agents w) n = Some a \<and>
     ag_kind a = WEBHOOK \<and> \<not> ag_blocked a \<and> ag_hook_url_secret a = Some s \<and> s \<noteq> [] \<and>
     hq_signature q = Some (sign env s (hq_body q)))"
proof -
  have out: False if "hook_intake env q w = (resp, w)" "\<forall>r. resp = Inr r \<longrightarrow> response_status r \<noteq> 200" for resp
    using assms that by auto
  have post: "hq_post q"
    by (rule ccontr, rule out [of "Inr Not_allowed"]) (simp_all add: hook_intake_def)
  obtain z where z: "py_int (hq_agent q) = Some z"
    using out [of "Inl (ValueError ''Field id expected a number'')"] post
    by (cases "py_int (hq_agent q)") (auto simp: hook_intake_def)
  obtain a where a: "0 \<le> z" "t_get (w_agents w) (nat z) = Some a"
    using out [of "Inr Unknown_agent"] post z
    by (cases "z < 0"; cases "t_get (w_agents w) (nat z)") (auto simp: hook_intake_def)
  have kind: "ag_kind a = WEBHOOK"
    by (rule ccontr, rule out [of "Inr Unknown_agent"]) (use post z a in \<open>simp_all add: hook_intake_def\<close>)
  have free: "\<not> ag_blocked a"
    by (rule notI, rule out [of "Inr Blocked"]) (use post z a kind in \<open>simp_all add: hook_intake_def\<close>)
  have "verify env (ag_hook_url_secret a) (hq_body q) (hq_signature q)"
    by (rule ccontr, rule out [of "Inr Bad_signature"]) (use post z a kind free in \<open>simp_all add: hook_intake_def\<close>)
  then show ?thesis using post z a kind free by (auto simp: verify_iff intro!: exI [of _ "nat z"])
qed

definition hook_world :: world where
  "hook_world = demo_world\<lparr>w_agents := \<lparr>rows = [(1, demo_agent\<lparr>ag_kind := WEBHOOK, ag_hook_url := Some ''http://h'',
     ag_hook_url_secret := Some ''k''\<rparr>)], seq = 1\<rparr>\<rparr>"

lemma webhook_is_authenticated_witness:
  "\<exists>s. hq_signature \<lparr>hq_post = True, hq_agent = str_of_nat 1, hq_body = ''b'', hq_signature = Some ''kb'',
       hq_message = Some (Completed (demo_completed 1))\<rparr> = Some (sign demo_env s ''b'')"
proof -
  let ?q = "\<lparr>hq_post = True, hq_agent = str_of_nat 1, hq_body = ''b'', hq_signature = Some ''kb'',
       hq_message = Some (Completed (demo_completed 1))\<rparr>"
  have "(case fst (hook_intake demo_env ?q hook_world) of Inr resp \<Rightarrow> response_status resp = 200 | _ \<Rightarrow> False)"
    by code_simp
  then have "\<exists>resp. fst (hook_intake demo_env ?q hook_world) = Inr resp \<and> response_status resp = 200"
    by (auto split: sum.splits)
  with webhook_is_authenticated [of demo_env ?q hook_world] show ?thesis by auto
qed

end
