(* ===== verification/Descriptors.thy ===== *)
theory Descriptors
  imports Definitions Provenance
begin

text \<open>
  \<^verbatim>\<open>facade/descriptors.py\<close>: the compilation of the descriptors a port requires or provides into the
  text of a PostgreSQL JSONPath predicate, and the two uses of \<^verbatim>\<open>json.dumps\<close> that are not canonical:
  with and without sorted keys, with the default separators and \<^verbatim>\<open>ensure_ascii\<close>. Evaluating the
  predicate is the database's.
\<close>

section \<open>The default JSON text\<close>

definition hex4 :: "nat \<Rightarrow> string" where
  "hex4 n = CHR 0x5C # CHR ''u'' # ''00'' @ [hex_digit (n div 16), hex_digit (n mod 16)]"

text \<open>Everything outside the printable ASCII range is escaped.\<close>

definition escape_ascii :: "char \<Rightarrow> string" where
  "escape_ascii c = (if 126 < (of_char c :: nat) then hex4 (of_char c) else escape_char c)"

definition ascii_string :: "string \<Rightarrow> string" where
  "ascii_string s = CHR 0x22 # concat (map escape_ascii s) @ [CHR 0x22]"

fun py_dumps :: "bool \<Rightarrow> json \<Rightarrow> string" where
  "py_dumps srt JNull = ''null''"
| "py_dumps srt (JBool b) = (if b then ''true'' else ''false'')"
| "py_dumps srt (JInt i) = str_of_int i"
| "py_dumps srt (JFloat s) = s"
| "py_dumps srt (JStr s) = ascii_string s"
| "py_dumps srt (JList xs) = CHR ''['' # join_with '', '' (map (py_dumps srt) xs) @ '']''"
| "py_dumps srt (JDict d) =
     CHR ''{'' # join_with '', '' (map (\<lambda>(k, s). ascii_string k @ '': '' @ s)
       (let items = map (\<lambda>(k, v). (k, py_dumps srt v)) d in if srt then sort_items items else items)) @ ''}''"

section \<open>Keys\<close>

definition is_word :: "char \<Rightarrow> bool" where
  "is_word c \<longleftrightarrow>
     (let n = (of_char c :: nat) in
      (48 \<le> n \<and> n \<le> 57) \<or> (65 \<le> n \<and> n \<le> 90) \<or> (97 \<le> n \<and> n \<le> 122) \<or> n = 95)"

fun split_dots :: "string \<Rightarrow> string \<Rightarrow> string list" where
  "split_dots acc [] = [rev acc]"
| "split_dots acc (c # cs) = (if c = CHR ''.'' then rev acc # split_dots [] cs else split_dots (c # acc) cs)"

text \<open>
  The pattern is one or more words joined by dots, up to \<^verbatim>\<open>$\<close>, which also matches before a newline
  that ends the string.
\<close>

definition key_body :: "string \<Rightarrow> string" where
  "key_body raw = (if raw \<noteq> [] \<and> last raw = CHR 0x0A then butlast raw else raw)"

definition key_re :: "string \<Rightarrow> bool" where
  "key_re raw = list_all (\<lambda>w. w \<noteq> [] \<and> list_all is_word w) (split_dots [] (key_body raw))"

definition raw_key :: "string \<Rightarrow> string" where
  "raw_key key = (if take 2 key = ''$.'' then drop 2 key else key)"

definition normalize_jsonpath_key :: "string \<Rightarrow> string outcome" where
  "normalize_jsonpath_key key =
     (if key_re (raw_key key) then Inr (''$.'' @ raw_key key)
      else Inl (ValueError ''Invalid descriptor key for JSONPath compilation''))"

section \<open>Conditions\<close>

definition compile_descriptor_condition :: "descriptor_input \<Rightarrow> string outcome" where
  "compile_descriptor_condition desc =
     (case normalize_jsonpath_key (ds_key desc) of
        Inl e \<Rightarrow> Inl e
      | Inr pg_path \<Rightarrow>
          (let formatted_val = py_dumps False (ds_value desc) in
           case ds_operator desc of
             OP_EXISTS \<Rightarrow>
               (case ds_value desc of
                  JBool True \<Rightarrow> Inr (''exists('' @ pg_path @ '')'')
                | JBool False \<Rightarrow> Inr (''!(exists('' @ pg_path @ ''))'')
                | _ \<Rightarrow> Inl (ValueError ''requires a boolean value''))
           | OP_MATCHES \<Rightarrow> Inr (pg_path @ '' == '' @ formatted_val)
           | OP_EQUALS \<Rightarrow> Inr (pg_path @ '' == '' @ formatted_val)
           | OP_NOT_EQUALS \<Rightarrow> Inr (pg_path @ '' != '' @ formatted_val)
           | OP_GTE \<Rightarrow> Inr (pg_path @ '' >= '' @ formatted_val)
           | OP_LTE \<Rightarrow> Inr (pg_path @ '' <= '' @ formatted_val)
           | OP_CONTAINS \<Rightarrow> Inr (pg_path @ ''[*] == '' @ formatted_val)
           | OP_IN \<Rightarrow>
               (case ds_value desc of
                  JList vs \<Rightarrow>
                    Inr (if vs = [] then ''(false)''
                         else ''('' @ join_with '' || '' (map (\<lambda>v. pg_path @ '' == '' @ py_dumps False v) vs) @ '')'')
                | _ \<Rightarrow> Inl (ValueError ''requires a list value''))
           | OP_NOT_IN \<Rightarrow>
               (case ds_value desc of
                  JList vs \<Rightarrow>
                    Inr (if vs = [] then ''(true)''
                         else ''('' @ join_with '' && '' (map (\<lambda>v. pg_path @ '' != '' @ py_dumps False v) vs) @ '')'')
                | _ \<Rightarrow> Inl (ValueError ''requires a list value''))))"

definition compile_descriptors_to_jsonpath :: "descriptor_input list \<Rightarrow> string option outcome" where
  "compile_descriptors_to_jsonpath descriptors =
     (if descriptors = [] then Inr None
      else case map_outcome compile_descriptor_condition descriptors of
             Inl e \<Rightarrow> Inl e
           | Inr cs \<Rightarrow> Inr (Some (join_with '' && '' cs)))"

section \<open>What compiles\<close>

definition value_fits :: "descriptor_operator \<Rightarrow> json \<Rightarrow> bool" where
  "value_fits op' v =
     (case op' of
        OP_EXISTS \<Rightarrow> v = JBool True \<or> v = JBool False
      | OP_IN \<Rightarrow> (\<exists>vs. v = JList vs)
      | OP_NOT_IN \<Rightarrow> (\<exists>vs. v = JList vs)
      | _ \<Rightarrow> True)"

definition descriptor_ok :: "descriptor_input \<Rightarrow> bool" where
  "descriptor_ok d \<longleftrightarrow> key_re (raw_key (ds_key d)) \<and> value_fits (ds_operator d) (ds_value d)"

lemma condition_compiles:
  "(\<exists>s. compile_descriptor_condition d = Inr s) \<longleftrightarrow> descriptor_ok d"
proof (cases "key_re (raw_key (ds_key d))")
  case False
  then show ?thesis
    by (simp add: compile_descriptor_condition_def normalize_jsonpath_key_def descriptor_ok_def)
next
  case True
  then have key: "normalize_jsonpath_key (ds_key d) = Inr (''$.'' @ raw_key (ds_key d))"
    by (simp add: normalize_jsonpath_key_def)
  have some: "(\<exists>s. (Inr t :: string outcome) = Inr s) \<longleftrightarrow> True" for t by simp
  have none: "(\<exists>s. (Inl e :: string outcome) = Inr s) \<longleftrightarrow> False" for e by simp
  have fits: "value_fits OP_EXISTS v \<longleftrightarrow> v = JBool True \<or> v = JBool False"
    "value_fits OP_IN v \<longleftrightarrow> (\<exists>vs. v = JList vs)" "value_fits OP_NOT_IN v \<longleftrightarrow> (\<exists>vs. v = JList vs)" for v
    by (simp_all add: value_fits_def)
  have fit: "value_fits op' v" if "op' \<notin> {OP_EXISTS, OP_IN, OP_NOT_IN}" for op' v
    using that by (cases op') (simp_all add: value_fits_def)
  have ok: "descriptor_ok d \<longleftrightarrow> value_fits (ds_operator d) (ds_value d)"
    using True by (simp add: descriptor_ok_def)
  note unfold = compile_descriptor_condition_def key sum.case Let_def descriptor_operator.case
    json.case bool.case some none
  show ?thesis
  proof (cases "ds_operator d \<in> {OP_EXISTS, OP_IN, OP_NOT_IN}")
    case False
    then have "\<exists>s. compile_descriptor_condition d = Inr s"
      by (cases "ds_operator d") (simp_all only: unfold simp_thms insert_iff empty_iff)
    with fit [OF False] show ?thesis by (simp only: ok)
  next
    case True
    then consider "ds_operator d = OP_EXISTS" | "ds_operator d = OP_IN" | "ds_operator d = OP_NOT_IN" by blast
    then show ?thesis
    proof cases
      case 1
      then show ?thesis
      proof (cases "ds_value d")
        case (JBool b)
        with 1 show ?thesis by (cases b) (simp_all only: unfold ok fits simp_thms json.inject)
      qed (simp_all only: 1 unfold ok fits json.distinct simp_thms)
    next
      case 2
      then show ?thesis
        by (cases "ds_value d") (simp_all only: 2 unfold ok fits json.distinct json.inject simp_thms)
    next
      case 3
      then show ?thesis
        by (cases "ds_value d") (simp_all only: 3 unfold ok fits json.distinct json.inject simp_thms)
    qed
  qed
qed

lemma map_outcome_total:
  "(\<exists>ys. map_outcome f xs = Inr ys) \<longleftrightarrow> (\<forall>x \<in> set xs. \<exists>y. f x = Inr y)"
  by (induction xs) (auto split: sum.split)

lemma descriptors_compile:
  "(\<exists>s. compile_descriptors_to_jsonpath ds = Inr s) \<longleftrightarrow> (\<forall>d \<in> set ds. descriptor_ok d)"
proof -
  have "(\<exists>s. compile_descriptors_to_jsonpath ds = Inr s) \<longleftrightarrow>
        (\<exists>ys. map_outcome compile_descriptor_condition ds = Inr ys)"
    by (cases "map_outcome compile_descriptor_condition ds") (auto simp: compile_descriptors_to_jsonpath_def)
  then show ?thesis by (simp add: map_outcome_total condition_compiles)
qed

lemma split_dots_set:
  "\<Union> (set ` set (split_dots acc s)) = set acc \<union> (set s - {CHR ''.''})"
  by (induction acc s rule: split_dots.induct) (simp_all, blast)

lemma key_body_set: "c \<in> set raw \<Longrightarrow> c \<in> set (key_body raw) \<or> c = CHR 0x0A"
  by (cases raw rule: rev_cases) (auto simp: key_body_def)

text \<open>A path holds words, dots and at most a final newline: nothing that JSONPath could read as syntax.\<close>

lemma path_chars:
  assumes "normalize_jsonpath_key key = Inr path"
  shows "\<exists>raw. path = ''$.'' @ raw \<and> (\<forall>c \<in> set raw. is_word c \<or> c = CHR ''.'' \<or> c = CHR 0x0A)"
proof -
  from assms have path: "path = ''$.'' @ raw_key key" and re: "key_re (raw_key key)"
    by (auto simp: normalize_jsonpath_key_def split: if_splits)
  from re have words: "is_word c" if "c \<in> \<Union> (set ` set (split_dots [] (key_body (raw_key key))))" for c
    using that unfolding key_re_def list_all_iff by blast
  have "is_word c \<or> c = CHR ''.'' \<or> c = CHR 0x0A" if "c \<in> set (raw_key key)" for c
    using key_body_set [OF that] words [of c] unfolding split_dots_set by auto
  with path show ?thesis by blast
qed

section \<open>String literals\<close>

text \<open>
  A reader of JSON string literals, from behind the opening quotation mark to what follows the
  closing one. JSONPath has the same literals.
\<close>

definition hex_value :: "char \<Rightarrow> nat" where
  "hex_value c = (let n = of_char c in if n < 58 then n - 48 else n - 87)"

definition unescape :: "char \<Rightarrow> char" where
  "unescape e =
     (if e = CHR ''n'' then char_of (10 :: nat)
      else if e = CHR ''r'' then char_of (13 :: nat)
      else if e = CHR ''t'' then char_of (9 :: nat)
      else if e = CHR ''f'' then char_of (12 :: nat)
      else if e = CHR ''b'' then char_of (8 :: nat)
      else e)"

definition put_char :: "char \<Rightarrow> (string \<times> string) option \<Rightarrow> (string \<times> string) option" where
  "put_char c = map_option (map_prod ((#) c) id)"

fun read_literal :: "string \<Rightarrow> (string \<times> string) option" where
  "read_literal [] = None"
| "read_literal (c # cs) =
     (if c = CHR 0x22 then Some ([], cs)
      else if c = CHR 0x5C then
        (case cs of
           e # ds \<Rightarrow>
             (if e = CHR ''u'' then
                (case ds of
                   a # b # h # l # ts \<Rightarrow> put_char (char_of (16 * hex_value h + hex_value l)) (read_literal ts)
                 | _ \<Rightarrow> None)
              else put_char (unescape e) (read_literal ds))
         | [] \<Rightarrow> None)
      else put_char c (read_literal cs))"

lemma of_char_256: "(of_char c :: nat) < 256"
  by (metis mod_less_divisor of_char_mod_256 zero_less_numeral)

lemma hex_value_digit: "k < 16 \<Longrightarrow> hex_value (hex_digit k) = k"
  by (simp add: hex_value_def hex_digit_def Let_def)

lemma hex_char: "char_of (16 * hex_value (hex_digit ((of_char c :: nat) div 16)) + hex_value (hex_digit (of_char c mod 16))) = c"
proof -
  have "of_char c div 16 < (16 :: nat)" using of_char_256 [of c] by (simp add: less_mult_imp_div_less)
  then show ?thesis by (simp add: hex_value_digit)
qed

lemma named_chars:
  "char_of (34 :: nat) = CHR 0x22" "char_of (92 :: nat) = CHR 0x5C" "char_of (10 :: nat) = CHR 0x0A"
  "char_of (13 :: nat) = CHR 0x0D" "char_of (9 :: nat) = CHR 0x09" "char_of (12 :: nat) = CHR 0x0C"
  "char_of (8 :: nat) = CHR 0x08"
  by (simp_all add: char_of_def bit_Suc_0_iff)

lemma read_u: "read_literal (CHR 0x5C # CHR ''u'' # a # b # h # l # t) =
    put_char (char_of (16 * hex_value h + hex_value l)) (read_literal t)"
  by simp

lemma read_plain: "c \<noteq> CHR 0x22 \<Longrightarrow> c \<noteq> CHR 0x5C \<Longrightarrow> read_literal (c # t) = put_char c (read_literal t)"
  by simp

lemma char_of_code: "(of_char c :: nat) = n \<Longrightarrow> c = char_of n"
  by (metis char_of_char)

lemma read_escaped: "read_literal (escape_ascii c @ t) = put_char c (read_literal t)"
proof -
  let ?n = "of_char c :: nat"
  have hex: "read_literal (CHR 0x5C # CHR ''u'' # CHR ''0'' # CHR ''0'' # hex_digit (?n div 16) # hex_digit (?n mod 16) # t) =
      put_char c (read_literal t)"
    by (simp only: read_u hex_char)
  consider "126 < ?n" | "?n \<in> {34, 92, 10, 13, 9, 12, 8}"
    | "?n < 32" "?n \<notin> {34, 92, 10, 13, 9, 12, 8}"
    | "\<not> 126 < ?n" "\<not> ?n < 32" "?n \<notin> {34, 92}"
    by fastforce
  then show ?thesis
  proof cases
    case 1
    then show ?thesis using hex by (simp add: escape_ascii_def hex4_def del: read_literal.simps)
  next
    case 2
    then show ?thesis
      by (auto simp: escape_ascii_def escape_char_def Let_def unescape_def named_chars dest!: char_of_code)
  next
    case 3
    then show ?thesis using hex
      by (simp add: escape_ascii_def escape_char_def Let_def named_chars del: read_literal.simps)
  next
    case 4
    then have "c \<noteq> CHR 0x22" "c \<noteq> CHR 0x5C" by auto
    with 4 show ?thesis
      by (simp add: escape_ascii_def escape_char_def Let_def read_plain del: read_literal.simps)
  qed
qed

lemma read_string: "read_literal (concat (map escape_ascii s) @ CHR 0x22 # t) = Some (s, t)"
  by (induction s) (simp_all add: read_escaped put_char_def del: read_literal.simps(2), simp)

section \<open>What the predicates can hold\<close>



text \<open>
  The anchor \<^verbatim>\<open>$\<close> of the key pattern also matches before a final newline, so a key that ends in one is
  accepted, although the pattern means to admit words and dots only.
\<close>

lemma newline_key_accepted:
  "normalize_jsonpath_key (''axes'' @ [CHR 0x0A]) = Inr (''$.axes'' @ [CHR 0x0A])"
  by code_simp

end
