(* ===== verification/Definition_Properties.thy ===== *)
theory Definition_Properties
  imports Definitions
begin

text \<open>
  What validation and inference make of a definition: the invariant every port of a validated tree
  satisfies, and the scope and protocols read off the ports.
\<close>

section \<open>The ports of a tree\<close>

fun subports :: "'w port \<Rightarrow> 'w port list" where
  "subports p = p # concat (map subports (children p))"

declare subports.simps [simp del]

lemma subports_iff: "r \<in> set (subports p) \<longleftrightarrow> r = p \<or> (\<exists>c \<in> set (children p). r \<in> set (subports c))"
  by (subst subports.simps) auto

section \<open>Scope\<close>

lemma traverse_scope_iff: "traverse_scope p \<longleftrightarrow> (\<exists>q \<in> set (subports p). po_kind q = P_MEMORY_STRUCTURE)"
proof (induction p rule: traverse_scope.induct)
  case (1 p)
  show ?case
  proof (cases "po_kind p = P_MEMORY_STRUCTURE")
    case True
    then show ?thesis by (subst traverse_scope.simps) (auto simp: subports_iff [of _ p])
  next
    case False
    then have "traverse_scope p \<longleftrightarrow> (\<exists>c \<in> set (children p). traverse_scope c)"
      by (subst traverse_scope.simps) (auto simp: list_ex_iff)
    also have "\<dots> \<longleftrightarrow> (\<exists>c \<in> set (children p). \<exists>q \<in> set (subports c). po_kind q = P_MEMORY_STRUCTURE)"
    proof (rule bex_cong [OF refl])
      fix c
      assume c: "c \<in> set (children p)"
      then have "children p \<noteq> []" by auto
      from "1.IH" [OF False this c]
      show "traverse_scope c \<longleftrightarrow> (\<exists>q \<in> set (subports c). po_kind q = P_MEMORY_STRUCTURE)" .
    qed
    also have "\<dots> \<longleftrightarrow> (\<exists>q \<in> set (subports p). po_kind q = P_MEMORY_STRUCTURE)"
      unfolding subports_iff [of _ p] Bex_def using False by blast
    finally show ?thesis .
  qed
qed

definition holds_memory :: "'w port list \<Rightarrow> bool" where
  "holds_memory ps \<longleftrightarrow> (\<exists>p \<in> set ps. \<exists>q \<in> set (subports p). po_kind q = P_MEMORY_STRUCTURE)"

lemma has_locals_iff: "has_locals ps = holds_memory ps"
  by (simp add: has_locals_def holds_memory_def list_ex_iff traverse_scope_iff)

section \<open>Validated ports\<close>

text \<open>
  A list has one child. A quantity has a reference unit; its dimension is the one of that unit, and
  every proposed unit has the same. No other port has units.
\<close>

definition port_ok :: "(string \<Rightarrow> string outcome) \<Rightarrow> 'w port \<Rightarrow> bool" where
  "port_ok dim p \<longleftrightarrow>
     (po_kind p = P_LIST \<longrightarrow> length (children p) = 1) \<and>
     (if po_kind p = P_QUANTITY then
        \<exists>u d. po_reference_unit p = Some u \<and> u \<noteq> [] \<and> dim u = Inr d \<and> po_dimension p = Some d \<and>
          (\<forall>us. po_proposed_units p = Some us \<longrightarrow> (\<forall>v \<in> set us. dim v = Inr d))
      else po_reference_unit p = None \<and> po_proposed_units p = None \<and> po_dimension p = None)"

lemma set_port_simps [simp]:
  "po_kind (set_dimension d p) = po_kind p" "po_kind (set_children cs p) = po_kind p"
  "po_reference_unit (set_dimension d p) = po_reference_unit p"
  "po_reference_unit (set_children cs p) = po_reference_unit p"
  "po_proposed_units (set_dimension d p) = po_proposed_units p"
  "po_proposed_units (set_children cs p) = po_proposed_units p"
  "po_dimension (set_dimension d p) = Some d" "po_dimension (set_children cs p) = po_dimension p"
  "po_children (set_dimension d p) = po_children p" "po_children (set_children cs p) = cs"
  "children (set_dimension d p) = children p"
  "children (set_children (Some qs) p) = qs"
  by (simp_all add: set_dimension_def set_children_def children_def)

lemma set_dimension_same: "po_dimension p = Some d \<Longrightarrow> set_dimension d p = p"
  by (cases p) (simp add: set_dimension_def)

lemma set_children_same: "po_children p = cs \<Longrightarrow> set_children cs p = p"
  by (cases p) (simp add: set_children_def)

lemma check_proposed_Inr: "check_proposed dim d us = Inr () \<longleftrightarrow> (\<forall>u \<in> set us. dim u = Inr d)"
  by (induction us) (auto split: sum.split)

lemma check_quantity_Inr:
  assumes "check_quantity dim p = Inr q"
  obtains u d where "po_reference_unit p = Some u" "u \<noteq> []" "dim u = Inr d" "q = set_dimension d p"
    "\<forall>us. po_proposed_units p = Some us \<longrightarrow> (\<forall>v \<in> set us. dim v = Inr d)"
  using assms
  by (auto simp: check_quantity_def check_proposed_Inr [symmetric] split: option.splits list.splits sum.splits if_splits)

lemma check_kind_Inr:
  assumes "check_kind_specific_fields dim p = Inr q"
  shows "port_ok dim q" and "children q = children p" and "po_children q = po_children p"
proof -
  from assms have list: "po_kind p = P_LIST \<longrightarrow> length (children p) = 1"
    by (auto simp: check_kind_specific_fields_def split: if_splits)
  have "port_ok dim q \<and> children q = children p \<and> po_children q = po_children p"
  proof (cases "po_kind p = P_QUANTITY")
    case True
    with assms have "check_quantity dim p = Inr q"
      by (simp add: check_kind_specific_fields_def split: if_splits)
    then show ?thesis by (rule check_quantity_Inr) (simp add: True port_ok_def)
  next
    case False
    with assms list show ?thesis
      by (auto simp: check_kind_specific_fields_def port_ok_def split: if_splits)
  qed
  then show "port_ok dim q" "children q = children p" "po_children q = po_children p" by auto
qed

lemma check_kind_ok:
  assumes "port_ok dim q" and "\<And>e d. dim e = Inr d \<Longrightarrow> dim d = Inr d"
  shows "check_kind_specific_fields dim q = Inr q"
proof (cases "po_kind q = P_QUANTITY")
  case True
  with assms(1) obtain u d where u: "po_reference_unit q = Some u" "u \<noteq> []" "dim u = Inr d"
    "po_dimension q = Some d" "\<forall>us. po_proposed_units q = Some us \<longrightarrow> (\<forall>v \<in> set us. dim v = Inr d)"
    by (auto simp: port_ok_def)
  from u(2) obtain c cs where "u = c # cs" by (cases u) auto
  moreover have "check_proposed dim d (case po_proposed_units q of None \<Rightarrow> [] | Some us \<Rightarrow> us) = Inr ()"
    using u(5) by (cases "po_proposed_units q") (auto simp: check_proposed_Inr)
  ultimately show ?thesis using True u assms(2) [OF u(3)]
    by (simp add: check_kind_specific_fields_def check_quantity_def set_dimension_same)
next
  case False
  with assms(1) show ?thesis
    by (auto simp: check_kind_specific_fields_def port_ok_def children_def split: option.splits)
qed

lemma map_outcome_Inr:
  "map_outcome f xs = Inr ys \<longleftrightarrow> list_all2 (\<lambda>x y. f x = Inr y) xs ys"
proof (induction xs arbitrary: ys)
  case Nil
  show ?case by auto
next
  case (Cons x xs)
  show ?case
    by (cases "f x"; cases "map_outcome f xs") (auto simp: list_all2_Cons1 Cons.IH [symmetric])
qed

lemma validate_port_ok:
  "validate_port dim p = Inr q \<Longrightarrow> r \<in> set (subports q) \<Longrightarrow> port_ok dim r"
proof (induction dim p arbitrary: q r rule: validate_port.induct)
  case (1 dim p)
  show ?case
  proof (cases "po_children p")
    case None
    with "1.prems"(1) have "check_kind_specific_fields dim p = Inr q" by (simp add: validate_port.simps)
    note c = check_kind_Inr [OF this]
    from c(2) None have "children q = []" by (simp add: children_def)
    with "1.prems"(2) c(1) show ?thesis by (simp add: subports_iff [of _ q])
  next
    case (Some cs)
    with "1.prems"(1) obtain qs where qs: "map_outcome (validate_port dim) (children p) = Inr qs"
      "check_kind_specific_fields dim (set_children (Some qs) p) = Inr q"
      by (auto simp: validate_port.simps [of dim p] split: sum.splits)
    note c = check_kind_Inr [OF qs(2)]
    show ?thesis
    proof (cases "r = q")
      case True
      with c(1) show ?thesis by simp
    next
      case False
      with "1.prems"(2) c(2) obtain d where d: "d \<in> set qs" "r \<in> set (subports d)"
        by (auto simp: subports_iff [of _ q])
      from qs(1) d(1) obtain x where "x \<in> set (children p)" "validate_port dim x = Inr d"
        by (auto simp: map_outcome_Inr dest: list_all2_right)
      from "1.IH" [OF Some this d(2)] show ?thesis .
    qed
  qed
qed

lemma validate_ok_port:
  assumes "\<forall>r \<in> set (subports q). port_ok dim r" and "\<And>e d. dim e = Inr d \<Longrightarrow> dim d = Inr d"
  shows "validate_port dim q = Inr q"
  using assms
proof (induction dim q rule: validate_port.induct)
  case (1 dim q)
  have own: "check_kind_specific_fields dim q = Inr q"
    by (rule check_kind_ok) (use "1.prems" in \<open>auto simp: subports_iff [of _ q]\<close>)
  show ?case
  proof (cases "po_children q")
    case None
    with own show ?thesis by (simp add: validate_port.simps)
  next
    case (Some cs)
    have "map_outcome (validate_port dim) (children q) = Inr (children q)"
    proof (simp add: map_outcome_Inr list_all2_same, rule ballI)
      fix x
      assume x: "x \<in> set (children q)"
      show "validate_port dim x = Inr x"
        by (rule "1.IH" [OF Some x]) (use x "1.prems" in \<open>auto simp: subports_iff [of _ q]\<close>)
    qed
    moreover have "children q = cs" using Some by (simp add: children_def)
    ultimately show ?thesis using own Some
      by (simp add: validate_port.simps [of dim q] set_children_same)
  qed
qed

section \<open>Properties\<close>


definition list_of_volts :: "return_widget_input port" where
  "list_of_volts =
     Port None ''traces'' None P_LIST None None False None None None None None None None None
       (Some [Port None ''trace'' None P_QUANTITY None None False None None None (Some ''volt'')
                (Some [''mV'']) None None None None])"

definition volts :: "string \<Rightarrow> string outcome" where
  "volts = dimensionality_of (\<lambda>e. if e \<in> {''volt'', ''mV''} then Some [(''[mass]'', 1), (''[time]'', -3)]
                                else if e = ''[mass] / [time] ** 3'' then Some [(''[mass]'', 1), (''[time]'', -3)]
                                else None)"

lemma volts_idempotent: "volts e = Inr d \<Longrightarrow> volts d = Inr d"
proof -
  have r: "render_dimensionality [(''[mass]'', 1), (''[time]'', - 3)] = ''[mass] / [time] ** 3''" by code_simp
  have v: "volts ''[mass] / [time] ** 3'' = Inr ''[mass] / [time] ** 3''" by code_simp
  have n: "volts DIMENSIONLESS = Inr DIMENSIONLESS" by code_simp
  assume "volts e = Inr d"
  then have "d = DIMENSIONLESS \<or> d = render_dimensionality [(''[mass]'', 1), (''[time]'', - 3)]"
    unfolding volts_def dimensionality_of_def by (simp only: split: if_splits option.splits) auto
  then show ?thesis using r v n by auto
qed


end
