(* ===== verification/Port_Rows.thy ===== *)
theory Port_Rows
  imports Models Descriptors Definition_Properties
begin

text \<open>
  The relational port rows an action is matched by (\<^verbatim>\<open>facade/mutations/implementation.py\<close>): the tree of
  a definition's ports is flattened into one table level by level, each child row naming the row of
  its parent.
\<close>

section \<open>Flattening\<close>

text \<open>\<^verbatim>\<open>getattr(port_data, descriptor_field, None) or []\<close>\<close>

definition descriptors_of :: "'w port \<Rightarrow> descriptor_input list" where
  "descriptors_of p = (case po_descriptors p of None \<Rightarrow> [] | Some ds \<Rightarrow> ds)"

type_synonym 'w built = "'w port \<times> string \<times> port_row"

definition build_row :: "nat \<Rightarrow> nat option \<Rightarrow> string \<Rightarrow> nat \<Rightarrow> 'w port \<Rightarrow> 'w built outcome" where
  "build_row action_id parent parent_path index p =
     (let path = (if parent_path \<noteq> [] then parent_path @ ''.'' @ po_key p else po_key p) in
      case compile_descriptors_to_jsonpath (descriptors_of p) of
        Inl e \<Rightarrow> Inl e
      | Inr jsonpath \<Rightarrow>
          Inr (p, path,
            \<lparr>pr_action = action_id, pr_parent = parent, pr_index = int index, pr_key = po_key p,
             pr_key_path = path, pr_kind = po_kind p, pr_identifier = po_identifier p,
             pr_dimension = po_dimension p, pr_compiled_jsonpath = jsonpath, pr_nullable = po_nullable p\<rparr>))"

definition build_siblings :: "nat \<Rightarrow> nat option \<Rightarrow> string \<Rightarrow> 'w port list \<Rightarrow> 'w built list outcome" where
  "build_siblings action_id parent parent_path ps =
     map_outcome (\<lambda>(index, p). build_row action_id parent parent_path index p) (enumerate 0 ps)"

text \<open>\<^verbatim>\<open>bulk_create\<close> gives the keys of the new rows in order.\<close>

fun bulk_create :: "'r list \<Rightarrow> 'r table \<Rightarrow> nat list \<times> 'r table" where
  "bulk_create [] t = ([], t)"
| "bulk_create (r # rs) t = apfst ((#) (Suc (seq t))) (bulk_create rs (t_add r t))"

definition next_level :: "nat \<Rightarrow> (nat \<times> 'w built) list \<Rightarrow> 'w built list outcome" where
  "next_level action_id level =
     (case map_outcome (\<lambda>(k, p, path, r). build_siblings action_id (Some k) path (children p)) level of
        Inl e \<Rightarrow> Inl e
      | Inr blocks \<Rightarrow> Inr (concat blocks))"

lemma bulk_create_eq:
  "bulk_create rs t =
     ([Suc (seq t)..<Suc (seq t + length rs)],
      t\<lparr>rows := rows t @ zip [Suc (seq t)..<Suc (seq t + length rs)] rs, seq := seq t + length rs\<rparr>)"
proof (induction rs arbitrary: t)
  case Nil
  show ?case by simp
next
  case (Cons r rs)
  have "[Suc (seq t)..<Suc (seq t + length (r # rs))] =
      Suc (seq t) # [Suc (Suc (seq t))..<Suc (Suc (seq t) + length rs)]"
    by (subst upt_conv_Cons) simp_all
  then show ?case by (simp add: Cons.IH t_add_def del: upt_Suc)
qed

lemma built_ports: "build_siblings a parent path ps = Inr xs \<Longrightarrow> map fst xs = ps"
proof -
  assume "build_siblings a parent path ps = Inr xs"
  then have "list_all2 (\<lambda>(i, p) x. build_row a parent path i p = Inr x) (enumerate 0 ps) xs"
    by (simp add: build_siblings_def map_outcome_Inr split_def)
  then have "list_all2 (\<lambda>(i, p) x. fst x = p) (enumerate 0 ps) xs"
    by (rule list_all2_mono) (auto simp: build_row_def Let_def split: sum.splits)
  then have "map snd (enumerate 0 ps) = map fst xs"
    by (induction rule: list_all2_induct) auto
  then show ?thesis by simp
qed

lemma children_sum: "sum_list (map size (children p)) < size p"
proof -
  have "sum_list (map size cs) \<le> size_list size cs" for cs :: "'a port list"
    by (induction cs) auto
  then show ?thesis
    by (cases p) (auto simp: children_def less_Suc_eq_le intro: le_SucI trans_le_add2 split: option.splits)
qed

lemma next_level_smaller:
  assumes "next_level a level = Inr nxt" and "level \<noteq> []"
  shows "sum_list (map (size \<circ> fst) nxt) < sum_list (map (size \<circ> fst \<circ> snd) level)"
proof -
  let ?build = "\<lambda>(k, p, path, r). build_siblings a (Some k) path (children p)"
  from assms(1) obtain blocks where b: "list_all2 (\<lambda>x y. ?build x = Inr y) level blocks" "nxt = concat blocks"
    by (auto simp: next_level_def map_outcome_Inr split: sum.splits)
  have one: "sum_list (map (size \<circ> fst) y) < (size \<circ> fst \<circ> snd) x" if "?build x = Inr y" for x y
  proof -
    obtain k p path r where "x = (k, p, path, r)" by (cases x) auto
    with that built_ports [of a "Some k" path "children p" y] have "map fst y = children p" by simp
    then have "sum_list (map (size \<circ> fst) y) = sum_list (map size (children p))"
      by (simp only: map_map [symmetric])
    with children_sum [of p] show ?thesis by (simp add: \<open>x = (k, p, path, r)\<close>)
  qed
  have "sum_list (map (size \<circ> fst) (concat blocks)) \<le> sum_list (map (size \<circ> fst \<circ> snd) level)"
    using b(1) by (induction rule: list_all2_induct) (use one in \<open>fastforce simp: less_imp_le add_mono\<close>)+
  moreover obtain x level' y blocks' where "level = x # level'" "blocks = y # blocks'" "?build x = Inr y"
      "list_all2 (\<lambda>x y. ?build x = Inr y) level' blocks'"
    using b(1) assms(2) by (cases level; cases blocks) auto
  moreover have "sum_list (map (size \<circ> fst) (concat blocks')) \<le> sum_list (map (size \<circ> fst \<circ> snd) level')"
    using calculation(5) by (induction rule: list_all2_induct) (use one in \<open>fastforce simp: less_imp_le add_mono\<close>)+
  ultimately show ?thesis using one [of x y] by (simp add: b(2))
qed

function create_levels :: "nat \<Rightarrow> 'w built list \<Rightarrow> port_row table \<Rightarrow> port_row table outcome" where
  "create_levels action_id level t =
     (if level = [] then Inr t
      else
        (case bulk_create (map (\<lambda>(p, path, r). r) level) t of
           (ks, t') \<Rightarrow>
             (case next_level action_id (zip ks level) of
                Inl e \<Rightarrow> Inl e
              | Inr level' \<Rightarrow> create_levels action_id level' t')))"
  by pat_completeness auto

termination create_levels
proof (relation "measure (\<lambda>(a, level, t). sum_list (map (size \<circ> fst) level))")
  fix a and level :: "'w built list" and t ks t' level'
  assume "level \<noteq> []" and b: "(ks, t') = bulk_create (map (\<lambda>(p, path, r). r) level) t"
    and n: "next_level a (zip ks level) = Inr level'"
  from b have "length ks = length level" by (simp add: bulk_create_eq del: upt_Suc)
  then have "map (size \<circ> fst \<circ> snd) (zip ks level) = map (size \<circ> fst) (map snd (zip ks level))"
    by (simp only: map_map comp_assoc)
  then have "map (size \<circ> fst \<circ> snd) (zip ks level) = map (size \<circ> fst) level"
    using \<open>length ks = length level\<close> by (simp only: map_snd_zip)
  with next_level_smaller [OF n] \<open>level \<noteq> []\<close> \<open>length ks = length level\<close>
  show "((a, level', t'), (a, level, t)) \<in> measure (\<lambda>(a, level, t). sum_list (map (size \<circ> fst) level))"
    by (cases ks) auto
qed simp

declare create_levels.simps [simp del]

definition bulk_create_ports_level_by_level ::
    "'w port list \<Rightarrow> nat \<Rightarrow> port_row table \<Rightarrow> port_row table outcome" where
  "bulk_create_ports_level_by_level ps action_id t =
     (case build_siblings action_id None [] ps of
        Inl e \<Rightarrow> Inl e
      | Inr level \<Rightarrow> create_levels action_id level t)"

text \<open>
  The deletion of an action's rows cascades to the rows below them, which name the same action.
\<close>

definition purge_ports :: "nat \<Rightarrow> port_row table \<Rightarrow> port_row table" where
  "purge_ports action_id t = t_del (\<lambda>k r. pr_action r = action_id) t"

definition rebuild_relational_ports :: "nat \<Rightarrow> definition_input \<Rightarrow> world \<Rightarrow> unit outcome \<times> world" where
  "rebuild_relational_ports action_id d w =
     (let w1 = w\<lparr>w_arg_ports := purge_ports action_id (w_arg_ports w),
                 w_return_ports := purge_ports action_id (w_return_ports w)\<rparr> in
      case bulk_create_ports_level_by_level (df_args d) action_id (w_arg_ports w1) of
        Inl e \<Rightarrow> (Inl e, w1)
      | Inr args \<Rightarrow>
          (case bulk_create_ports_level_by_level (df_returns d) action_id (w_return_ports w1) of
             Inl e \<Rightarrow> (Inl e, w1\<lparr>w_arg_ports := args\<rparr>)
           | Inr returns \<Rightarrow>
               (Inr (), w1\<lparr>w_arg_ports := args, w_return_ports := returns,
                  w_actions := t_upd action_id
                    (\<lambda>r. r\<lparr>ac_arg_count := int (length (df_args d)), ac_return_count := int (length (df_returns d))\<rparr>)
                    (w_actions w1)\<rparr>)))"

end
