(* ===== verification/Matching.thy ===== *)
theory Matching
  imports Port_Rows
begin

text \<open>
  The relational matcher of \<^verbatim>\<open>facade/managers.py\<close>: a demand becomes a conjunction of SQL conditions over
  the action and port tables, with named parameters. Conditions are kept as a tree; \<open>render\<close> gives
  the text the code builds, \<open>holds\<close> what the text means: a comparison with NULL is not true, a
  subquery binds its alias to a row of its table, an inner alias hides an outer one.
\<close>

section \<open>Conditions and their text\<close>

datatype sql_value = V_int int | V_str string | V_bool bool

type_synonym params = "sql_value dict"

datatype demand_kind = D_ARGS | D_RETURNS

fun PORT_TABLE :: "demand_kind \<Rightarrow> string" where
  "PORT_TABLE D_ARGS = ''facade_argport''"
| "PORT_TABLE D_RETURNS = ''facade_returnport''"

datatype port_column = C_index | C_key | C_kind | C_identifier | C_dimension | C_nullable

datatype action_column =
    A_organization_id | A_arg_count | A_return_count | A_hash | A_key | A_version | A_name
  | A_pure | A_idempotent | A_stateful

datatype root_filter = ROOT_NOT_NULLABLE | ROOT_STRUCTURE

datatype condition =
    Port_action string string
  | Port_root string
  | Port_parent string string
  | Port_is string port_column string
  | Port_accepts string string
  | Port_exists demand_kind string "condition list"
  | Action_is string action_column string
  | Action_app string string
  | Action_protocol string string
  | Root_count demand_kind string root_filter string

fun port_column_name :: "port_column \<Rightarrow> string" where
  "port_column_name C_index = ''index''"
| "port_column_name C_key = ''key''"
| "port_column_name C_kind = ''kind''"
| "port_column_name C_identifier = ''identifier''"
| "port_column_name C_dimension = ''dimension''"
| "port_column_name C_nullable = ''nullable''"

fun action_column_name :: "action_column \<Rightarrow> string" where
  "action_column_name A_organization_id = ''organization_id''"
| "action_column_name A_arg_count = ''arg_count''"
| "action_column_name A_return_count = ''return_count''"
| "action_column_name A_hash = ''hash''"
| "action_column_name A_key = ''key''"
| "action_column_name A_version = ''version''"
| "action_column_name A_name = ''name''"
| "action_column_name A_pure = ''pure''"
| "action_column_name A_idempotent = ''idempotent''"
| "action_column_name A_stateful = ''stateful''"

definition placeholder :: "string \<Rightarrow> string" where
  "placeholder key = ''%('' @ key @ '')s''"

fun root_filter_text :: "root_filter \<Rightarrow> string" where
  "root_filter_text ROOT_NOT_NULLABLE = ''pc.nullable = false''"
| "root_filter_text ROOT_STRUCTURE = ''pc.kind = '' @ [CHR 0x27] @ ''STRUCTURE'' @ [CHR 0x27]"

fun render :: "condition \<Rightarrow> string" where
  "render (Port_action p a) = p @ ''.action_id = '' @ a @ ''.id''"
| "render (Port_root p) = p @ ''.parent_id IS NULL''"
| "render (Port_parent p q) = p @ ''.parent_id = '' @ q @ ''.id''"
| "render (Port_is p c key) = p @ ''.'' @ port_column_name c @ '' = '' @ placeholder key"
| "render (Port_accepts p key) =
     ''('' @ p @ ''.compiled_jsonpath IS NULL OR jsonb_path_match('' @ placeholder key @ ''::jsonb, '' @ p @
     ''.compiled_jsonpath::jsonpath, '' @ [CHR 0x27] @ ''{}'' @ [CHR 0x27] @ ''::jsonb, true))''"
| "render (Port_exists k p cs) =
     ''EXISTS (SELECT 1 FROM '' @ PORT_TABLE k @ '' '' @ p @ '' WHERE '' @ join_with '' AND '' (map render cs) @ '')''"
| "render (Action_is a c key) = a @ ''.'' @ action_column_name c @ '' = '' @ placeholder key"
| "render (Action_app a key) =
     a @ ''.app_id IN (SELECT id FROM authentikate_app WHERE identifier = '' @ placeholder key @ '')''"
| "render (Action_protocol a key) =
     ''EXISTS (SELECT 1 FROM facade_action_protocols ap_'' @ key @ '' JOIN facade_protocol p_'' @ key @ '' ON p_'' @ key @
     ''.id = ap_'' @ key @ ''.protocol_id WHERE ap_'' @ key @ ''.action_id = '' @ a @ ''.id AND p_'' @ key @
     ''.name = '' @ placeholder key @ '')''"
| "render (Root_count k a f key) =
     ''(SELECT COUNT(*) FROM '' @ PORT_TABLE k @ '' pc WHERE pc.action_id = '' @ a @
     ''.id AND pc.parent_id IS NULL AND '' @ root_filter_text f @ '') = '' @ placeholder key"

section \<open>Their meaning\<close>

fun port_kind_value :: "port_kind \<Rightarrow> string" where
  "port_kind_value P_INT = ''INT''"
| "port_kind_value P_STRING = ''STRING''"
| "port_kind_value P_STRUCTURE = ''STRUCTURE''"
| "port_kind_value P_LIST = ''LIST''"
| "port_kind_value P_BOOL = ''BOOL''"
| "port_kind_value P_DICT = ''DICT''"
| "port_kind_value P_FLOAT = ''FLOAT''"
| "port_kind_value P_DATE = ''DATE''"
| "port_kind_value P_UNION = ''UNION''"
| "port_kind_value P_ENUM = ''ENUM''"
| "port_kind_value P_MODEL = ''MODEL''"
| "port_kind_value P_MEMORY_STRUCTURE = ''MEMORY_STRUCTURE''"
| "port_kind_value P_INTERFACE = ''INTERFACE''"
| "port_kind_value P_QUANTITY = ''QUANTITY''"

fun port_value :: "port_column \<Rightarrow> port_row \<Rightarrow> sql_value option" where
  "port_value C_index r = Some (V_int (pr_index r))"
| "port_value C_key r = Some (V_str (pr_key r))"
| "port_value C_kind r = Some (V_str (port_kind_value (pr_kind r)))"
| "port_value C_identifier r = map_option V_str (pr_identifier r)"
| "port_value C_dimension r = map_option V_str (pr_dimension r)"
| "port_value C_nullable r = Some (V_bool (pr_nullable r))"

fun action_value :: "action_column \<Rightarrow> action \<Rightarrow> sql_value" where
  "action_value A_organization_id a = V_int (int (ac_organization a))"
| "action_value A_arg_count a = V_int (ac_arg_count a)"
| "action_value A_return_count a = V_int (ac_return_count a)"
| "action_value A_hash a = V_str (ac_hash a)"
| "action_value A_key a = V_str (ac_key a)"
| "action_value A_version a = V_str (ac_version a)"
| "action_value A_name a = V_str (ac_name a)"
| "action_value A_pure a = V_bool (ac_pure a)"
| "action_value A_idempotent a = V_bool (ac_idempotent a)"
| "action_value A_stateful a = V_bool (ac_stateful a)"

fun port_table_of :: "demand_kind \<Rightarrow> world \<Rightarrow> port_row table" where
  "port_table_of D_ARGS w = w_arg_ports w"
| "port_table_of D_RETURNS w = w_return_ports w"

fun root_filter_holds :: "root_filter \<Rightarrow> port_row \<Rightarrow> bool" where
  "root_filter_holds ROOT_NOT_NULLABLE r = (\<not> pr_nullable r)"
| "root_filter_holds ROOT_STRUCTURE r = (pr_kind r = P_STRUCTURE)"

datatype bound = B_action nat action | B_port nat port_row

type_synonym bindings = "(string \<times> bound) list"

definition port_at :: "bindings \<Rightarrow> string \<Rightarrow> (nat \<times> port_row) option" where
  "port_at b alias = (case map_of b alias of Some (B_port k r) \<Rightarrow> Some (k, r) | _ \<Rightarrow> None)"

definition action_at :: "bindings \<Rightarrow> string \<Rightarrow> (nat \<times> action) option" where
  "action_at b alias = (case map_of b alias of Some (B_action k r) \<Rightarrow> Some (k, r) | _ \<Rightarrow> None)"

definition accepts :: "'c env \<Rightarrow> sql_value \<Rightarrow> string option \<Rightarrow> bool" where
  "accepts env object jsonpath =
     (case jsonpath of
        None \<Rightarrow> True
      | Some path \<Rightarrow> (case object of V_str s \<Rightarrow> jsonb_path_match env s path | _ \<Rightarrow> False))"

fun holds :: "'c env \<Rightarrow> world \<Rightarrow> params \<Rightarrow> bindings \<Rightarrow> condition \<Rightarrow> bool" where
  "holds env w ps b (Port_action p a) =
     (case (port_at b p, action_at b a) of (Some (_, r), Some (k, _)) \<Rightarrow> pr_action r = k | _ \<Rightarrow> False)"
| "holds env w ps b (Port_root p) = (case port_at b p of Some (_, r) \<Rightarrow> pr_parent r = None | _ \<Rightarrow> False)"
| "holds env w ps b (Port_parent p q) =
     (case (port_at b p, port_at b q) of (Some (_, r), Some (k, _)) \<Rightarrow> pr_parent r = Some k | _ \<Rightarrow> False)"
| "holds env w ps b (Port_is p c key) =
     (case (port_at b p, dict_get ps key) of (Some (_, r), Some v) \<Rightarrow> port_value c r = Some v | _ \<Rightarrow> False)"
| "holds env w ps b (Port_accepts p key) =
     (case (port_at b p, dict_get ps key) of
        (Some (_, r), Some v) \<Rightarrow> accepts env v (pr_compiled_jsonpath r) | _ \<Rightarrow> False)"
| "holds env w ps b (Port_exists k p cs) =
     list_ex (\<lambda>x. list_all (holds env w ps ((p, B_port (fst x) (snd x)) # b)) cs) (rows (port_table_of k w))"
| "holds env w ps b (Action_is a c key) =
     (case (action_at b a, dict_get ps key) of (Some (_, r), Some v) \<Rightarrow> action_value c r = v | _ \<Rightarrow> False)"
| "holds env w ps b (Action_app a key) =
     (case (action_at b a, dict_get ps key) of
        (Some (_, r), Some v) \<Rightarrow> V_str (app_identifier_of env (ac_app r)) = v | _ \<Rightarrow> False)"
| "holds env w ps b (Action_protocol a key) =
     (case (action_at b a, dict_get ps key) of
        (Some (_, r), Some v) \<Rightarrow>
          list_ex (\<lambda>k. case t_get (w_protocols w) k of Some p \<Rightarrow> V_str (pt_name p) = v | None \<Rightarrow> False) (ac_protocols r)
      | _ \<Rightarrow> False)"
| "holds env w ps b (Root_count k a f key) =
     (case (action_at b a, dict_get ps key) of
        (Some (i, _), Some v) \<Rightarrow>
          V_int (int (length (t_filter (\<lambda>r. pr_action r = i \<and> pr_parent r = None \<and> root_filter_holds f r)
                               (port_table_of k w)))) = v
      | _ \<Rightarrow> False)"

section \<open>Building the clause of a match\<close>

text \<open>A loop with an index over a list that threads a state and may raise.\<close>

fun thread :: "(nat \<Rightarrow> 'a \<Rightarrow> 's \<Rightarrow> ('b \<times> 's) outcome) \<Rightarrow> nat \<Rightarrow> 'a list \<Rightarrow> 's \<Rightarrow> ('b list \<times> 's) outcome" where
  "thread f i [] s = Inr ([], s)"
| "thread f i (x # xs) s =
     (case f i x s of
        Inl e \<Rightarrow> Inl e
      | Inr (y, s1) \<Rightarrow>
          (case thread f (Suc i) xs s1 of Inl e \<Rightarrow> Inl e | Inr (ys, s2) \<Rightarrow> Inr (y # ys, s2)))"

lemma thread_cong [fundef_cong]:
  "i = j \<Longrightarrow> xs = ys \<Longrightarrow> s = t \<Longrightarrow> (\<And>i x s. x \<in> set ys \<Longrightarrow> f i x s = g i x s) \<Longrightarrow> thread f i xs s = thread g j ys t"
  by (induction ys arbitrary: i j xs s t) (auto split: sum.split)

definition param_key :: "string \<Rightarrow> string \<Rightarrow> string" where
  "param_key field path = field @ ''_'' @ path"

definition match_fields :: "port_match \<Rightarrow> (string \<times> port_column \<times> sql_value option) list" where
  "match_fields m =
     [(''at'', C_index, map_option V_int (pm_at m)),
      (''key'', C_key, map_option V_str (pm_key m)),
      (''kind'', C_kind, map_option (\<lambda>k. V_str (port_kind_value k)) (pm_kind m)),
      (''ident'', C_identifier, map_option V_str (pm_identifier m)),
      (''dim'', C_dimension, map_option V_str (pm_dimension m)),
      (''null'', C_nullable, map_option V_bool (pm_nullable m))]"

text \<open>A condition on a parameter is added when there is a value for it.\<close>

definition add_value ::
    "(string \<Rightarrow> condition) \<Rightarrow> string \<Rightarrow> sql_value option \<Rightarrow> condition list \<times> params \<Rightarrow> condition list \<times> params" where
  "add_value mk key value s =
     (case value of None \<Rightarrow> s | Some v \<Rightarrow> (fst s @ [mk key], dict_set key v (snd s)))"

definition add_field ::
    "string \<Rightarrow> string \<Rightarrow> string \<times> port_column \<times> sql_value option \<Rightarrow> condition list \<times> params \<Rightarrow> condition list \<times> params" where
  "add_field alias path fd = add_value (Port_is alias (fst (snd fd))) (param_key (fst fd) path) (snd (snd fd))"

definition match_descriptors :: "port_match \<Rightarrow> match_descriptor list" where
  "match_descriptors m = (case pm_descriptors m of None \<Rightarrow> [] | Some ds \<Rightarrow> ds)"

definition candidate_object :: "match_descriptor list \<Rightarrow> json dict" where
  "candidate_object ds = fold (\<lambda>d o'. dict_set (md_key d) (md_value d) o') ds []"

definition has_structural_narrowing :: "port_match \<Rightarrow> bool" where
  "has_structural_narrowing m \<longleftrightarrow>
     pm_at m \<noteq> None \<or> pm_key m \<noteq> None \<or> pm_kind m \<noteq> None \<or> pm_identifier m \<noteq> None \<or> pm_dimension m \<noteq> None"

definition match_alias :: "string \<Rightarrow> string" where
  "match_alias id_path = ''p_'' @ id_path"

definition correlate :: "string \<Rightarrow> string \<Rightarrow> string option \<Rightarrow> condition list" where
  "correlate alias action_alias parent_alias =
     (case parent_alias of
        None \<Rightarrow> [Port_action alias action_alias, Port_root alias]
      | Some q \<Rightarrow> [Port_parent alias q])"

definition add_object :: "string \<Rightarrow> string \<Rightarrow> match_descriptor list \<Rightarrow> condition list \<times> params \<Rightarrow> condition list \<times> params" where
  "add_object alias path ds =
     add_value (Port_accepts alias) (param_key ''obj'' path)
       (if ds = [] then None else Some (V_str (py_dumps False (JDict (candidate_object ds)))))"

fun build_match_exists ::
    "port_match \<Rightarrow> demand_kind \<Rightarrow> string \<Rightarrow> string option \<Rightarrow> string \<Rightarrow> params \<Rightarrow> (condition \<times> params) outcome" where
  "build_match_exists m table action_alias parent_alias id_path ps =
     (let alias = match_alias id_path;
          s1 = fold (add_field alias id_path) (match_fields m) (correlate alias action_alias parent_alias, ps) in
      if match_descriptors m \<noteq> [] \<and> parent_alias = None \<and> \<not> has_structural_narrowing m
      then Inl (ValueError ''A root port match with descriptors must also narrow structurally'')
      else
        (case add_object alias id_path (match_descriptors m) s1 of
           (conditions, ps2) \<Rightarrow>
             (case thread (\<lambda>i child. build_match_exists child table action_alias (Some alias) (id_path @ ''_'' @ str_of_nat i))
                     0 (match_children m) ps2 of
                Inl e \<Rightarrow> Inl e
              | Inr (nested, ps3) \<Rightarrow> Inr (Port_exists table alias (conditions @ nested), ps3))))"

declare build_match_exists.simps [simp del]

section \<open>Demands\<close>

text \<open>A loop whose body raises or changes the statement under construction.\<close>

type_synonym statement = "condition list \<times> params"

fun each :: "(nat \<Rightarrow> 'a \<Rightarrow> 's \<Rightarrow> 's outcome) \<Rightarrow> nat \<Rightarrow> 'a list \<Rightarrow> 's \<Rightarrow> 's outcome" where
  "each f i [] s = Inr s"
| "each f i (x # xs) s = (case f i x s of Inl e \<Rightarrow> Inl e | Inr s' \<Rightarrow> each f (Suc i) xs s')"

definition listed :: "'a list option \<Rightarrow> 'a list" where
  "listed xs = (case xs of None \<Rightarrow> [] | Some ys \<Rightarrow> ys)"

definition add_matches ::
    "demand_kind \<Rightarrow> string \<Rightarrow> string \<Rightarrow> port_match list option \<Rightarrow> statement \<Rightarrow> statement outcome" where
  "add_matches table action_alias path matches s =
     (case thread (\<lambda>i m. build_match_exists m table action_alias None (path @ ''_'' @ str_of_nat i)) 0 (listed matches) (snd s) of
        Inl e \<Rightarrow> Inl e
      | Inr (clauses, ps) \<Rightarrow> Inr (fst s @ clauses, ps))"

record port_demand =
  pd_kind :: demand_kind
  pd_matches :: "port_match list option"
  pd_force_length :: "int option"
  pd_force_non_nullable_length :: "int option"
  pd_force_structure_length :: "int option"

fun count_column :: "demand_kind \<Rightarrow> action_column" where
  "count_column D_ARGS = A_arg_count"
| "count_column D_RETURNS = A_return_count"

definition port_demand_clauses :: "nat \<Rightarrow> port_demand \<Rightarrow> statement \<Rightarrow> statement outcome" where
  "port_demand_clauses i d s =
     (case add_matches (pd_kind d) ''a'' (str_of_nat i) (pd_matches d) s of
        Inl e \<Rightarrow> Inl e
      | Inr s1 \<Rightarrow>
          (let s2 = add_value (Action_is ''a'' (count_column (pd_kind d))) (''force_length_'' @ str_of_nat i)
                      (map_option V_int (pd_force_length d)) s1;
               s3 = add_value (Root_count (pd_kind d) ''a'' ROOT_NOT_NULLABLE) (''force_non_nullable_'' @ str_of_nat i)
                      (map_option V_int (pd_force_non_nullable_length d)) s2 in
           Inr (add_value (Root_count (pd_kind d) ''a'' ROOT_STRUCTURE) (''force_structure_'' @ str_of_nat i)
                  (map_option V_int (pd_force_structure_length d)) s3)))"

definition port_demand_sql :: "port_demand list \<Rightarrow> nat option \<Rightarrow> statement outcome" where
  "port_demand_sql demands organization_id =
     (case each port_demand_clauses 0 demands
             (add_value (Action_is ''a'' A_organization_id) ''org'' (map_option (\<lambda>n. V_int (int n)) organization_id) ([], [])) of
        Inl e \<Rightarrow> Inl e
      | Inr s \<Rightarrow> if fst s = [] then Inl (ValueError ''No search params provided'') else Inr s)"

text \<open>The text of a statement, and the ids it selects.\<close>

definition statement_text :: "condition list \<Rightarrow> string" where
  "statement_text clauses = ''SELECT a.id FROM facade_action a WHERE '' @ join_with '' AND '' (map render clauses)"

definition execute_ids :: "'c env \<Rightarrow> world \<Rightarrow> statement \<Rightarrow> nat list" where
  "execute_ids env w s =
     map fst (filter (\<lambda>x. list_all (holds env w (snd s) [(''a'', B_action (fst x) (snd x))]) (fst s)) (rows (w_actions w)))"

definition get_action_ids_by_port_demands :: "'c env \<Rightarrow> world \<Rightarrow> port_demand list \<Rightarrow> nat option \<Rightarrow> nat list outcome" where
  "get_action_ids_by_port_demands env w demands organization_id =
     (case port_demand_sql demands organization_id of Inl e \<Rightarrow> Inl e | Inr s \<Rightarrow> Inr (execute_ids env w s))"

section \<open>Action demands\<close>

text \<open>\<open>given\<close> is Python's truth of an optional string.\<close>

definition given :: "string option \<Rightarrow> sql_value option" where
  "given s = (case s of Some (c # cs) \<Rightarrow> Some (V_str (c # cs)) | _ \<Rightarrow> None)"

definition action_demand_clauses :: "action_demand \<Rightarrow> string \<Rightarrow> string \<Rightarrow> params \<Rightarrow> statement outcome" where
  "action_demand_clauses d a prefix ps =
     (case (if given (ad_hash d) \<noteq> None then
              Inr (add_value (Action_is a A_hash) (prefix @ ''_hash'') (given (ad_hash d)) ([], ps))
            else
              (let s1 = add_value (Action_is a A_key) (prefix @ ''_key'') (given (ad_key d)) ([], ps);
                   s2 = add_value (Action_app a) (prefix @ ''_app'') (given (ad_app d)) s1;
                   s3 = add_value (Action_is a A_version) (prefix @ ''_version'') (given (ad_version d)) s2;
                   s4 = add_value (Action_is a A_name) (prefix @ ''_name'') (given (ad_name d)) s3 in
               case add_matches D_ARGS a (prefix @ ''_arg'') (ad_arg_matches d) s4 of
                 Inl e \<Rightarrow> Inl e
               | Inr s5 \<Rightarrow>
                   (case add_matches D_RETURNS a (prefix @ ''_ret'') (ad_return_matches d) s5 of
                      Inl e \<Rightarrow> Inl e
                    | Inr s6 \<Rightarrow>
                        (let s7 = add_value (Action_is a A_arg_count) (prefix @ ''_force_arg_length'')
                                    (map_option V_int (ad_force_arg_length d)) s6;
                             s8 = add_value (Action_is a A_return_count) (prefix @ ''_force_return_length'')
                                    (map_option V_int (ad_force_return_length d)) s7;
                             s9 = fold (\<lambda>(i, name). add_value (Action_protocol a) (prefix @ ''_protocol_'' @ str_of_nat i)
                                          (Some (V_str name)))
                                    (enumerate 0 (listed (ad_protocols d))) s8 in
                         Inr (add_value (Action_is a A_stateful) (prefix @ ''_stateful'') (map_option V_bool (ad_stateful d))
                               (add_value (Action_is a A_idempotent) (prefix @ ''_idempotent'') (map_option V_bool (ad_idempotent d))
                                 (add_value (Action_is a A_pure) (prefix @ ''_pure'') (map_option V_bool (ad_pure d)) s9))))))) of
        Inl e \<Rightarrow> Inl e
      | Inr s \<Rightarrow> if fst s = [] then Inl (ValueError ''No search params provided'') else Inr s)"

text \<open>
  One \<^verbatim>\<open>SELECT\<close> per demand, joined by \<^verbatim>\<open>UNION ALL\<close> over one dictionary of parameters; a row carries the
  position of its demand, by which the ids are handed out.
\<close>

definition demand_select :: "nat option \<Rightarrow> nat \<Rightarrow> action_demand \<Rightarrow> params \<Rightarrow> (condition list \<times> params) outcome" where
  "demand_select organization_id i d ps =
     (case action_demand_clauses d ''a'' (''d'' @ str_of_nat i) ps of
        Inl e \<Rightarrow> Inl e
      | Inr (clauses, ps') \<Rightarrow>
          Inr (if organization_id \<noteq> None then Action_is ''a'' A_organization_id ''org'' # clauses else clauses, ps'))"

definition hand_out :: "(nat \<times> nat) list \<Rightarrow> nat list list \<Rightarrow> nat list list" where
  "hand_out found results = fold (\<lambda>(i, k) rs. rs[i := rs ! i @ [k]]) found results"

definition get_action_ids_by_action_demands ::
    "'c env \<Rightarrow> world \<Rightarrow> action_demand list \<Rightarrow> nat option \<Rightarrow> nat list list outcome" where
  "get_action_ids_by_action_demands env w demands organization_id =
     (case thread (demand_select organization_id) 0 demands
             (case organization_id of None \<Rightarrow> [] | Some n \<Rightarrow> dict_set ''org'' (V_int (int n)) []) of
        Inl e \<Rightarrow> Inl e
      | Inr (selects, ps) \<Rightarrow>
          if selects = [] then Inr []
          else Inr (hand_out (concat (map (\<lambda>(i, clauses). map (Pair i) (execute_ids env w (clauses, ps))) (enumerate 0 selects)))
                     (map (\<lambda>_. []) demands)))"

section \<open>Positional parameters\<close>

text \<open>The word characters of the pattern, and the pieces of a text it divides into.\<close>

definition re_word :: "char \<Rightarrow> bool" where
  "re_word c \<longleftrightarrow> is_word c \<or>
     (let n = (of_char c :: nat) in
      n \<in> {170, 178, 179, 181, 185, 186, 188, 189, 190} \<or> (192 \<le> n \<and> n \<noteq> 215 \<and> n \<noteq> 247))"

datatype piece = Text char | Named string

definition named_at :: "string \<Rightarrow> (string \<times> string) option" where
  "named_at s =
     (if take 2 s = ''%('' then
        (let key = takeWhile re_word (drop 2 s); rest = dropWhile re_word (drop 2 s) in
         if key \<noteq> [] \<and> take 2 rest = '')s'' then Some (key, drop 2 rest) else None)
      else None)"

lemma named_at_shorter: "named_at s = Some (key, rest) \<Longrightarrow> length rest < length s"
  by (auto simp: named_at_def Let_def split: if_splits)
     (metis (no_types, opaque_lifting) diff_le_self diff_less length_drop length_dropWhile_le le_less_trans
       length_greater_0_conv list.distinct(1) order_less_le_trans take_Nil zero_less_numeral)

function pieces :: "string \<Rightarrow> piece list" where
  "pieces [] = []"
| "pieces (c # cs) =
     (case named_at (c # cs) of
        Some (key, rest) \<Rightarrow> Named key # pieces rest
      | None \<Rightarrow> Text c # pieces cs)"
  by pat_completeness auto

termination pieces
  by (relation "measure length") (auto dest: named_at_shorter)

fun named_keys :: "piece list \<Rightarrow> string list" where
  "named_keys [] = []"
| "named_keys (Text c # xs) = named_keys xs"
| "named_keys (Named k # xs) = k # named_keys xs"

fun to_positional_text :: "piece list \<Rightarrow> string" where
  "to_positional_text [] = []"
| "to_positional_text (Text c # xs) = c # to_positional_text xs"
| "to_positional_text (Named k # xs) = ''%s'' @ to_positional_text xs"

definition to_positional :: "string \<Rightarrow> params \<Rightarrow> (string \<times> sql_value list) outcome" where
  "to_positional sql ps =
     (case map_outcome (\<lambda>k. case dict_get ps k of None \<Rightarrow> Inl (KeyError k) | Some v \<Rightarrow> Inr v) (named_keys (pieces sql)) of
        Inl e \<Rightarrow> Inl e
      | Inr vs \<Rightarrow> Inr (to_positional_text (pieces sql), vs))"

definition get_action_port_demand_subquery :: "port_demand list \<Rightarrow> nat option \<Rightarrow> (string \<times> sql_value list) outcome" where
  "get_action_port_demand_subquery demands organization_id =
     (case port_demand_sql demands organization_id of
        Inl e \<Rightarrow> Inl e
      | Inr (clauses, ps) \<Rightarrow> to_positional (statement_text clauses) ps)"

end
