(* ===== verification/Port_Storage.thy ===== *)
theory Port_Storage
  imports Port_Rows
begin

text \<open>
  What the flattened tables hold: read back along the parent keys, the rows of an action are its port
  tree, in order, and a rebuild of one action leaves the trees of the others alone.
\<close>

section \<open>Reading a tree back\<close>

definition row_shape :: "nat \<Rightarrow> nat option \<Rightarrow> nat \<Rightarrow> 'w port \<Rightarrow> port_row \<Rightarrow> bool" where
  "row_shape a parent i p r \<longleftrightarrow>
     pr_action r = a \<and> pr_parent r = parent \<and> pr_index r = int i \<and> pr_key r = po_key p \<and>
     pr_kind r = po_kind p \<and> pr_identifier r = po_identifier p \<and> pr_dimension r = po_dimension p \<and>
     pr_nullable r = po_nullable p \<and>
     compile_descriptors_to_jsonpath (descriptors_of p) = Inr (pr_compiled_jsonpath r)"

definition kids :: "port_row table \<Rightarrow> nat \<Rightarrow> (nat \<times> port_row) list" where
  "kids t k = t_filter (\<lambda>r. pr_parent r = Some k) t"

definition roots :: "port_row table \<Rightarrow> nat \<Rightarrow> (nat \<times> port_row) list" where
  "roots t a = t_filter (\<lambda>r. pr_action r = a \<and> pr_parent r = None) t"

lemma enumerate_child [termination_simp]: "x \<in> set (enumerate n (children p)) \<Longrightarrow> size (snd x) < size p"
  by (rule child_smaller) (cases x, auto simp: in_set_enumerate_eq)

fun stored :: "port_row table \<Rightarrow> nat \<Rightarrow> nat \<Rightarrow> 'w port \<Rightarrow> bool" where
  "stored t a k p =
     list_all2 (\<lambda>x y. row_shape a (Some k) (fst y) (snd y) (snd x) \<and> stored t a (fst x) (snd y))
       (kids t k) (enumerate 0 (children p))"

declare stored.simps [simp del]

definition forest_stored :: "port_row table \<Rightarrow> nat \<Rightarrow> 'w port list \<Rightarrow> bool" where
  "forest_stored t a ps =
     list_all2 (\<lambda>x y. row_shape a None (fst y) (snd y) (snd x) \<and> stored t a (fst x) (snd y)) (roots t a) (enumerate 0 ps)"

text \<open>Keys are sound, and a row's parent is a row of the same action.\<close>

definition ports_wf :: "port_row table \<Rightarrow> bool" where
  "ports_wf t \<longleftrightarrow> t_wf t \<and>
     (\<forall>k r q. t_get t k = Some r \<longrightarrow> pr_parent r = Some q \<longrightarrow>
        (\<exists>r'. t_get t q = Some r' \<and> pr_action r' = pr_action r))"

section \<open>Filters of a level\<close>

abbreviation row_of :: "'w built \<Rightarrow> port_row" where
  "row_of x \<equiv> snd (snd x)"

lemma map_snd_filter_zip:
  "length ks = length xs \<Longrightarrow> map snd (filter (\<lambda>z. P (snd z)) (zip ks xs)) = filter P xs"
  by (induction ks xs rule: list_induct2) auto

lemma build_row_shape: "build_row a parent path i p = Inr (q, path', r) \<Longrightarrow> q = p \<and> row_shape a parent i p r"
  by (auto simp: build_row_def row_shape_def Let_def split: sum.splits)

lemma build_siblings_shape:
  "build_siblings a parent path ps = Inr xs \<Longrightarrow>
   list_all2 (\<lambda>y x. fst x = snd y \<and> row_shape a parent (fst y) (snd y) (row_of x)) (enumerate 0 ps) xs"
  unfolding build_siblings_def map_outcome_Inr
  by (erule list_all2_mono) (auto dest: build_row_shape)

lemma sibling_parents: "build_siblings a parent path ps = Inr xs \<Longrightarrow> (q, path', r) \<in> set xs \<Longrightarrow> pr_parent r = parent \<and> pr_action r = a"
  by (drule build_siblings_shape) (fastforce simp: list_all2_conv_all_nth in_set_conv_nth row_shape_def)

lemma next_level_block:
  assumes "next_level a level = Inr nxt" and "distinct (map fst level)" and "(k, p, path, r) \<in> set level"
  shows "build_siblings a (Some k) path (children p) = Inr (filter (\<lambda>(q, path', r). pr_parent r = Some k) nxt)"
proof -
  let ?build = "\<lambda>(k, p, path, r). build_siblings a (Some k) path (children p)"
  let ?P = "\<lambda>k (q, path', r :: port_row). pr_parent r = Some k"
  from assms(1) obtain blocks where b: "list_all2 (\<lambda>x y. ?build x = Inr y) level blocks" "nxt = concat blocks"
    by (auto simp: next_level_def map_outcome_Inr split: sum.splits)
  have own: "filter (?P (fst x)) y = y" if "?build x = Inr y" for x y
    by (rule filter_True) (use that in \<open>auto simp: case_prod_beta dest: sibling_parents\<close>)
  have other: "filter (?P k) y = []" if "?build x = Inr y" "k \<noteq> fst x" for k x y
    by (rule filter_False) (use that in \<open>auto simp: case_prod_beta dest: sibling_parents\<close>)
  have none: "filter (?P k) (concat ys) = []"
    if "list_all2 (\<lambda>x y. ?build x = Inr y) xs ys" "k \<notin> fst ` set xs" for k xs ys
    using that by (induction rule: list_all2_induct) (use other in \<open>auto simp: filter_concat\<close>)
  from b(1) assms(2,3) have "?build (k, p, path, r) = Inr (filter (?P k) (concat blocks))"
  proof (induction rule: list_all2_induct)
    case (Cons x xs y ys)
    show ?case
    proof (cases "x = (k, p, path, r)")
      case True
      then have "k \<notin> fst ` set xs" using Cons.prems(1) by auto
      with none [OF Cons.hyps(2)] own [OF Cons.hyps(1)] True Cons.hyps(1) show ?thesis by simp
    next
      case False
      with Cons.prems have m: "(k, p, path, r) \<in> set xs" by auto
      then have "k \<in> fst ` set xs" by (metis fst_conv image_eqI)
      moreover have "fst x \<notin> fst ` set xs" using Cons.prems(1) by simp
      ultimately have "k \<noteq> fst x" by blast
      with other [OF Cons.hyps(1)] Cons.IH [OF _ m] Cons.prems(1) show ?thesis by simp
    qed
  qed simp
  with b(2) show ?thesis by simp
qed

lemma next_level_parents:
  assumes "next_level a level = Inr nxt" and "(q, path', r) \<in> set nxt"
  shows "pr_action r = a \<and> (\<exists>k \<in> fst ` set level. pr_parent r = Some k)"
proof -
  let ?build = "\<lambda>(k, p, path, r). build_siblings a (Some k) path (children p)"
  from assms(1) obtain blocks where b: "list_all2 (\<lambda>x y. ?build x = Inr y) level blocks" "nxt = concat blocks"
    by (auto simp: next_level_def map_outcome_Inr split: sum.splits)
  from b(2) assms(2) obtain y where y: "y \<in> set blocks" "(q, path', r) \<in> set y" by auto
  from b(1) y(1) obtain x where x: "x \<in> set level" "?build x = Inr y"
    by (auto dest: list_all2_right)
  obtain k p path r' where "x = (k, p, path, r')" by (cases x) auto
  with x y(2) have "pr_parent r = Some k \<and> pr_action r = a" by (simp add: sibling_parents)
  moreover have "k \<in> fst ` set level" using x(1) \<open>x = (k, p, path, r')\<close> by (metis fst_conv image_eqI)
  ultimately show ?thesis by blast
qed

section \<open>Flattening stores the tree\<close>

text \<open>The parents a table or a level names are keys the sequence has already given out.\<close>

definition below :: "nat \<Rightarrow> port_row list \<Rightarrow> bool" where
  "below n rs \<longleftrightarrow> (\<forall>r \<in> set rs. \<forall>q. pr_parent r = Some q \<longrightarrow> q \<le> n)"

definition above :: "nat \<Rightarrow> port_row list \<Rightarrow> bool" where
  "above n rs \<longleftrightarrow> (\<forall>r \<in> set rs. \<exists>q. pr_parent r = Some q \<and> n < q)"

lemma row_of_eq: "(\<lambda>(p, path, r). r) = (\<lambda>x. row_of x)"
  by auto

lemma filter_none: "(\<And>k r. (k, r) \<in> set xs \<Longrightarrow> \<not> P r) \<Longrightarrow> filter (\<lambda>(k, r). P r) xs = []"
  by (auto simp: filter_empty_conv)

lemma set_zip_row: "(k, r) \<in> set (zip ks rs) \<Longrightarrow> r \<in> set rs"
  by (erule set_zip_rightD)

lemma stored_level:
  assumes "create_levels a level t = Inr T" and "below (seq t) (map snd (rows t))"
    and "below (seq t) (map row_of level)"
  shows "\<exists>new. rows T = rows t @ zip [Suc (seq t)..<Suc (seq t + length level)] (map row_of level) @ new \<and>
      above (seq t) (map snd new) \<and> below (seq T) (map snd new) \<and> (\<forall>r \<in> set (map snd new). pr_action r = a) \<and> seq t + length level \<le> seq T \<and>
      map fst (rows T) = map fst (rows t) @ [Suc (seq t)..<Suc (seq T)] \<and>
      (\<forall>(k, x) \<in> set (zip [Suc (seq t)..<Suc (seq t + length level)] level). stored T a k (fst x))"
  using assms
proof (induction a level t arbitrary: T rule: create_levels.induct)
  case (1 a level t)
  show ?case
  proof (cases "level = []")
    case True
    with "1.prems"(1) show ?thesis by (auto simp: create_levels.simps above_def below_def)
  next
    case False
    let ?ks = "[Suc (seq t)..<Suc (seq t + length level)]"
    let ?n = "seq t + length level"
    let ?t' = "t\<lparr>rows := rows t @ zip ?ks (map row_of level), seq := ?n\<rparr>"
    have bulk: "bulk_create (map (\<lambda>(p, path, r). r) level) t = (?ks, ?t')"
      by (simp add: bulk_create_eq row_of_eq del: upt_Suc)
    from "1.prems"(1) False bulk obtain nxt where nxt: "next_level a (zip ?ks level) = Inr nxt"
      and rest: "create_levels a nxt ?t' = Inr T"
      by (subst (asm) create_levels.simps) (simp del: upt_Suc split: sum.splits)
    have len: "length ?ks = length level" by (simp del: upt_Suc)
    have parents: "\<exists>k \<in> set ?ks. pr_parent (row_of x) = Some k \<and> pr_action (row_of x) = a" if "x \<in> set nxt" for x
    proof -
      obtain q path r where x: "x = (q, path, r)" by (cases x) auto
      from next_level_parents [OF nxt, of q path r] that x
      obtain k where "k \<in> fst ` set (zip ?ks level)" "pr_parent r = Some k" "pr_action r = a" by blast
      then show ?thesis by (auto simp: x dest: set_zip_leftD simp del: upt_Suc)
    qed
    have below': "below (seq ?t') (map snd (rows ?t'))" "below (seq ?t') (map row_of nxt)"
      using "1.prems"(2,3) parents
      by (fastforce simp: below_def dest: set_zip_row simp del: upt_Suc)+
    from "1.IH" [OF False bulk [symmetric] nxt rest below'] obtain new where
      rows: "rows T = rows ?t' @ zip [Suc ?n..<Suc (?n + length nxt)] (map row_of nxt) @ new"
      and above: "above ?n (map snd new)" and upto: "below (seq T) (map snd new)" and act: "\<forall>r \<in> set (map snd new). pr_action r = a"
      and seq: "?n + length nxt \<le> seq T"
      and keys: "map fst (rows T) = map fst (rows ?t') @ [Suc ?n..<Suc (seq T)]"
      and kept: "\<forall>(k, x) \<in> set (zip [Suc ?n..<Suc (?n + length nxt)] nxt). stored T a k (fst x)"
      by auto
    let ?ks2 = "[Suc ?n..<Suc (?n + length nxt)]"
    let ?new = "zip ?ks2 (map row_of nxt) @ new"
    have len2: "length ?ks2 = length nxt" by (simp del: upt_Suc)
    have tree: "stored T a k p" if "(k, p, path, r) \<in> set (zip ?ks level)" for k p path r
    proof -
      from that have k: "k \<in> set ?ks" by (rule set_zip_leftD)
      let ?P = "\<lambda>r. pr_parent r = Some k"
      define Z where "Z = filter (\<lambda>z. ?P (row_of (snd z))) (zip ?ks2 nxt)"
      have "filter (\<lambda>(k, r). ?P r) (rows t) = []"
        by (rule filter_none) (use "1.prems"(2) k in \<open>fastforce simp: below_def\<close>)
      moreover have "filter (\<lambda>(k, r). ?P r) (zip ?ks (map row_of level)) = []"
        by (rule filter_none) (use "1.prems"(3) k in \<open>fastforce simp: below_def dest!: set_zip_row simp del: upt_Suc\<close>)
      moreover have "filter (\<lambda>(k, r). ?P r) new = []"
        by (rule filter_none) (use above k in \<open>fastforce simp: above_def\<close>)
      moreover have "filter (\<lambda>(k, r). ?P r) (zip ?ks2 (map row_of nxt)) = map (apsnd row_of) Z"
        by (simp only: Z_def zip_map2 filter_map) (simp add: o_def case_prod_beta apsnd_def map_prod_def del: upt_Suc)
      ultimately have kids: "kids T k = map (apsnd row_of) Z"
        by (simp only: kids_def t_filter_def rows) (simp del: upt_Suc)
      have "map snd Z = filter (\<lambda>x. ?P (row_of x)) nxt"
        unfolding Z_def using map_snd_filter_zip [OF len2, of "\<lambda>x. ?P (row_of x)"] by simp
      moreover have "build_siblings a (Some k) path (children p) = Inr (filter (\<lambda>x. ?P (row_of x)) nxt)"
        using next_level_block [OF nxt _ that] by (simp add: split_def map_fst_zip del: upt_Suc)
      ultimately have "list_all2 (\<lambda>y x. fst x = snd y \<and> row_shape a (Some k) (fst y) (snd y) (row_of x))
          (enumerate 0 (children p)) (map snd Z)"
        by (simp add: build_siblings_shape)
      then have "list_all2 (\<lambda>z y. row_shape a (Some k) (fst y) (snd y) (row_of (snd z)) \<and> fst (snd z) = snd y)
          Z (enumerate 0 (children p))"
        by (auto simp: list_all2_conv_all_nth)
      moreover have "stored T a (fst z) (fst (snd z))" if "z \<in> set Z" for z
        using that kept by (auto simp: Z_def simp del: upt_Suc)
      ultimately have "list_all2 (\<lambda>z y. row_shape a (Some k) (fst y) (snd y) (row_of (snd z)) \<and> stored T a (fst z) (snd y))
          Z (enumerate 0 (children p))"
        unfolding list_all2_conv_all_nth by (metis nth_mem)
      then show ?thesis
        by (subst stored.simps) (simp add: kids list_all2_map1)
    qed
    have new_rows: "(\<exists>x \<in> set nxt. r = row_of x) \<or> r \<in> set (map snd new)" if "r \<in> set (map snd ?new)" for r
      using that by (auto dest!: set_zip_row simp del: upt_Suc)
    have "rows T = rows t @ zip ?ks (map row_of level) @ ?new" using rows by simp
    moreover have "above (seq t) (map snd ?new)"
      unfolding above_def
    proof
      fix r
      assume "r \<in> set (map snd ?new)"
      from new_rows [OF this] show "\<exists>q. pr_parent r = Some q \<and> seq t < q"
      proof
        assume "\<exists>x \<in> set nxt. r = row_of x"
        with parents obtain k where "k \<in> set ?ks" "pr_parent r = Some k" by blast
        then show ?thesis by (intro exI [of _ k]) (simp del: upt_Suc)
      next
        assume "r \<in> set (map snd new)"
        with above obtain q where "pr_parent r = Some q" "?n < q" unfolding above_def by blast
        then show ?thesis by (intro exI [of _ q]) simp
      qed
    qed
    moreover have "below (seq T) (map snd ?new)"
      unfolding below_def
    proof (intro ballI allI impI)
      fix r q
      assume "r \<in> set (map snd ?new)" and q: "pr_parent r = Some q"
      from new_rows [OF this(1)] show "q \<le> seq T"
      proof
        assume "\<exists>x \<in> set nxt. r = row_of x"
        with parents q obtain k where "k \<in> set ?ks" "q = k" by force
        with seq show ?thesis by (simp del: upt_Suc)
      next
        assume "r \<in> set (map snd new)"
        with upto q show ?thesis unfolding below_def by blast
      qed
    qed
    moreover have "\<forall>r \<in> set (map snd ?new). pr_action r = a"
      using new_rows parents act by blast
    moreover have "map fst (rows T) = map fst (rows t) @ [Suc (seq t)..<Suc (seq T)]"
    proof -
      from seq have "Suc (seq T) = Suc ?n + (seq T - ?n)" by simp
      then have "[Suc (seq t)..<Suc (seq T)] = ?ks @ [Suc ?n..<Suc (seq T)]"
        using upt_add_eq_append [of "Suc (seq t)" "Suc ?n" "seq T - ?n"] by (simp del: upt_Suc)
      with keys show ?thesis by (simp del: upt_Suc)
    qed
    moreover have "seq t + length level \<le> seq T" using seq by simp
    moreover have "\<forall>(k, x) \<in> set (zip ?ks level). stored T a k (fst x)"
    proof clarify
      fix k p path r
      assume "(k, p, path, r) \<in> set (zip ?ks level)"
      from tree [OF this] show "stored T a k (fst (p, path, r))" by simp
    qed
    ultimately show ?thesis by blast
  qed
qed

section \<open>The tables after a rebuild\<close>

lemma ports_wf_parent: "ports_wf t \<Longrightarrow> t_get t k = Some r \<Longrightarrow> pr_parent r = Some q \<Longrightarrow> \<exists>r'. t_get t q = Some r' \<and> pr_action r' = pr_action r"
  by (auto simp: ports_wf_def)

lemma ports_wf_below: "ports_wf t \<Longrightarrow> below (seq t) (map snd (rows t))"
  unfolding below_def ports_wf_def by (auto simp: t_get_rows [symmetric]) (metis t_get_le_seq t_get_rows)

lemma kids_get: "ports_wf t \<Longrightarrow> (j, r) \<in> set (kids t k) \<longleftrightarrow> t_get t j = Some r \<and> pr_parent r = Some k"
  by (simp add: kids_def t_filter_get ports_wf_def)

lemma roots_get:
  "ports_wf t \<Longrightarrow> (j, r) \<in> set (roots t a) \<longleftrightarrow> t_get t j = Some r \<and> pr_action r = a \<and> pr_parent r = None"
  by (simp add: roots_def t_filter_get ports_wf_def)

text \<open>A subtree is read from the rows below its root only.\<close>

lemma stored_cong:
  assumes "stored t a k p" and "K k" and "\<And>k. K k \<Longrightarrow> kids t' k = kids t k"
    and "\<And>k j r. K k \<Longrightarrow> (j, r) \<in> set (kids t k) \<Longrightarrow> K j"
  shows "stored t' a k p"
  using assms
proof (induction t a k p rule: stored.induct)
  case (1 t a k p)
  have "stored t' a (fst x) (snd y)"
    if x: "x \<in> set (kids t k)" and y: "y \<in> set (enumerate 0 (children p))" and s: "stored t a (fst x) (snd y)" for x y
  proof -
    have "(fst x, snd x) \<in> set (kids t k)" using x by simp
    with "1.prems"(2,4) have "K (fst x)" by blast
    then show ?thesis by (rule "1.IH" [OF x y s]) (fact "1.prems")+
  qed
  then have "list_all2 (\<lambda>x y. row_shape a (Some k) (fst y) (snd y) (snd x) \<and> stored t' a (fst x) (snd y))
      (kids t k) (enumerate 0 (children p))"
    using "1.prems"(1) by (subst (asm) stored.simps [of t]) (auto elim: list.rel_mono_strong)
  then show ?case
    by (subst stored.simps) (simp only: "1.prems"(3) [OF "1.prems"(2)])
qed

lemma forest_cong:
  assumes "forest_stored t a ps" and "roots t' a = roots t a"
    and "\<And>k r. t_get t k = Some r \<Longrightarrow> pr_action r = a \<Longrightarrow> kids t' k = kids t k"
    and "ports_wf t"
  shows "forest_stored t' a ps"
proof -
  let ?K = "\<lambda>k. \<exists>r. t_get t k = Some r \<and> pr_action r = a"
  have K: "?K j" if "?K k" "(j, r) \<in> set (kids t k)" for k j r
    using that ports_wf_parent [OF assms(4)] by (fastforce simp: kids_get [OF assms(4)])
  have root: "?K (fst x)" if "x \<in> set (roots t a)" for x
  proof -
    obtain j r where "x = (j, r)" by (cases x)
    with that show ?thesis using roots_get [OF assms(4), of j r a] by auto
  qed
  have "stored t' a (fst x) (snd y)" if "x \<in> set (roots t a)" "stored t a (fst x) (snd y)" for x y
    by (rule stored_cong [where K = ?K, OF that(2)]) (use root [OF that(1)] assms(3) K in blast)+
  with assms(1) show ?thesis
    unfolding forest_stored_def assms(2) list_all2_conv_all_nth by (metis nth_mem)
qed

lemma kids_append: "rows T = rows t @ new \<Longrightarrow> kids T k = kids t k @ filter (\<lambda>(j, r). pr_parent r = Some k) new"
  by (simp add: kids_def t_filter_def)

lemma roots_append:
  "rows T = rows t @ new \<Longrightarrow> roots T a = roots t a @ filter (\<lambda>(j, r). pr_action r = a \<and> pr_parent r = None) new"
  by (simp add: roots_def t_filter_def)

lemma t_del_get: "t_wf t \<Longrightarrow> t_get (t_del P t) k = Some r \<longleftrightarrow> t_get t k = Some r \<and> \<not> P k r"
  by (subst t_get_rows [symmetric], simp_all add: t_wf_def t_del_def t_get_rows [symmetric] distinct_map_filter)

lemma t_wf_del: "t_wf t \<Longrightarrow> t_wf (t_del P t)"
  by (auto simp: t_wf_def t_del_def distinct_map_filter)

lemma ports_wf_purge:
  assumes "ports_wf t"
  shows "ports_wf (purge_ports a t)"
  unfolding ports_wf_def
proof (intro conjI allI impI)
  from assms have wf: "t_wf t" by (simp add: ports_wf_def)
  then show "t_wf (purge_ports a t)" by (simp add: purge_ports_def t_wf_del)
  fix k r q
  assume "t_get (purge_ports a t) k = Some r" "pr_parent r = Some q"
  with ports_wf_parent [OF assms] wf show "\<exists>r'. t_get (purge_ports a t) q = Some r' \<and> pr_action r' = pr_action r"
    by (fastforce simp: purge_ports_def t_del_get)
qed

lemma purge_others:
  assumes "ports_wf t" and "forest_stored t b ps" and "b \<noteq> a"
  shows "forest_stored (purge_ports a t) b ps"
proof (rule forest_cong [OF assms(2) _ _ assms(1)])
  show "roots (purge_ports a t) b = roots t b"
    using assms(3) by (auto simp: roots_def t_filter_def purge_ports_def t_del_def intro!: filter_cong)
  fix k r
  assume k: "t_get t k = Some r" "pr_action r = b"
  have "pr_action r' = b" if "(j, r') \<in> set (rows t)" "pr_parent r' = Some k" for j r'
    using that k ports_wf_parent [OF assms(1)] assms(1) by (fastforce simp: ports_wf_def t_get_rows)
  then show "kids (purge_ports a t) k = kids t k"
    using assms(3) by (auto simp: kids_def t_filter_def purge_ports_def t_del_def intro!: filter_cong)
qed

lemma roots_purged: "roots (purge_ports a t) a = []"
  by (auto simp: roots_def t_filter_def purge_ports_def t_del_def filter_empty_conv)

lemma flatten_stores:
  assumes "bulk_create_ports_level_by_level ps a t = Inr T" and "ports_wf t" and "roots t a = []"
  shows "ports_wf T \<and> forest_stored T a ps \<and> (\<forall>b qs. b \<noteq> a \<longrightarrow> forest_stored t b qs \<longrightarrow> forest_stored T b qs)"
proof -
  from assms(1) obtain level where level: "build_siblings a None [] ps = Inr level" "create_levels a level t = Inr T"
    by (auto simp: bulk_create_ports_level_by_level_def split: sum.splits)
  have top: "pr_parent (row_of x) = None \<and> pr_action (row_of x) = a" if "x \<in> set level" for x
    using sibling_parents [OF level(1), of "fst x" "fst (snd x)" "row_of x"] that by simp
  then have "below (seq t) (map row_of level)" by (auto simp: below_def)
  from stored_level [OF level(2) ports_wf_below [OF assms(2)] this] obtain new where
    rows: "rows T = rows t @ zip [Suc (seq t)..<Suc (seq t + length level)] (map row_of level) @ new"
    and above: "above (seq t) (map snd new)" and below: "below (seq T) (map snd new)"
    and act: "\<forall>r \<in> set (map snd new). pr_action r = a"
    and len: "seq t + length level \<le> seq T"
    and keys: "map fst (rows T) = map fst (rows t) @ [Suc (seq t)..<Suc (seq T)]"
    and kept: "\<forall>(k, x) \<in> set (zip [Suc (seq t)..<Suc (seq t + length level)] level). stored T a k (fst x)"
    by blast
  let ?ks = "[Suc (seq t)..<Suc (seq t + length level)]"
  let ?N = "zip ?ks (map row_of level) @ new"
  have N: "pr_action r = a \<and> (pr_parent r = None \<or> (\<exists>q. pr_parent r = Some q \<and> seq t < q \<and> q \<le> seq T))"
    if "(k, r) \<in> set ?N" for k r
  proof -
    from that have "r \<in> set (map row_of level) \<or> (k, r) \<in> set new"
      by (auto dest: set_zip_row simp del: upt_Suc)
    then have "r \<in> set (map row_of level) \<or> r \<in> set (map snd new)"
      by (metis image_eqI list.set_map snd_conv)
    then show ?thesis
    proof
      assume "r \<in> set (map row_of level)"
      with top show ?thesis by auto
    next
      assume "r \<in> set (map snd new)"
      with act above below show ?thesis unfolding above_def below_def by blast
    qed
  qed
  have rows': "rows T = rows t @ ?N" by (simp add: rows)
  have wf: "t_wf t" using assms(2) by (simp add: ports_wf_def)
  have wfT: "t_wf T"
    using wf len by (auto simp: t_wf_def keys simp del: upt_Suc)
  have old: "k \<le> seq t" if "t_get t k = Some r" for k r using t_get_le_seq [OF wf that] .
  have get: "t_get T k = Some r \<longleftrightarrow> t_get t k = Some r \<or> (k, r) \<in> set ?N" for k r
    using t_get_rows [OF wfT, of k r] t_get_rows [OF wf, of k r] by (simp add: rows' del: upt_Suc)
  have "ports_wf T"
    unfolding ports_wf_def
  proof (intro conjI allI impI wfT)
    fix k r q
    assume k: "t_get T k = Some r" and q: "pr_parent r = Some q"
    from k show "\<exists>r'. t_get T q = Some r' \<and> pr_action r' = pr_action r"
      unfolding get
    proof
      assume "t_get t k = Some r"
      from ports_wf_parent [OF assms(2) this q]
      show "\<exists>r'. (t_get t q = Some r' \<or> (q, r') \<in> set ?N) \<and> pr_action r' = pr_action r" by blast
    next
      assume "(k, r) \<in> set ?N"
      from N [OF this] q have r: "pr_action r = a" "seq t < q" "q \<le> seq T" by auto
      then have "q \<in> set (map fst (rows T))" by (simp add: keys del: upt_Suc)
      then obtain r' where "t_get T q = Some r'" using t_get_rows [OF wfT] by fastforce
      moreover have "t_get t q \<noteq> Some r'" using old [of q r'] r(2) by auto
      ultimately have "(q, r') \<in> set ?N" by (simp only: get) blast
      with N [OF this] r(1) show "\<exists>r'. (t_get t q = Some r' \<or> (q, r') \<in> set ?N) \<and> pr_action r' = pr_action r"
        by metis
    qed
  qed
  moreover have "forest_stored T a ps"
  proof -
    have "filter (\<lambda>(j, r). pr_action r = a \<and> pr_parent r = None) (zip ?ks (map row_of level)) = zip ?ks (map row_of level)"
      by (rule filter_True) (use top in \<open>auto dest!: set_zip_row simp del: upt_Suc\<close>)
    moreover have "filter (\<lambda>(j, r). pr_action r = a \<and> pr_parent r = None) new = []"
      by (rule filter_none) (use above in \<open>force simp: above_def\<close>)
    ultimately have roots: "roots T a = map (apsnd row_of) (zip ?ks level)"
      using roots_append [OF rows', of a] assms(3) by (simp add: zip_map2 apsnd_def map_prod_def case_prod_beta del: upt_Suc)
    have "list_all2 (\<lambda>y x. fst x = snd y \<and> row_shape a None (fst y) (snd y) (row_of x)) (enumerate 0 ps) (map snd (zip ?ks level))"
      using build_siblings_shape [OF level(1)] by (simp add: map_snd_zip del: upt_Suc)
    then have "list_all2 (\<lambda>z y. row_shape a None (fst y) (snd y) (row_of (snd z)) \<and> fst (snd z) = snd y)
        (zip ?ks level) (enumerate 0 ps)"
      by (auto simp: list_all2_conv_all_nth simp del: upt_Suc)
    moreover have "stored T a (fst z) (fst (snd z))" if "z \<in> set (zip ?ks level)" for z
      using that kept by (auto simp del: upt_Suc)
    ultimately have "list_all2 (\<lambda>z y. row_shape a None (fst y) (snd y) (row_of (snd z)) \<and> stored T a (fst z) (snd y))
        (zip ?ks level) (enumerate 0 ps)"
      unfolding list_all2_conv_all_nth by (metis nth_mem)
    then show ?thesis by (simp add: forest_stored_def roots list_all2_map1 del: upt_Suc)
  qed
  moreover have "forest_stored T b qs" if b: "b \<noteq> a" and s: "forest_stored t b qs" for b qs
  proof (rule forest_cong [OF s _ _ assms(2)])
    have "filter (\<lambda>(j, r). pr_action r = b \<and> pr_parent r = None) ?N = []"
      by (rule filter_none) (use N b in blast)
    then show "roots T b = roots t b" using roots_append [OF rows', of b] by (simp del: upt_Suc)
    fix k r
    assume "t_get t k = Some r" "pr_action r = b"
    then have "filter (\<lambda>(j, r). pr_parent r = Some k) ?N = []"
      by (intro filter_none) (use N old in fastforce)
    then show "kids T k = kids t k" using kids_append [OF rows', of k] by (simp del: upt_Suc)
  qed
  ultimately show ?thesis by blast
qed

section \<open>When flattening succeeds\<close>

definition tree_ok :: "'w port \<Rightarrow> bool" where
  "tree_ok p \<longleftrightarrow> (\<forall>q \<in> set (subports p). list_all descriptor_ok (descriptors_of q))"

lemma tree_ok_iff: "tree_ok p \<longleftrightarrow> list_all descriptor_ok (descriptors_of p) \<and> (\<forall>c \<in> set (children p). tree_ok c)"
  unfolding tree_ok_def Ball_def subports_iff [of _ p] by blast

lemma build_row_total: "(\<exists>x. build_row a parent path i p = Inr x) \<longleftrightarrow> list_all descriptor_ok (descriptors_of p)"
  using descriptors_compile [of "descriptors_of p"]
  by (auto simp: build_row_def Let_def list_all_iff split: sum.splits)

lemma build_siblings_total:
  "(\<exists>xs. build_siblings a parent path ps = Inr xs) \<longleftrightarrow> (\<forall>p \<in> set ps. list_all descriptor_ok (descriptors_of p))"
proof -
  have "(\<exists>xs. build_siblings a parent path ps = Inr xs) \<longleftrightarrow>
      (\<forall>y \<in> set (enumerate 0 ps). list_all descriptor_ok (descriptors_of (snd y)))"
    unfolding build_siblings_def map_outcome_total by (simp only: split_def build_row_total)
  also have "\<dots> \<longleftrightarrow> (\<forall>p \<in> set (map snd (enumerate 0 ps)). list_all descriptor_ok (descriptors_of p))"
    by (simp only: list.set_map ball_simps)
  finally show ?thesis by simp
qed

lemma next_level_total:
  "(\<exists>xs. next_level a level = Inr xs) \<longleftrightarrow>
   (\<forall>x \<in> set level. \<forall>c \<in> set (children (fst (snd x))). list_all descriptor_ok (descriptors_of c))"
proof -
  let ?build = "\<lambda>(k, p, path, r). build_siblings a (Some k) path (children p)"
  have "(\<exists>xs. next_level a level = Inr xs) \<longleftrightarrow> (\<exists>ys. map_outcome ?build level = Inr ys)"
    by (auto simp: next_level_def split: sum.splits)
  then show ?thesis unfolding map_outcome_total by (simp only: split_def build_siblings_total)
qed

lemma next_level_ports:
  assumes "next_level a level = Inr nxt"
  shows "fst ` set nxt = (\<Union>x \<in> set level. set (children (fst (snd x))))"
proof -
  let ?build = "\<lambda>(k, p, path, r). build_siblings a (Some k) path (children p)"
  from assms obtain blocks where b: "list_all2 (\<lambda>x y. ?build x = Inr y) level blocks" "nxt = concat blocks"
    by (auto simp: next_level_def map_outcome_Inr split: sum.splits)
  have one: "fst ` set y = set (children (fst (snd x)))" if "?build x = Inr y" for x y
  proof -
    obtain k p path r where "x = (k, p, path, r)" by (cases x) auto
    with that built_ports [of a "Some k" path "children p" y] show ?thesis by (metis case_prod_conv fst_conv list.set_map snd_conv)
  qed
  from b(1) have "fst ` set (concat blocks) = (\<Union>x \<in> set level. set (children (fst (snd x))))"
    by (induction rule: list_all2_induct) (simp_all add: image_Un one)
  with b(2) show ?thesis by simp
qed

lemma create_levels_total:
  "(\<exists>T. create_levels a level t = Inr T) \<longleftrightarrow> (\<forall>x \<in> set level. \<forall>c \<in> set (children (fst x)). tree_ok c)"
proof (induction a level t rule: create_levels.induct)
  case (1 a level t)
  show ?case
  proof (cases "level = []")
    case True
    then show ?thesis by (simp add: create_levels.simps)
  next
    case False
    obtain ks t' where bulk: "bulk_create (map (\<lambda>(p, path, r). r) level) t = (ks, t')" by fastforce
    then have len: "length ks = length level" by (auto simp: bulk_create_eq simp del: upt_Suc)
    have set: "fst ` set level = (\<lambda>x. fst (snd x)) ` set (zip ks level)"
    proof -
      have "set level = set (map snd (zip ks level))" using len by (simp only: map_snd_zip)
      then show ?thesis by (simp only: list.set_map image_image)
    qed
    have step: "create_levels a level t = (case next_level a (zip ks level) of Inl e \<Rightarrow> Inl e | Inr l \<Rightarrow> create_levels a l t')"
      using False bulk by (subst create_levels.simps) simp
    have own: "(\<exists>l. next_level a (zip ks level) = Inr l) \<longleftrightarrow>
        (\<forall>p \<in> fst ` set level. \<forall>c \<in> set (children p). list_all descriptor_ok (descriptors_of c))"
      unfolding next_level_total set by blast
    show ?thesis
    proof (cases "next_level a (zip ks level)")
      case (Inl e)
      with own have "\<not> (\<forall>p \<in> fst ` set level. \<forall>c \<in> set (children p). list_all descriptor_ok (descriptors_of c))" by simp
      moreover have "create_levels a level t = Inl e" using step Inl by simp
      ultimately show ?thesis using tree_ok_iff by fastforce
    next
      case (Inr l)
      with step have "create_levels a level t = create_levels a l t'" by simp
      moreover have l: "fst ` set l = (\<Union>p \<in> fst ` set level. set (children p))"
        unfolding next_level_ports [OF Inr] set by blast
      moreover have own': "list_all descriptor_ok (descriptors_of c)" if "p \<in> fst ` set level" "c \<in> set (children p)" for p c
        using own Inr that by blast
      moreover have "(\<exists>T. create_levels a l t' = Inr T) \<longleftrightarrow> (\<forall>p \<in> fst ` set l. \<forall>c \<in> set (children p). tree_ok c)"
        using "1.IH" [OF False bulk [symmetric] Inr] by simp
      moreover have "tree_ok c \<longleftrightarrow> (\<forall>d \<in> set (children c). tree_ok d)" if "p \<in> fst ` set level" "c \<in> set (children p)" for p c
        using own' [OF that] tree_ok_iff by blast
      ultimately have "(\<exists>T. create_levels a level t = Inr T) \<longleftrightarrow> (\<forall>p \<in> fst ` set level. \<forall>c \<in> set (children p). tree_ok c)"
        by auto
      then show ?thesis by simp
    qed
  qed
qed

lemma flatten_total:
  "(\<exists>T. bulk_create_ports_level_by_level ps a t = Inr T) \<longleftrightarrow> (\<forall>p \<in> set ps. tree_ok p)"
proof (cases "build_siblings a None [] ps")
  case (Inl e)
  then have "\<not> (\<forall>p \<in> set ps. list_all descriptor_ok (descriptors_of p))"
    using build_siblings_total [of a None "[]" ps] by simp
  then show ?thesis using Inl tree_ok_iff by (fastforce simp: bulk_create_ports_level_by_level_def)
next
  case (Inr level)
  then have own: "\<forall>p \<in> set ps. list_all descriptor_ok (descriptors_of p)"
    using build_siblings_total [of a None "[]" ps] by blast
  have "fst ` set level = set ps" using built_ports [OF Inr] by (metis list.set_map)
  then have "(\<exists>T. create_levels a level t = Inr T) \<longleftrightarrow> (\<forall>p \<in> set ps. \<forall>c \<in> set (children p). tree_ok c)"
    unfolding create_levels_total by (metis (mono_tags, lifting) image_iff)
  also have "\<dots> \<longleftrightarrow> (\<forall>p \<in> set ps. tree_ok p)" using own tree_ok_iff by blast
  finally show ?thesis using Inr by (simp add: bulk_create_ports_level_by_level_def)
qed

section \<open>The rebuild\<close>

text \<open>Flattening after a purge replaces the rows of one action and keeps the others' trees.\<close>

lemma replaced:
  fixes ps :: "'x port list"
  assumes "bulk_create_ports_level_by_level ps a (purge_ports a A) = Inr A'" and "ports_wf A"
  shows "ports_wf A' \<and> forest_stored A' a ps \<and>
    (\<forall>b. \<forall>qs :: 'x port list. b \<noteq> a \<longrightarrow> forest_stored A b qs \<longrightarrow> forest_stored A' b qs)"
  using flatten_stores [OF assms(1) ports_wf_purge [OF assms(2)] roots_purged] purge_others [OF assms(2)] by blast

lemma rebuild_Inr:
  assumes "rebuild_relational_ports a d w = (Inr (), w')" and "ports_wf (w_arg_ports w)" and "ports_wf (w_return_ports w)"
  obtains A R where "w' = w\<lparr>w_arg_ports := A, w_return_ports := R,
      w_actions := t_upd a (\<lambda>r. r\<lparr>ac_arg_count := int (length (df_args d)),
        ac_return_count := int (length (df_returns d))\<rparr>) (w_actions w)\<rparr>"
    and "ports_wf A" and "ports_wf R" and "forest_stored A a (df_args d)" and "forest_stored R a (df_returns d)"
proof -
  obtain A R where *: "bulk_create_ports_level_by_level (df_args d) a (purge_ports a (w_arg_ports w)) = Inr A"
    "bulk_create_ports_level_by_level (df_returns d) a (purge_ports a (w_return_ports w)) = Inr R"
    using assms(1) by (auto simp: rebuild_relational_ports_def Let_def split: sum.splits)
  then have "w' = w\<lparr>w_arg_ports := A, w_return_ports := R,
      w_actions := t_upd a (\<lambda>r. r\<lparr>ac_arg_count := int (length (df_args d)),
        ac_return_count := int (length (df_returns d))\<rparr>) (w_actions w)\<rparr>"
    using assms(1) by (simp add: rebuild_relational_ports_def Let_def)
  with replaced [OF *(1) assms(2)] replaced [OF *(2) assms(3)] that show ?thesis by blast
qed

text \<open>
  C29. Rebuilding the port rows of an action succeeds exactly when the descriptors of every port of
  the definition compile, at every depth. Afterwards the two tables, read back along their parent
  keys, hold the argument and the return trees of the definition, with the position, shape and
  compiled constraint of each port; the trees of every other action are as before, every row's
  parent is a row of the same action, and the counts of the action are those of its root ports.
\<close>

theorem rebuild_stores_the_ports:
  assumes "ports_wf (w_arg_ports w)" and "ports_wf (w_return_ports w)"
  shows "(fst (rebuild_relational_ports a d w) = Inr () \<longleftrightarrow>
            (\<forall>p \<in> set (df_args d). tree_ok p) \<and> (\<forall>p \<in> set (df_returns d). tree_ok p)) \<and>
    (fst (rebuild_relational_ports a d w) = Inr () \<longrightarrow>
       (let w' = snd (rebuild_relational_ports a d w) in
        ports_wf (w_arg_ports w') \<and> ports_wf (w_return_ports w') \<and>
        forest_stored (w_arg_ports w') a (df_args d) \<and> forest_stored (w_return_ports w') a (df_returns d) \<and>
        (\<forall>b ps. b \<noteq> a \<longrightarrow> forest_stored (w_arg_ports w) b (ps :: arg_port list) \<longrightarrow> forest_stored (w_arg_ports w') b ps) \<and>
        (\<forall>b ps. b \<noteq> a \<longrightarrow> forest_stored (w_return_ports w) b (ps :: return_port list) \<longrightarrow> forest_stored (w_return_ports w') b ps) \<and>
        w_actions w' = t_upd a (\<lambda>r. r\<lparr>ac_arg_count := int (length (df_args d)),
                                       ac_return_count := int (length (df_returns d))\<rparr>) (w_actions w)))"
proof -
  let ?args = "bulk_create_ports_level_by_level (df_args d) a (purge_ports a (w_arg_ports w))"
  let ?returns = "bulk_create_ports_level_by_level (df_returns d) a (purge_ports a (w_return_ports w))"
  have fin: "fst (rebuild_relational_ports a d w) = Inr () \<longleftrightarrow> (\<exists>T. ?args = Inr T) \<and> (\<exists>T. ?returns = Inr T)"
    by (auto simp: rebuild_relational_ports_def Let_def split: sum.splits)
  have "?thesis" if "?args = Inr A" "?returns = Inr R" for A R
  proof -
    from that have "rebuild_relational_ports a d w =
        (Inr (), w\<lparr>w_arg_ports := A, w_return_ports := R,
          w_actions := t_upd a (\<lambda>r. r\<lparr>ac_arg_count := int (length (df_args d)),
            ac_return_count := int (length (df_returns d))\<rparr>) (w_actions w)\<rparr>)"
      by (simp add: rebuild_relational_ports_def Let_def)
    moreover have "(\<forall>p \<in> set (df_args d). tree_ok p) \<and> (\<forall>p \<in> set (df_returns d). tree_ok p)"
      using that flatten_total [of "df_args d" a "purge_ports a (w_arg_ports w)"]
        flatten_total [of "df_returns d" a "purge_ports a (w_return_ports w)"] by blast
    ultimately show ?thesis
      using replaced [OF that(1) assms(1)] replaced [OF that(2) assms(2)] by (simp add: Let_def)
  qed
  moreover have ?thesis if "\<not> ((\<exists>T. ?args = Inr T) \<and> (\<exists>T. ?returns = Inr T))"
    using that unfolding fin flatten_total by blast
  ultimately show ?thesis by blast
qed

text \<open>A definition with a list of constrained images below a dictionary.\<close>

definition image_port :: "arg_port" where
  "image_port =
     Port None ''image'' None P_STRUCTURE None (Some ''@mikro/image'') False None None None None None None None
       (Some [\<lparr>ds_key = ''axes'', ds_operator = OP_EQUALS, ds_value = JStr ''c''\<rparr>]) None"

definition images_definition :: definition_input where
  "images_definition =
     \<lparr>df_key = ''stitch'', df_version = ''1'', df_description = None, df_collections = [], df_name = ''Stitch'',
      df_stateful = False, df_pure = False, df_idempotent = True, df_port_groups = [],
      df_args = [Port None ''options'' None P_DICT None None False None None None None None None None None
                   (Some [Port None ''images'' None P_LIST None None True None None None None None None None None
                            (Some [image_port])]),
                 Port None ''name'' None P_STRING None None False None None None None None None None None None],
      df_returns = [], df_kind = FUNCTION, df_is_test_for = [], df_is_dev = False\<rparr>"

theorem rebuild_stores_the_ports_witness:
  "fst (rebuild_relational_ports 7 images_definition empty_world) = Inr () \<and>
   forest_stored (w_arg_ports (snd (rebuild_relational_ports 7 images_definition empty_world))) 7 (df_args images_definition)"
proof -
  have wf: "ports_wf (w_arg_ports empty_world)" "ports_wf (w_return_ports empty_world)"
    by (simp_all add: ports_wf_def empty_world_def t_get_def t_empty_def t_wf_def)
  have "fst (rebuild_relational_ports 7 images_definition empty_world) = Inr ()" by code_simp
  with rebuild_stores_the_ports [OF wf, of 7 images_definition] show ?thesis unfolding Let_def by blast
qed

end
