(* ===== verification/Match_Semantics.thy ===== *)
theory Match_Semantics
  imports Matching Port_Storage
begin

text \<open>
  What a demand selects: the clause built for a match, evaluated over the flattened rows, is true
  exactly when the match fits the port tree. The names of the parameters come from the position of a
  match in the demand, so that no two matches of a statement share one.
\<close>

section \<open>Parameter names\<close>

lemma split_first:
  "u @ c # x = v @ c # y \<Longrightarrow> c \<notin> set u \<Longrightarrow> c \<notin> set v \<Longrightarrow> u = v \<and> x = y"
proof (induction u arbitrary: v)
  case Nil
  then show ?case by (cases v) auto
next
  case (Cons a u)
  then show ?case by (cases v) auto
qed

lemma digits_no_underscore: "CHR ''_'' \<notin> set (str_of_nat n)"
  using str_of_nat_digits [of n] by (auto simp: is_digit_def)

abbreviation child_path :: "string \<Rightarrow> nat \<Rightarrow> string" where
  "child_path path i \<equiv> path @ ''_'' @ str_of_nat i"

text \<open>The parameters of a match and of the matches below it.\<close>

definition owned :: "string \<Rightarrow> string \<Rightarrow> bool" where
  "owned path key \<longleftrightarrow>
     (\<exists>f r. key = param_key f (path @ r) \<and> CHR ''_'' \<notin> set f \<and> (r = [] \<or> (\<exists>s. r = CHR ''_'' # s)))"

lemma owned_self: "CHR ''_'' \<notin> set f \<Longrightarrow> owned path (param_key f path)"
  unfolding owned_def by (intro exI [of _ f] exI [of _ "[]"]) simp

lemma owned_child: "owned (child_path path i) key \<Longrightarrow> owned path key"
  by (fastforce simp: owned_def)

lemma index_rest:
  assumes "str_of_nat i @ r = str_of_nat j @ r'" and "r = [] \<or> (\<exists>s. r = CHR ''_'' # s)" and "r' = [] \<or> (\<exists>s. r' = CHR ''_'' # s)"
  shows "i = j"
proof -
  have "str_of_nat i = str_of_nat j"
  proof (cases "r = [] \<or> r' = []")
    case True
    then show ?thesis
    proof
      assume "r = []"
      with assms(1,3) digits_no_underscore [of i] show ?thesis by auto
    next
      assume "r' = []"
      with assms(1,2) digits_no_underscore [of j] show ?thesis by auto (metis in_set_conv_decomp)
    qed
  next
    case False
    with assms(2,3) obtain s s' where "r = CHR ''_'' # s" "r' = CHR ''_'' # s'" by auto
    with assms(1) split_first [of "str_of_nat i" _ s "str_of_nat j" s'] digits_no_underscore
    show ?thesis by simp
  qed
  then show ?thesis by simp
qed

lemma param_key_split:
  "param_key f x = param_key g y \<Longrightarrow> CHR ''_'' \<notin> set f \<Longrightarrow> CHR ''_'' \<notin> set g \<Longrightarrow> f = g \<and> x = y"
  unfolding param_key_def using split_first [of f "CHR ''_''" x g y] by simp

lemma owned_disjoint:
  assumes "owned (child_path path i) key" and "owned (child_path path j) key"
  shows "i = j"
proof -
  from assms obtain f r g r' where
    "key = param_key f (child_path path i @ r)" "CHR ''_'' \<notin> set f" "r = [] \<or> (\<exists>s. r = CHR ''_'' # s)"
    "key = param_key g (child_path path j @ r')" "CHR ''_'' \<notin> set g" "r' = [] \<or> (\<exists>s. r' = CHR ''_'' # s)"
    unfolding owned_def by blast
  then show ?thesis using param_key_split [of f "child_path path i @ r" g "child_path path j @ r'"] index_rest [of i r j r']
    by simp
qed

lemma own_not_child: "CHR ''_'' \<notin> set f \<Longrightarrow> \<not> owned (child_path path i) (param_key f path)"
  by (auto simp: owned_def dest!: param_key_split)

section \<open>Statements under construction\<close>

lemma add_value_conditions: "fst (add_value mk key v s) = fst s @ (case v of None \<Rightarrow> [] | Some _ \<Rightarrow> [mk key])"
  by (simp add: add_value_def split: option.split)

lemma add_value_get:
  "dict_get (snd (add_value mk key v s)) k = (if k = key \<and> v \<noteq> None then v else dict_get (snd s) k)"
  by (auto simp: add_value_def split: option.split)

lemma add_field_get:
  "dict_get (snd (add_field alias path x s)) k =
     (if k = param_key (fst x) path \<and> snd (snd x) \<noteq> None then snd (snd x) else dict_get (snd s) k)"
  by (simp add: add_field_def add_value_get)

lemma fields_frame:
  "(\<forall>x \<in> set fs. key \<noteq> param_key (fst x) path) \<Longrightarrow>
   dict_get (snd (fold (add_field alias path) fs s)) key = dict_get (snd s) key"
  by (induction fs arbitrary: s) (auto simp: add_field_get)

lemma fields_get:
  "distinct (map fst fs) \<Longrightarrow> (f, c, Some v) \<in> set fs \<Longrightarrow>
   dict_get (snd (fold (add_field alias path) fs s)) (param_key f path) = Some v"
proof (induction fs arbitrary: s)
  case (Cons x fs)
  show ?case
  proof (cases "x = (f, c, Some v)")
    case True
    have "\<forall>y \<in> set fs. param_key f path \<noteq> param_key (fst y) path"
      using Cons.prems(1) True by (force simp: param_key_def)
    from fields_frame [OF this] show ?thesis by (simp add: True add_field_get)
  next
    case False
    with Cons show ?thesis by simp
  qed
qed simp

lemma fields_conditions:
  "fst (fold (add_field alias path) fs s) =
     fst s @ concat (map (\<lambda>x. case snd (snd x) of None \<Rightarrow> [] | Some _ \<Rightarrow> [Port_is alias (fst (snd x)) (param_key (fst x) path)]) fs)"
  by (induction fs arbitrary: s) (simp_all add: add_field_def add_value_conditions)

lemma thread_sound:
  assumes "thread f i xs s = Inr (ys, s')"
    and step: "\<And>i x s y s'. x \<in> set xs \<Longrightarrow> f i x s = Inr (y, s') \<Longrightarrow>
      (\<forall>key. \<not> own i key \<longrightarrow> dict_get s' key = dict_get s key) \<and>
      (\<forall>P. (\<forall>key. own i key \<longrightarrow> dict_get P key = dict_get s' key) \<longrightarrow> S P x y)"
    and disj: "\<And>i j key. own i key \<Longrightarrow> own j key \<Longrightarrow> i = j"
  shows "(\<forall>key. (\<forall>j \<ge> i. \<not> own j key) \<longrightarrow> dict_get s' key = dict_get s key) \<and>
    (\<forall>P. (\<forall>j \<ge> i. \<forall>key. own j key \<longrightarrow> dict_get P key = dict_get s' key) \<longrightarrow> list_all2 (S P) xs ys)"
  using assms(1,2)
proof (induction xs arbitrary: i s ys)
  case Nil
  then show ?case by simp
next
  case (Cons x xs)
  from Cons.prems(1) obtain y s1 zs where x: "f i x s = Inr (y, s1)" and xs: "thread f (Suc i) xs s1 = Inr (zs, s')"
    and ys: "ys = y # zs"
    by (auto split: sum.splits)
  have "(\<forall>key. (\<forall>j \<ge> Suc i. \<not> own j key) \<longrightarrow> dict_get s' key = dict_get s1 key) \<and>
    (\<forall>P. (\<forall>j \<ge> Suc i. \<forall>key. own j key \<longrightarrow> dict_get P key = dict_get s' key) \<longrightarrow> list_all2 (S P) xs zs)"
  proof (rule Cons.IH [OF xs])
    fix j z u y u'
    assume "z \<in> set xs" "f j z u = Inr (y, u')"
    with Cons.prems(2) [of z j u y u'] show
      "(\<forall>key. \<not> own j key \<longrightarrow> dict_get u' key = dict_get u key) \<and>
       (\<forall>P. (\<forall>key. own j key \<longrightarrow> dict_get P key = dict_get u' key) \<longrightarrow> S P z y)" by simp
  qed
  then have frame: "dict_get s' key = dict_get s1 key" if "\<forall>j \<ge> Suc i. \<not> own j key" for key using that by blast
  note tail = conjunct2 [OF \<open>_ \<and> _\<close>]
  from Cons.prems(2) [OF list.set_intros(1) x] have head: "\<forall>key. \<not> own i key \<longrightarrow> dict_get s1 key = dict_get s key"
    "\<forall>P. (\<forall>key. own i key \<longrightarrow> dict_get P key = dict_get s1 key) \<longrightarrow> S P x y" by auto
  have "dict_get s' key = dict_get s key" if "\<forall>j \<ge> i. \<not> own j key" for key
    using frame [of key] head(1) that by auto
  moreover have "list_all2 (S P) (x # xs) ys" if P: "\<forall>j \<ge> i. \<forall>key. own j key \<longrightarrow> dict_get P key = dict_get s' key" for P
  proof -
    have "dict_get P key = dict_get s1 key" if "own i key" for key
    proof -
      have "\<forall>j \<ge> Suc i. \<not> own j key" using disj [OF that] by force
      with frame P that show ?thesis by (metis order_refl)
    qed
    moreover have "list_all2 (S P) xs zs" using tail P by (metis Suc_leD)
    ultimately show ?thesis using head(2) by (simp add: ys)
  qed
  ultimately show ?case by blast
qed

section \<open>The clause of a match over the rows\<close>

definition object_of :: "port_match \<Rightarrow> string" where
  "object_of m = py_dumps False (JDict (candidate_object (match_descriptors m)))"

definition fits_row :: "'c env \<Rightarrow> port_match \<Rightarrow> port_row \<Rightarrow> bool" where
  "fits_row env m r \<longleftrightarrow>
     (\<forall>y \<in> set (match_fields m). snd (snd y) = None \<or> port_value (fst (snd y)) r = snd (snd y)) \<and>
     (match_descriptors m = [] \<or> accepts env (V_str (object_of m)) (pr_compiled_jsonpath r))"

fun row_matches :: "'c env \<Rightarrow> port_row table \<Rightarrow> port_match \<Rightarrow> nat \<times> port_row \<Rightarrow> bool" where
  "row_matches env t m x \<longleftrightarrow>
     fits_row env m (snd x) \<and>
     (\<forall>child \<in> set (match_children m). \<exists>y \<in> set (kids t (fst x)). row_matches env t child y)"

declare row_matches.simps [simp del]

lemma match_fields_names:
  "distinct (map fst (match_fields m))" "x \<in> set (match_fields m) \<Longrightarrow> CHR ''_'' \<notin> set (fst x)"
  "x \<in> set (match_fields m) \<Longrightarrow> fst x \<noteq> ''obj''"
  by (auto simp: match_fields_def)

lemma kids_iff: "x \<in> set (kids t k) \<longleftrightarrow> x \<in> set (rows t) \<and> pr_parent (snd x) = Some k"
  by (auto simp: kids_def t_filter_def)

lemma roots_iff: "x \<in> set (roots t a) \<longleftrightarrow> x \<in> set (rows t) \<and> pr_action (snd x) = a \<and> pr_parent (snd x) = None"
  by (auto simp: roots_def t_filter_def)

lemma list_all_all2:
  "list_all2 (\<lambda>x y. f y \<longleftrightarrow> g x) xs ys \<Longrightarrow> list_all f ys \<longleftrightarrow> (\<forall>x \<in> set xs. g x)"
  by (induction rule: list_all2_induct) auto

lemma holds_fields:
  assumes "port_at b alias = Some (k, r)"
    and "\<forall>x \<in> set fs. \<forall>v. snd (snd x) = Some v \<longrightarrow> dict_get P (param_key (fst x) path) = Some v"
  shows "list_all (holds env w P b)
      (concat (map (\<lambda>x. case snd (snd x) of None \<Rightarrow> [] | Some _ \<Rightarrow> [Port_is alias (fst (snd x)) (param_key (fst x) path)]) fs)) \<longleftrightarrow>
    (\<forall>x \<in> set fs. snd (snd x) = None \<or> port_value (fst (snd x)) r = snd (snd x))"
  using assms by (induction fs) (auto split: option.splits)

lemma port_at_Cons: "port_at ((a, v) # b) q = (if q = a then (case v of B_port k r \<Rightarrow> Some (k, r) | _ \<Rightarrow> None) else port_at b q)"
  by (simp add: port_at_def split: bound.split)

lemma action_at_Cons: "action_at ((a, v) # b) q = (if q = a then (case v of B_action k r \<Rightarrow> Some (k, r) | _ \<Rightarrow> None) else action_at b q)"
  by (simp add: action_at_def split: bound.split)

lemma alias_child: "match_alias path \<noteq> match_alias (child_path path i)"
  by (simp add: match_alias_def)

definition correlated :: "'c env \<Rightarrow> world \<Rightarrow> params \<Rightarrow> bindings \<Rightarrow> string \<Rightarrow> string \<Rightarrow> string option \<Rightarrow> nat \<times> port_row \<Rightarrow> bool" where
  "correlated env w P b alias action_alias parent_alias x \<longleftrightarrow>
     list_all (holds env w P ((alias, B_port (fst x) (snd x)) # b)) (correlate alias action_alias parent_alias)"

lemma build_sound:
  assumes "build_match_exists m table action_alias parent_alias path ps = Inr (c, ps')"
  shows "(\<forall>key. \<not> owned path key \<longrightarrow> dict_get ps' key = dict_get ps key) \<and>
    (\<forall>P. (\<forall>key. owned path key \<longrightarrow> dict_get P key = dict_get ps' key) \<longrightarrow>
       (\<forall>b. holds env w P b c \<longleftrightarrow>
          (\<exists>x \<in> set (rows (port_table_of table w)).
             correlated env w P b (match_alias path) action_alias parent_alias x \<and>
             row_matches env (port_table_of table w) m x)))"
  using assms
proof (induction m table action_alias parent_alias path ps arbitrary: c ps' rule: build_match_exists.induct)
  case (1 m table action_alias parent_alias path ps)
  let ?t = "port_table_of table w"
  let ?here = "match_alias path"
  let ?s1 = "fold (add_field ?here path) (match_fields m) (correlate ?here action_alias parent_alias, ps)"
  let ?s2 = "add_object ?here path (match_descriptors m) ?s1"
  let ?build = "\<lambda>i child. build_match_exists child table action_alias (Some ?here) (child_path path i)"
  from "1.prems" have narrow: "\<not> (match_descriptors m \<noteq> [] \<and> parent_alias = None \<and> \<not> has_structural_narrowing m)"
    by (subst (asm) build_match_exists.simps) (auto simp: Let_def split: if_splits)
  with "1.prems" obtain nested where nested: "thread ?build 0 (match_children m) (snd ?s2) = Inr (nested, ps')"
    and c: "c = Port_exists table ?here (fst ?s2 @ nested)"
    by (subst (asm) build_match_exists.simps) (auto simp: Let_def split: prod.splits sum.splits)
  let ?S = "\<lambda>P child y. \<forall>b k r. port_at b ?here = Some (k, r) \<longrightarrow>
      (holds env w P b y \<longleftrightarrow> (\<exists>x \<in> set (kids ?t k). row_matches env ?t child x))"
  have thread: "(\<forall>key. (\<forall>j \<ge> 0. \<not> owned (child_path path j) key) \<longrightarrow> dict_get ps' key = dict_get (snd ?s2) key) \<and>
    (\<forall>P. (\<forall>j \<ge> 0. \<forall>key. owned (child_path path j) key \<longrightarrow> dict_get P key = dict_get ps' key) \<longrightarrow>
       list_all2 (?S P) (match_children m) nested)"
  proof (rule thread_sound [OF nested, where own = "\<lambda>j. owned (child_path path j)"])
    fix i child s y s'
    assume child: "child \<in> set (match_children m)" and y: "?build i child s = Inr (y, s')"
    have IH: "(\<forall>key. \<not> owned (child_path path i) key \<longrightarrow> dict_get s' key = dict_get s key) \<and>
      (\<forall>P. (\<forall>key. owned (child_path path i) key \<longrightarrow> dict_get P key = dict_get s' key) \<longrightarrow>
         (\<forall>b. holds env w P b y \<longleftrightarrow>
            (\<exists>x \<in> set (rows ?t).
               correlated env w P b (match_alias (child_path path i)) action_alias (Some ?here) x \<and>
               row_matches env ?t child x)))"
      by (rule "1.IH" [OF refl refl narrow surjective_pairing [symmetric] child y])
    moreover have "?S P child y" if "\<forall>key. owned (child_path path i) key \<longrightarrow> dict_get P key = dict_get s' key" for P
    proof (intro allI impI)
      fix b k r
      assume "port_at b ?here = Some (k, r)"
      then have corr: "correlated env w P b (match_alias (child_path path i)) action_alias (Some ?here) x \<longleftrightarrow> pr_parent (snd x) = Some k" for x
        using alias_child [of path i] by (simp add: correlated_def correlate_def port_at_Cons split_def)
      from IH that have "holds env w P b y \<longleftrightarrow> (\<exists>x \<in> set (rows ?t).
          correlated env w P b (match_alias (child_path path i)) action_alias (Some ?here) x \<and> row_matches env ?t child x)"
        by blast
      then show "holds env w P b y \<longleftrightarrow> (\<exists>x \<in> set (kids ?t k). row_matches env ?t child x)"
        unfolding corr Bex_def kids_iff by blast
    qed
    ultimately show "(\<forall>key. \<not> owned (child_path path i) key \<longrightarrow> dict_get s' key = dict_get s key) \<and>
      (\<forall>P. (\<forall>key. owned (child_path path i) key \<longrightarrow> dict_get P key = dict_get s' key) \<longrightarrow> ?S P child y)"
      by blast
  next
    fix i j key
    assume "owned (child_path path i) key" "owned (child_path path j) key"
    then show "i = j" by (rule owned_disjoint)
  qed
  have own: "dict_get (snd ?s2) key = dict_get ps key" if "\<not> owned path key" for key
  proof -
    have "key \<noteq> param_key f path" if "CHR ''_'' \<notin> set f" for f
      using owned_self [OF that, of path] \<open>\<not> owned path key\<close> by auto
    moreover have "CHR ''_'' \<notin> set ''obj''" by simp
    ultimately show ?thesis
      using match_fields_names(2) [of _ m] fields_frame [of "match_fields m" key path ?here]
      by (simp add: add_object_def add_value_get)
  qed
  have frame: "dict_get ps' key = dict_get ps key" if "\<not> owned path key" for key
    using thread own [OF that] owned_child [of path _ key] that by metis
  have kept: "dict_get ps' (param_key f path) = dict_get (snd ?s2) (param_key f path)" if "CHR ''_'' \<notin> set f" for f
    using thread own_not_child [OF that] by blast
  have vals: "dict_get ps' (param_key f path) = Some v" if "(f, col, Some v) \<in> set (match_fields m)" for f col v
  proof -
    have "f \<noteq> ''obj''" "CHR ''_'' \<notin> set f" using match_fields_names(2,3) [OF that] by auto
    with kept fields_get [OF match_fields_names(1) that, of ?here path] show ?thesis
      by (simp add: add_object_def add_value_get param_key_def)
  qed
  have object: "dict_get ps' (param_key ''obj'' path) = Some (V_str (object_of m))" if "match_descriptors m \<noteq> []"
    using kept [of "''obj''"] that by (simp add: add_object_def add_value_get object_of_def)
  have "holds env w P b c \<longleftrightarrow>
      (\<exists>x \<in> set (rows ?t). correlated env w P b ?here action_alias parent_alias x \<and> row_matches env ?t m x)"
    if P: "\<forall>key. owned path key \<longrightarrow> dict_get P key = dict_get ps' key" for P b
  proof -
    have "list_all (holds env w P ((?here, B_port (fst x) (snd x)) # b)) (fst ?s2 @ nested) \<longleftrightarrow>
        correlated env w P b ?here action_alias parent_alias x \<and> row_matches env ?t m x" for x
    proof -
      let ?b = "(?here, B_port (fst x) (snd x)) # b"
      have at: "port_at ?b ?here = Some (fst x, snd x)" by (simp add: port_at_Cons)
      have "list_all (holds env w P ?b)
          (concat (map (\<lambda>x. case snd (snd x) of None \<Rightarrow> [] | Some _ \<Rightarrow>
             [Port_is ?here (fst (snd x)) (param_key (fst x) path)]) (match_fields m))) \<longleftrightarrow>
          (\<forall>y \<in> set (match_fields m). snd (snd y) = None \<or> port_value (fst (snd y)) (snd x) = snd (snd y))"
      proof (rule holds_fields [OF at], intro ballI allI impI)
        fix y v
        assume y: "y \<in> set (match_fields m)" "snd (snd y) = Some v"
        then have "(fst y, fst (snd y), Some v) \<in> set (match_fields m)" by (metis prod.collapse)
        with vals P owned_self [OF match_fields_names(2) [OF y(1)], of path]
        show "dict_get P (param_key (fst y) path) = Some v" by metis
      qed
      moreover have "list_all (holds env w P ?b) (case (if match_descriptors m = [] then None else
            Some (V_str (object_of m))) of None \<Rightarrow> [] | Some _ \<Rightarrow> [Port_accepts ?here (param_key ''obj'' path)]) \<longleftrightarrow>
          match_descriptors m = [] \<or> accepts env (V_str (object_of m)) (pr_compiled_jsonpath (snd x))"
        using object P owned_self [of "''obj''" path] at by (simp add: split_def)
      moreover have "list_all (holds env w P ?b) nested \<longleftrightarrow>
          (\<forall>child \<in> set (match_children m). \<exists>y \<in> set (kids ?t (fst x)). row_matches env ?t child y)"
      proof (rule list_all_all2)
        have "list_all2 (?S P) (match_children m) nested" using thread P owned_child by blast
        then show "list_all2 (\<lambda>child y. holds env w P ?b y \<longleftrightarrow> (\<exists>z \<in> set (kids ?t (fst x)). row_matches env ?t child z))
            (match_children m) nested"
          by (rule list_all2_mono) (use at in blast)
      qed
      ultimately show ?thesis
        by (simp only: add_object_def add_value_conditions fields_conditions correlated_def object_of_def [symmetric]
            row_matches.simps [of _ _ m] fits_row_def case_prod_beta list_all_append fst_conv conj_assoc)
    qed
    then show ?thesis by (simp add: c list_ex_iff)
  qed
  with frame show ?case by blast
qed

section \<open>Matching a port tree\<close>

text \<open>
  The reference: a match fits a port at a position, and each of its children fits some child of the
  port.
\<close>

lemma pred_option_code [code]: "pred_option P None \<longleftrightarrow> True" "pred_option P (Some x) \<longleftrightarrow> P x"
  by simp_all

definition constraint_ok :: "'c env \<Rightarrow> port_match \<Rightarrow> 'w port \<Rightarrow> bool" where
  "constraint_ok env m p \<longleftrightarrow>
     match_descriptors m = [] \<or>
     (case compile_descriptors_to_jsonpath (descriptors_of p) of
        Inr None \<Rightarrow> True
      | Inr (Some path) \<Rightarrow> jsonb_path_match env (object_of m) path
      | Inl _ \<Rightarrow> False)"

definition fits :: "'c env \<Rightarrow> port_match \<Rightarrow> nat \<Rightarrow> 'w port \<Rightarrow> bool" where
  "fits env m i p \<longleftrightarrow>
     pred_option (\<lambda>n. int i = n) (pm_at m) \<and>
     pred_option (\<lambda>k. po_key p = k) (pm_key m) \<and>
     pred_option (\<lambda>k. po_kind p = k) (pm_kind m) \<and>
     pred_option (\<lambda>s. po_identifier p = Some s) (pm_identifier m) \<and>
     pred_option (\<lambda>d. po_dimension p = Some d) (pm_dimension m) \<and>
     pred_option (\<lambda>b. po_nullable p = b) (pm_nullable m) \<and>
     constraint_ok env m p"

fun port_matches :: "'c env \<Rightarrow> port_match \<Rightarrow> nat \<Rightarrow> 'w port \<Rightarrow> bool" where
  "port_matches env m i p \<longleftrightarrow>
     fits env m i p \<and>
     (\<forall>child \<in> set (match_children m). \<exists>y \<in> set (enumerate 0 (children p)). port_matches env child (fst y) (snd y))"

declare port_matches.simps [simp del]

definition some_port_matches :: "'c env \<Rightarrow> port_match \<Rightarrow> 'w port list \<Rightarrow> bool" where
  "some_port_matches env m ps \<longleftrightarrow> (\<exists>y \<in> set (enumerate 0 ps). port_matches env m (fst y) (snd y))"

lemma port_kind_value_inject: "port_kind_value k = port_kind_value l \<longleftrightarrow> k = l"
  by (cases k; cases l) simp_all

lemma option_field: "(v = None \<or> x = map_option f v) \<longleftrightarrow> pred_option (\<lambda>a. x = Some (f a)) v"
  by (cases v) auto

lemma fits_row_shape:
  assumes "row_shape a parent i p r"
  shows "fits_row env m r \<longleftrightarrow> fits env m i p"
proof -
  have "(\<forall>y \<in> set (match_fields m). snd (snd y) = None \<or> port_value (fst (snd y)) r = snd (snd y)) \<longleftrightarrow>
     pred_option (\<lambda>n. int i = n) (pm_at m) \<and>
     pred_option (\<lambda>k. po_key p = k) (pm_key m) \<and>
     pred_option (\<lambda>k. po_kind p = k) (pm_kind m) \<and>
     pred_option (\<lambda>s. po_identifier p = Some s) (pm_identifier m) \<and>
     pred_option (\<lambda>d. po_dimension p = Some d) (pm_dimension m) \<and>
     pred_option (\<lambda>b. po_nullable p = b) (pm_nullable m)"
    using assms by (simp add: match_fields_def row_shape_def option_field port_kind_value_inject)
  moreover have "(match_descriptors m = [] \<or> accepts env (V_str (object_of m)) (pr_compiled_jsonpath r)) \<longleftrightarrow> constraint_ok env m p"
    using assms by (auto simp: row_shape_def constraint_ok_def accepts_def split: option.splits)
  ultimately show ?thesis by (simp only: fits_row_def fits_def conj_assoc)
qed

lemma list_all2_ex:
  assumes "list_all2 R xs ys" and "\<And>x y. R x y \<Longrightarrow> P x \<longleftrightarrow> Q y"
  shows "(\<exists>x \<in> set xs. P x) \<longleftrightarrow> (\<exists>y \<in> set ys. Q y)"
  using assms by (induction rule: list_all2_induct) auto

lemma row_matches_port:
  "stored t a (fst x) p \<Longrightarrow> row_shape a parent i p (snd x) \<Longrightarrow> row_matches env t m x \<longleftrightarrow> port_matches env m i p"
proof (induction env t m x arbitrary: p parent i rule: row_matches.induct)
  case (1 env t m x)
  have kids: "list_all2 (\<lambda>y z. row_shape a (Some (fst x)) (fst z) (snd z) (snd y) \<and> stored t a (fst y) (snd z))
      (kids t (fst x)) (enumerate 0 (children p))"
    using "1.prems"(1) by (subst (asm) stored.simps)
  have "(\<exists>y \<in> set (kids t (fst x)). row_matches env t child y) \<longleftrightarrow>
      (\<exists>z \<in> set (enumerate 0 (children p)). port_matches env child (fst z) (snd z))" if child: "child \<in> set (match_children m)" for child
  proof (rule list_all2_ex)
    show "list_all2 (\<lambda>y z. (row_shape a (Some (fst x)) (fst z) (snd z) (snd y) \<and> stored t a (fst y) (snd z)) \<and> y \<in> set (kids t (fst x)))
        (kids t (fst x)) (enumerate 0 (children p))"
      using kids by (simp add: list_all2_conv_all_nth)
    fix y and z :: "nat \<times> 'a port"
    assume "(row_shape a (Some (fst x)) (fst z) (snd z) (snd y) \<and> stored t a (fst y) (snd z)) \<and> y \<in> set (kids t (fst x))"
    then show "row_matches env t child y \<longleftrightarrow> port_matches env child (fst z) (snd z)"
      using "1.IH" [OF child, of y "snd z" "Some (fst x)" "fst z"] by simp
  qed
  then show ?case
    using fits_row_shape [OF "1.prems"(2), of env m] by (simp add: row_matches.simps [of _ _ m] port_matches.simps [of _ m])
qed

lemma root_match:
  assumes "forest_stored t a ps"
  shows "(\<exists>x \<in> set (roots t a). row_matches env t m x) \<longleftrightarrow> some_port_matches env m ps"
  unfolding some_port_matches_def
  by (rule list_all2_ex [OF assms [unfolded forest_stored_def]]) (elim conjE, rule row_matches_port)

lemma build_root_sound:
  assumes "build_match_exists m table al None path ps = Inr (c, ps')"
    and "forest_stored (port_table_of table w) a trees" and "\<And>x. al \<noteq> match_alias x"
  shows "(\<forall>key. \<not> owned path key \<longrightarrow> dict_get ps' key = dict_get ps key) \<and>
    (\<forall>P. (\<forall>key. owned path key \<longrightarrow> dict_get P key = dict_get ps' key) \<longrightarrow>
       (\<forall>b r. action_at b al = Some (a, r) \<longrightarrow> (holds env w P b c \<longleftrightarrow> some_port_matches env m trees)))"
proof -
  let ?t = "port_table_of table w"
  have "correlated env w P b (match_alias path) al None x \<longleftrightarrow> pr_action (snd x) = a \<and> pr_parent (snd x) = None"
    if "action_at b al = Some (a, r)" for P b r x
    using that assms(3) [of path] by (simp add: correlated_def correlate_def port_at_Cons action_at_Cons split_def)
  then have "(\<exists>x \<in> set (rows ?t). correlated env w P b (match_alias path) al None x \<and> row_matches env ?t m x) \<longleftrightarrow>
      some_port_matches env m trees" if "action_at b al = Some (a, r)" for P b r
    unfolding root_match [OF assms(2), symmetric] Bex_def roots_iff using that by blast
  with build_sound [OF assms(1), where w = w and env = env] show ?thesis by metis
qed

end
