(* ===== verification/Match_Properties.thy ===== *)
theory Match_Properties
  imports Match_Semantics
begin

text \<open>
  What the statements for demands select: the clauses of one demand, several demands over one
  dictionary of parameters, and the conversion to positional parameters.
\<close>

section \<open>Steps that extend a statement\<close>

text \<open>
  A step adds clauses and writes only parameters in \<open>K\<close>; under any parameters that agree with what it
  wrote, the added clauses mean \<open>R\<close>.
\<close>

definition step_ok ::
    "'c env \<Rightarrow> world \<Rightarrow> bindings \<Rightarrow> (string \<Rightarrow> bool) \<Rightarrow> bool \<Rightarrow> statement \<Rightarrow> statement \<Rightarrow> bool" where
  "step_ok env w b K R s s' \<longleftrightarrow>
     (\<exists>cs. fst s' = fst s @ cs \<and>
        (\<forall>key. \<not> K key \<longrightarrow> dict_get (snd s') key = dict_get (snd s) key) \<and>
        (\<forall>P. (\<forall>key. K key \<longrightarrow> dict_get P key = dict_get (snd s') key) \<longrightarrow>
           (list_all (holds env w P b) cs \<longleftrightarrow> R)))"

lemma step_trans:
  assumes "step_ok env w b K1 R1 s s1" and "step_ok env w b K2 R2 s1 s2" and "\<And>key. K1 key \<Longrightarrow> \<not> K2 key"
  shows "step_ok env w b (\<lambda>key. K1 key \<or> K2 key) (R1 \<and> R2) s s2"
proof -
  from assms(1) obtain cs1 where 1: "fst s1 = fst s @ cs1" "\<And>key. \<not> K1 key \<Longrightarrow> dict_get (snd s1) key = dict_get (snd s) key"
    "\<And>P. (\<forall>key. K1 key \<longrightarrow> dict_get P key = dict_get (snd s1) key) \<Longrightarrow> list_all (holds env w P b) cs1 \<longleftrightarrow> R1"
    by (auto simp: step_ok_def)
  from assms(2) obtain cs2 where 2: "fst s2 = fst s1 @ cs2" "\<And>key. \<not> K2 key \<Longrightarrow> dict_get (snd s2) key = dict_get (snd s1) key"
    "\<And>P. (\<forall>key. K2 key \<longrightarrow> dict_get P key = dict_get (snd s2) key) \<Longrightarrow> list_all (holds env w P b) cs2 \<longleftrightarrow> R2"
    by (auto simp: step_ok_def)
  show ?thesis
    unfolding step_ok_def
  proof (intro exI [of _ "cs1 @ cs2"] conjI allI impI)
    show "fst s2 = fst s @ cs1 @ cs2" by (simp add: 1 2)
  next
    fix key
    assume "\<not> (K1 key \<or> K2 key)"
    then show "dict_get (snd s2) key = dict_get (snd s) key" by (simp add: 1 2)
  next
    fix P
    assume P: "\<forall>key. K1 key \<or> K2 key \<longrightarrow> dict_get P key = dict_get (snd s2) key"
    then have "\<forall>key. K1 key \<longrightarrow> dict_get P key = dict_get (snd s1) key" using 2(2) assms(3) by metis
    with P show "list_all (holds env w P b) (cs1 @ cs2) \<longleftrightarrow> R1 \<and> R2" by (simp add: 1(3) 2(3))
  qed
qed

lemma step_weaken: "step_ok env w b K R s s' \<Longrightarrow> (\<And>key. K key \<Longrightarrow> K' key) \<Longrightarrow> R = R' \<Longrightarrow> step_ok env w b K' R' s s'"
  unfolding step_ok_def by (elim exE, rule exI) blast

lemma step_refl: "step_ok env w b K True s s"
  by (simp add: step_ok_def exI [of _ "[]"])

lemma step_value:
  assumes "\<And>P x. dict_get P key = Some x \<Longrightarrow> v = Some x \<Longrightarrow> holds env w P b (mk key) \<longleftrightarrow> Q x"
  shows "step_ok env w b (\<lambda>k. k = key) (pred_option Q v) s (add_value mk key v s)"
  using assms by (cases v) (auto simp: step_ok_def add_value_conditions add_value_get)

lemma step_matches:
  assumes "add_matches table al path ms s = Inr s'" and "forest_stored (port_table_of table w) a trees"
    and "\<And>x. al \<noteq> match_alias x" and "action_at b al = Some (a, r)"
  shows "step_ok env w b (owned path) (\<forall>m \<in> set (listed ms). some_port_matches env m trees) s s'"
proof -
  let ?build = "\<lambda>i m. build_match_exists m table al None (child_path path i)"
  from assms(1) obtain cs ps where t: "thread ?build 0 (listed ms) (snd s) = Inr (cs, ps)" and s': "s' = (fst s @ cs, ps)"
    by (auto simp: add_matches_def split: sum.splits)
  have "(\<forall>key. (\<forall>j \<ge> 0. \<not> owned (child_path path j) key) \<longrightarrow> dict_get ps key = dict_get (snd s) key) \<and>
    (\<forall>P. (\<forall>j \<ge> 0. \<forall>key. owned (child_path path j) key \<longrightarrow> dict_get P key = dict_get ps key) \<longrightarrow>
       list_all2 (\<lambda>m c. holds env w P b c \<longleftrightarrow> some_port_matches env m trees) (listed ms) cs)"
  proof (rule thread_sound [OF t, where own = "\<lambda>j. owned (child_path path j)"])
    fix i m ps0 c ps1
    assume "?build i m ps0 = Inr (c, ps1)"
    from build_root_sound [OF this assms(2,3), where env = env] assms(4)
    show "(\<forall>key. \<not> owned (child_path path i) key \<longrightarrow> dict_get ps1 key = dict_get ps0 key) \<and>
      (\<forall>P. (\<forall>key. owned (child_path path i) key \<longrightarrow> dict_get P key = dict_get ps1 key) \<longrightarrow>
         holds env w P b c \<longleftrightarrow> some_port_matches env m trees)" by blast
  qed (rule owned_disjoint)
  then have frame: "\<And>key. \<not> owned path key \<Longrightarrow> dict_get ps key = dict_get (snd s) key"
    and sem: "\<And>P. (\<forall>key. owned path key \<longrightarrow> dict_get P key = dict_get ps key) \<Longrightarrow>
      list_all2 (\<lambda>m c. holds env w P b c \<longleftrightarrow> some_port_matches env m trees) (listed ms) cs"
    using owned_child by blast+
  then show ?thesis
    unfolding step_ok_def s' by (auto intro!: exI [of _ cs] simp: list_all_all2 [OF sem])
qed

section \<open>One action demand\<close>

definition named :: "string option \<Rightarrow> string \<Rightarrow> bool" where
  "named s x \<longleftrightarrow> s = None \<or> s = Some [] \<or> s = Some x"

definition implements :: "world \<Rightarrow> action \<Rightarrow> string \<Rightarrow> bool" where
  "implements w a name \<longleftrightarrow>
     (\<exists>k \<in> set (ac_protocols a). case t_get (w_protocols w) k of Some p \<Rightarrow> pt_name p = name | None \<Rightarrow> False)"

text \<open>
  The reference: a hash decides alone; otherwise every criterion that is given must be met, the port
  matches against the port trees.
\<close>

definition demand_holds ::
    "'c env \<Rightarrow> world \<Rightarrow> action_demand \<Rightarrow> action \<Rightarrow> arg_port list \<Rightarrow> return_port list \<Rightarrow> bool" where
  "demand_holds env w d a args returns \<longleftrightarrow>
     (if ad_hash d \<noteq> None \<and> ad_hash d \<noteq> Some [] then ad_hash d = Some (ac_hash a)
      else
        named (ad_key d) (ac_key a) \<and> named (ad_app d) (app_identifier_of env (ac_app a)) \<and>
        named (ad_version d) (ac_version a) \<and> named (ad_name d) (ac_name a) \<and>
        (\<forall>m \<in> set (listed (ad_arg_matches d)). some_port_matches env m args) \<and>
        (\<forall>m \<in> set (listed (ad_return_matches d)). some_port_matches env m returns) \<and>
        pred_option (\<lambda>n. ac_arg_count a = n) (ad_force_arg_length d) \<and>
        pred_option (\<lambda>n. ac_return_count a = n) (ad_force_return_length d) \<and>
        (\<forall>name \<in> set (listed (ad_protocols d)). implements w a name) \<and>
        pred_option (\<lambda>v. ac_pure a = v) (ad_pure d) \<and>
        pred_option (\<lambda>v. ac_idempotent a = v) (ad_idempotent d) \<and>
        pred_option (\<lambda>v. ac_stateful a = v) (ad_stateful d))"

lemma given_cases: "given s = (if s = None \<or> s = Some [] then None else map_option V_str s)"
  by (auto simp: given_def split: option.split list.split)

lemma pred_given: "pred_option (\<lambda>v. V_str x = v) (given s) \<longleftrightarrow> named s x"
  by (cases s) (simp_all add: given_cases named_def eq_commute)

text \<open>The parameters of one demand.\<close>

definition demand_owned :: "string \<Rightarrow> string \<Rightarrow> bool" where
  "demand_owned prefix key \<longleftrightarrow>
     (\<exists>u x. key = u @ CHR ''_'' # x \<and> CHR ''_'' \<notin> set u \<and>
        (u = prefix \<and> x \<noteq> [] \<and> hd x \<noteq> CHR ''d'' \<or> (\<exists>r. x = prefix @ CHR ''_'' # r)))"

lemma demand_owned_disjoint:
  assumes "demand_owned (''d'' @ str_of_nat i) key" and "demand_owned (''d'' @ str_of_nat j) key"
  shows "i = j"
proof -
  let ?p = "\<lambda>i. CHR ''d'' # str_of_nat i"
  have no: "CHR ''_'' \<notin> set (?p i)" for i using digits_no_underscore by simp
  from assms(1) obtain u x where 1: "key = u @ CHR ''_'' # x" "CHR ''_'' \<notin> set u"
    "u = ?p i \<and> x \<noteq> [] \<and> hd x \<noteq> CHR ''d'' \<or> (\<exists>r. x = ?p i @ CHR ''_'' # r)"
    by (auto simp: demand_owned_def)
  from assms(2) obtain v y where 2: "key = v @ CHR ''_'' # y" "CHR ''_'' \<notin> set v"
    "v = ?p j \<and> y \<noteq> [] \<and> hd y \<noteq> CHR ''d'' \<or> (\<exists>r. y = ?p j @ CHR ''_'' # r)"
    by (auto simp: demand_owned_def)
  from 1(1) 2(1) have "u @ CHR ''_'' # x = v @ CHR ''_'' # y" by simp
  from split_first [OF this 1(2) 2(2)] have eq: "v = u" "y = x" by auto
  have "?p i = ?p j"
  proof (cases "\<exists>r. x = ?p i @ CHR ''_'' # r")
    case True
    then obtain r where r: "x = ?p i @ CHR ''_'' # r" by blast
    then have "hd x = CHR ''d''" by simp
    with 2(3) eq obtain r' where "x = ?p j @ CHR ''_'' # r'" by blast
    with r split_first [OF _ no no] show ?thesis by metis
  next
    case False
    with 1(3) have "u = ?p i" "hd x \<noteq> CHR ''d''" by auto
    moreover from this have "\<not> (\<exists>r. y = ?p j @ CHR ''_'' # r)" using eq by auto
    ultimately show ?thesis using 2(3) eq by simp
  qed
  then show ?thesis by simp
qed

lemma owned_demand: "owned (prefix @ CHR ''_'' # r) key \<Longrightarrow> demand_owned prefix key"
proof -
  assume "owned (prefix @ CHR ''_'' # r) key"
  then obtain f x where "key = param_key f ((prefix @ CHR ''_'' # r) @ x)" and f: "CHR ''_'' \<notin> set f"
    unfolding owned_def by blast
  then have "key = f @ CHR ''_'' # (prefix @ CHR ''_'' # (r @ x))" by (simp add: param_key_def)
  with f show ?thesis unfolding demand_owned_def by blast
qed

lemma key_demand:
  "CHR ''_'' \<notin> set prefix \<Longrightarrow> s \<noteq> [] \<Longrightarrow> hd s \<noteq> CHR ''d'' \<Longrightarrow> demand_owned prefix (prefix @ CHR ''_'' # s)"
  unfolding demand_owned_def by blast

text \<open>A parameter named by a word is not one of a match.\<close>

lemma key_not_owned:
  assumes "CHR ''_'' \<notin> set prefix" and "prefix \<noteq> []" and "hd prefix = CHR ''d''" and "hd s \<noteq> CHR ''d''"
  shows "\<not> owned (prefix @ r) (prefix @ CHR ''_'' # s)"
proof
  assume "owned (prefix @ r) (prefix @ CHR ''_'' # s)"
  then obtain f x where "prefix @ CHR ''_'' # s = param_key f ((prefix @ r) @ x)" and f: "CHR ''_'' \<notin> set f"
    unfolding owned_def by blast
  then have "prefix @ CHR ''_'' # s = f @ CHR ''_'' # (prefix @ r @ x)" by (simp add: param_key_def)
  from split_first [OF this assms(1) f] have "s = prefix @ r @ x" by simp
  with assms(2,3,4) show False by simp
qed

lemma step_then_value:
  assumes "step_ok env w b K R s s1" and "\<not> K key"
    and "\<And>P x. dict_get P key = Some x \<Longrightarrow> v = Some x \<Longrightarrow> holds env w P b (mk key) \<longleftrightarrow> Q x"
  shows "step_ok env w b (\<lambda>k. K k \<or> k = key) (R \<and> pred_option Q v) s (add_value mk key v s1)"
  by (rule step_trans [OF assms(1) step_value]) (use assms(2,3) in auto)

lemma step_then_matches:
  assumes "step_ok env w b K R s s1" and "\<And>key. K key \<Longrightarrow> \<not> owned path key"
    and "add_matches table al path ms s1 = Inr s2" and "forest_stored (port_table_of table w) a trees"
    and "\<And>x. al \<noteq> match_alias x" and "action_at b al = Some (a, r)"
  shows "step_ok env w b (\<lambda>k. K k \<or> owned path k) (R \<and> (\<forall>m \<in> set (listed ms). some_port_matches env m trees)) s s2"
  by (rule step_trans [OF assms(1) step_matches [OF assms(3-6)] assms(2)])

lemma protocol_condition:
  assumes "action_at b al = Some (k, a)" and "dict_get P key = Some (V_str name)"
  shows "holds env w P b (Action_protocol al key) \<longleftrightarrow> implements w a name"
proof -
  have "(case t_get (w_protocols w) k of Some p \<Rightarrow> V_str (pt_name p) = V_str name | None \<Rightarrow> False) =
      (case t_get (w_protocols w) k of Some p \<Rightarrow> pt_name p = name | None \<Rightarrow> False)" for k
    by (simp split: option.split)
  with assms show ?thesis by (simp add: implements_def list_ex_iff)
qed

lemma step_then_protocols:
  assumes "step_ok env w b K R s s1" and "action_at b al = Some (k, a)"
    and "\<And>j. \<not> K (prefix @ ''_protocol_'' @ str_of_nat j)"
  shows "step_ok env w b (\<lambda>key. K key \<or> (\<exists>j. key = prefix @ ''_protocol_'' @ str_of_nat j))
    (R \<and> (\<forall>name \<in> set names. implements w a name)) s
    (fold (\<lambda>(i, name). add_value (Action_protocol al) (prefix @ ''_protocol_'' @ str_of_nat i) (Some (V_str name)))
       (enumerate n names) s1)"
proof -
  let ?key = "\<lambda>j. prefix @ ''_protocol_'' @ str_of_nat j"
  let ?loop = "\<lambda>n names. fold (\<lambda>(i, name). add_value (Action_protocol al) (?key i) (Some (V_str name))) (enumerate n names)"
  have "step_ok env w b (\<lambda>key. K key \<or> (\<exists>j \<ge> n. key = ?key j)) (R \<and> (\<forall>name \<in> set names. implements w a name)) s
      (?loop n names s1)"
    if "step_ok env w b K R s s1" "\<And>j. n \<le> j \<Longrightarrow> \<not> K (?key j)" for K R s1
    using that
  proof (induction names arbitrary: n s1 K R)
    case Nil
    from Nil.prems(1) show ?case by (simp, rule step_weaken) auto
  next
    case (Cons name names)
    let ?s2 = "add_value (Action_protocol al) (?key n) (Some (V_str name)) s1"
    have "step_ok env w b (\<lambda>k. K k \<or> k = ?key n) (R \<and> pred_option (\<lambda>v. implements w a name) (Some (V_str name))) s ?s2"
      by (rule step_then_value [OF Cons.prems(1)]) (use Cons.prems(2) protocol_condition [OF assms(2)] in auto)
    then have "step_ok env w b (\<lambda>key. (K key \<or> key = ?key n) \<or> (\<exists>j \<ge> Suc n. key = ?key j))
        ((R \<and> pred_option (\<lambda>v. implements w a name) (Some (V_str name))) \<and> (\<forall>name \<in> set names. implements w a name)) s
        (?loop (Suc n) names ?s2)"
      by (rule Cons.IH) (use Cons.prems(2) in auto)
    then have "step_ok env w b (\<lambda>key. K key \<or> (\<exists>j \<ge> n. key = ?key j)) (R \<and> (\<forall>name \<in> set (name # names). implements w a name)) s
        (?loop (Suc n) names ?s2)"
      by (rule step_weaken) (auto intro: Suc_leD)
    then show ?case by simp
  qed
  from this [OF assms(1,3)] show ?thesis by (rule step_weaken) auto
qed

lemma pred_int: "pred_option (\<lambda>x. V_int n = x) (map_option V_int v) \<longleftrightarrow> pred_option (\<lambda>m. n = m) v"
  by (cases v) auto

lemma pred_bool: "pred_option (\<lambda>x. V_bool n = x) (map_option V_bool v) \<longleftrightarrow> pred_option (\<lambda>m. n = m) v"
  by (cases v) auto

lemma step_action:
  assumes "step_ok env w b K R s s1" and "action_at b al = Some (k, a)" and "\<not> K key"
  shows "step_ok env w b (\<lambda>k. K k \<or> k = key) (R \<and> pred_option (\<lambda>x. action_value c a = x) v) s
    (add_value (Action_is al c) key v s1)"
  by (rule step_then_value [OF assms(1,3)]) (use assms(2) in simp)

lemma step_app:
  assumes "step_ok env w b K R s s1" and "action_at b al = Some (k, a)" and "\<not> K key"
  shows "step_ok env w b (\<lambda>k. K k \<or> k = key)
    (R \<and> pred_option (\<lambda>x. V_str (app_identifier_of env (ac_app a)) = x) v) s (add_value (Action_app al) key v s1)"
  by (rule step_then_value [OF assms(1,3)]) (use assms(2) in simp)

lemma clauses_sound:
  assumes built: "action_demand_clauses d al prefix ps = Inr s'" and prefix: "prefix = ''d'' @ str_of_nat i"
    and trees: "forest_stored (w_arg_ports w) k args" "forest_stored (w_return_ports w) k returns"
    and al: "\<And>x. al \<noteq> match_alias x" and at: "action_at b al = Some (k, a)"
  shows "step_ok env w b (demand_owned prefix) (demand_holds env w d a args returns) ([], ps) s'"
proof -
  have no: "CHR ''_'' \<notin> set prefix" and d: "prefix \<noteq> []" "hd prefix = CHR ''d''"
    using digits_no_underscore by (simp_all add: prefix)
  note key = key_demand [OF no] and free = key_not_owned [OF no d]
  have val: "holds env w P b (Action_is al c key) \<longleftrightarrow> action_value c a = x" if "dict_get P key = Some x" for P c key x
    using that at by simp
  have app: "holds env w P b (Action_app al key) \<longleftrightarrow> V_str (app_identifier_of env (ac_app a)) = x" if "dict_get P key = Some x" for P key x
    using that at by simp
  show ?thesis
  proof (cases "given (ad_hash d)")
    case (Some h)
    with built have s': "s' = add_value (Action_is al A_hash) (prefix @ ''_hash'') (given (ad_hash d)) ([], ps)"
      by (simp add: action_demand_clauses_def add_value_conditions split: if_splits)
    have "pred_option (\<lambda>x. action_value A_hash a = x) (given (ad_hash d)) \<longleftrightarrow> demand_holds env w d a args returns"
      using Some by (auto simp: demand_holds_def given_cases named_def split: if_splits)
    then show ?thesis
      unfolding s' by (intro step_weaken [OF step_value [where Q = "\<lambda>x. action_value A_hash a = x"]])
        (use val key [of "''hash''"] in auto)
  next
    case None
    let ?s1 = "add_value (Action_is al A_key) (prefix @ ''_key'') (given (ad_key d)) ([], ps)"
    let ?s2 = "add_value (Action_app al) (prefix @ ''_app'') (given (ad_app d)) ?s1"
    let ?s3 = "add_value (Action_is al A_version) (prefix @ ''_version'') (given (ad_version d)) ?s2"
    let ?s4 = "add_value (Action_is al A_name) (prefix @ ''_name'') (given (ad_name d)) ?s3"
    let ?s7 = "\<lambda>s. add_value (Action_is al A_arg_count) (prefix @ ''_force_arg_length'') (map_option V_int (ad_force_arg_length d)) s"
    let ?s8 = "\<lambda>s. add_value (Action_is al A_return_count) (prefix @ ''_force_return_length'') (map_option V_int (ad_force_return_length d)) (?s7 s)"
    let ?s9 = "\<lambda>s. fold (\<lambda>(i, name). add_value (Action_protocol al) (prefix @ ''_protocol_'' @ str_of_nat i) (Some (V_str name)))
        (enumerate 0 (listed (ad_protocols d))) (?s8 s)"
    let ?s10 = "\<lambda>s. add_value (Action_is al A_pure) (prefix @ ''_pure'') (map_option V_bool (ad_pure d)) (?s9 s)"
    let ?s11 = "\<lambda>s. add_value (Action_is al A_idempotent) (prefix @ ''_idempotent'') (map_option V_bool (ad_idempotent d)) (?s10 s)"
    from built None obtain s5 s6 where args: "add_matches D_ARGS al (prefix @ ''_arg'') (ad_arg_matches d) ?s4 = Inr s5"
      and rets: "add_matches D_RETURNS al (prefix @ ''_ret'') (ad_return_matches d) s5 = Inr s6"
      and s': "s' = add_value (Action_is al A_stateful) (prefix @ ''_stateful'') (map_option V_bool (ad_stateful d)) (?s11 s6)"
      by (auto simp: action_demand_clauses_def Let_def split: sum.splits if_splits)
    have trees': "forest_stored (port_table_of D_ARGS w) k args" "forest_stored (port_table_of D_RETURNS w) k returns"
      using trees by simp_all
    have o: "\<not> owned (prefix @ ''_arg'') (prefix @ CHR ''_'' # s)" "\<not> owned (prefix @ ''_ret'') (prefix @ CHR ''_'' # s)"
      if "hd s \<noteq> CHR ''d''" for s using free [OF that] by auto
    have apart: "\<not> owned (prefix @ ''_ret'') x" if "owned (prefix @ ''_arg'') x" for x
    proof
      assume "owned (prefix @ ''_ret'') x"
      then obtain f r where f: "x = param_key f ((prefix @ ''_ret'') @ r)" "CHR ''_'' \<notin> set f" unfolding owned_def by blast
      from that obtain g r' where g: "x = param_key g ((prefix @ ''_arg'') @ r')" "CHR ''_'' \<notin> set g" unfolding owned_def by blast
      from param_key_split [of f _ g] f g have "(prefix @ ''_ret'') @ r = (prefix @ ''_arg'') @ r'" by metis
      then show False by simp
    qed
    let ?R = "\<lambda>c v. pred_option (\<lambda>x. action_value c a = x) v"
    have 0: "step_ok env w b (\<lambda>_. False) True ([], ps) ([], ps)" by (rule step_refl)
    note 1 = step_action [OF 0 at, of "prefix @ ''_key''" A_key "given (ad_key d)"]
    note 2 = step_app [OF 1 at, of "prefix @ ''_app''" "given (ad_app d)"]
    note 3 = step_action [OF 2 at, of "prefix @ ''_version''" A_version "given (ad_version d)"]
    note 4 = step_action [OF 3 at, of "prefix @ ''_name''" A_name "given (ad_name d)"]
    note 5 = step_then_matches [OF 4 _ args trees'(1) al at]
    note 6 = step_then_matches [OF 5 _ rets trees'(2) al at]
    note 7 = step_action [OF 6 at, of "prefix @ ''_force_arg_length''" A_arg_count "map_option V_int (ad_force_arg_length d)"]
    note 8 = step_action [OF 7 at, of "prefix @ ''_force_return_length''" A_return_count "map_option V_int (ad_force_return_length d)"]
    note 9 = step_then_protocols [OF 8 at, of prefix "listed (ad_protocols d)" 0]
    note 10 = step_action [OF 9 at, of "prefix @ ''_pure''" A_pure "map_option V_bool (ad_pure d)"]
    note 11 = step_action [OF 10 at, of "prefix @ ''_idempotent''" A_idempotent "map_option V_bool (ad_idempotent d)"]
    note 12 = step_action [OF 11 at, of "prefix @ ''_stateful''" A_stateful "map_option V_bool (ad_stateful d)"]
    have hash: "ad_hash d = None \<or> ad_hash d = Some []"
      using None by (auto simp: given_cases split: if_splits)
    show ?thesis
      unfolding s'
    proof (rule step_weaken [OF 12])
    qed (use apart o owned_demand key hash in \<open>auto simp: demand_holds_def pred_given pred_int pred_bool\<close>)
  qed
qed

section \<open>Several demands at once\<close>

text \<open>The port tables hold, for every action, the trees \<open>args\<close> and \<open>returns\<close> give.\<close>

definition catalogue_ok :: "world \<Rightarrow> (nat \<Rightarrow> arg_port list) \<Rightarrow> (nat \<Rightarrow> return_port list) \<Rightarrow> bool" where
  "catalogue_ok w args returns \<longleftrightarrow>
     (\<forall>(k, a) \<in> set (rows (w_actions w)).
        forest_stored (w_arg_ports w) k (args k) \<and> forest_stored (w_return_ports w) k (returns k))"

lemma a_not_alias: "''a'' \<noteq> match_alias x"
  by (simp add: match_alias_def)

lemma demand_select_sound:
  assumes "demand_select org i d ps = Inr (cs, ps')" and "catalogue_ok w args returns"
  shows "(\<forall>key. \<not> demand_owned (''d'' @ str_of_nat i) key \<longrightarrow> dict_get ps' key = dict_get ps key) \<and>
    (\<forall>P. (\<forall>key. demand_owned (''d'' @ str_of_nat i) key \<longrightarrow> dict_get P key = dict_get ps' key) \<longrightarrow>
       (org = None \<or> dict_get P ''org'' = map_option (\<lambda>n. V_int (int n)) org) \<longrightarrow>
       (\<forall>(k, a) \<in> set (rows (w_actions w)).
          list_all (holds env w P [(''a'', B_action k a)]) cs \<longleftrightarrow>
          pred_option (\<lambda>n. ac_organization a = n) org \<and> demand_holds env w d a (args k) (returns k)))"
proof -
  from assms(1) obtain cs' where built: "action_demand_clauses d ''a'' (''d'' @ str_of_nat i) ps = Inr (cs', ps')"
    and cs: "cs = (if org \<noteq> None then Action_is ''a'' A_organization_id ''org'' # cs' else cs')"
    by (auto simp: demand_select_def split: sum.splits)
  have step: "step_ok env w [(''a'', B_action k a)] (demand_owned (''d'' @ str_of_nat i))
      (demand_holds env w d a (args k) (returns k)) ([], ps) (cs', ps')" if "(k, a) \<in> set (rows (w_actions w))" for k a
    using assms(2) that
    by (intro clauses_sound [OF built refl, where k = k]) (auto simp: catalogue_ok_def a_not_alias action_at_Cons)
  have "step_ok env empty_world [(''a'', B_action 0 (undefined :: action))] (demand_owned (''d'' @ str_of_nat i))
      (demand_holds env empty_world d undefined [] []) ([], ps) (cs', ps')"
    by (intro clauses_sound [OF built refl, where k = 0])
      (auto simp: a_not_alias action_at_Cons forest_stored_def roots_def t_filter_def empty_world_def t_empty_def)
  then have "\<forall>key. \<not> demand_owned (''d'' @ str_of_nat i) key \<longrightarrow> dict_get ps' key = dict_get ps key"
    by (auto simp: step_ok_def)
  moreover have "list_all (holds env w P [(''a'', B_action k a)]) cs \<longleftrightarrow>
      pred_option (\<lambda>n. ac_organization a = n) org \<and> demand_holds env w d a (args k) (returns k)"
    if P: "\<forall>key. demand_owned (''d'' @ str_of_nat i) key \<longrightarrow> dict_get P key = dict_get ps' key"
      and org: "org = None \<or> dict_get P ''org'' = map_option (\<lambda>n. V_int (int n)) org"
      and k: "(k, a) \<in> set (rows (w_actions w))" for P k a
  proof -
    from step [OF k] P have "list_all (holds env w P [(''a'', B_action k a)]) cs' \<longleftrightarrow> demand_holds env w d a (args k) (returns k)"
      by (auto simp: step_ok_def)
    with org show ?thesis by (cases org) (auto simp: cs action_at_Cons)
  qed
  ultimately show ?thesis by blast
qed

lemma hand_out_nth:
  "(\<forall>x \<in> set found. fst x < length results) \<Longrightarrow>
   length (hand_out found results) = length results \<and>
   (\<forall>i < length results. hand_out found results ! i = results ! i @ map snd (filter (\<lambda>x. fst x = i) found))"
proof (induction found arbitrary: results)
  case Nil
  then show ?case by (simp add: hand_out_def)
next
  case (Cons x found)
  let ?r = "results[fst x := results ! fst x @ [snd x]]"
  have "hand_out (x # found) results = hand_out found ?r" by (cases x) (simp add: hand_out_def)
  moreover have "\<forall>y \<in> set found. fst y < length ?r" using Cons.prems by simp
  ultimately show ?case using Cons.IH [of ?r] Cons.prems by (auto simp: nth_list_update)
qed

lemma filter_tagged:
  "i < length xs \<Longrightarrow> map snd (filter (\<lambda>x. fst x = i + n) (concat (map (\<lambda>(i, y). map (Pair i) (f y)) (enumerate n xs)))) = f (xs ! i)"
proof (induction xs arbitrary: i n)
  case (Cons y xs)
  have later: "filter (\<lambda>x. fst x = m) (concat (map (\<lambda>(i, y). map (Pair i) (f y)) (enumerate k xs))) = []" if "m < k" for m k
    using that by (auto simp: filter_empty_conv in_set_enumerate_eq)
  show ?case
  proof (cases i)
    case 0
    then show ?thesis using later [of n "Suc n"] by (simp add: filter_map o_def)
  next
    case (Suc j)
    then have "filter (\<lambda>x. fst x = i + n) (map (Pair n) (f y)) = []" by (auto simp: filter_empty_conv)
    with Cons Suc show ?thesis by (simp add: Cons.IH [of j "Suc n", simplified])
  qed
qed simp

definition answers :: "'c env \<Rightarrow> world \<Rightarrow> nat option \<Rightarrow> (nat \<Rightarrow> arg_port list) \<Rightarrow> (nat \<Rightarrow> return_port list) \<Rightarrow> action_demand \<Rightarrow> nat list" where
  "answers env w org args returns d =
     map fst (filter (\<lambda>(k, a). pred_option (\<lambda>n. ac_organization a = n) org \<and> demand_holds env w d a (args k) (returns k))
       (rows (w_actions w)))"

lemma demands_answered:
  assumes "get_action_ids_by_action_demands env w demands org = Inr results" and "catalogue_ok w args returns"
  shows "results = map (answers env w org args returns) demands"
proof -
  let ?ps = "case org of None \<Rightarrow> [] | Some n \<Rightarrow> dict_set ''org'' (V_int (int n)) []"
  from assms(1) obtain selects ps where t: "thread (demand_select org) 0 demands ?ps = Inr (selects, ps)"
    and results: "results = (if selects = [] then [] else
      hand_out (concat (map (\<lambda>(i, cs). map (Pair i) (execute_ids env w (cs, ps))) (enumerate 0 selects))) (map (\<lambda>_. []) demands))"
    by (auto simp: get_action_ids_by_action_demands_def split: sum.splits if_splits)
  let ?S = "\<lambda>P d cs. (org = None \<or> dict_get P ''org'' = map_option (\<lambda>n. V_int (int n)) org) \<longrightarrow>
       (\<forall>(k, a) \<in> set (rows (w_actions w)).
          list_all (holds env w P [(''a'', B_action k a)]) cs \<longleftrightarrow>
          pred_option (\<lambda>n. ac_organization a = n) org \<and> demand_holds env w d a (args k) (returns k))"
  have sound: "(\<forall>key. (\<forall>j \<ge> 0. \<not> demand_owned (''d'' @ str_of_nat j) key) \<longrightarrow> dict_get ps key = dict_get ?ps key) \<and>
    (\<forall>P. (\<forall>j \<ge> 0. \<forall>key. demand_owned (''d'' @ str_of_nat j) key \<longrightarrow> dict_get P key = dict_get ps key) \<longrightarrow>
       list_all2 (?S P) demands selects)"
    by (rule thread_sound [OF t, where own = "\<lambda>j. demand_owned (''d'' @ str_of_nat j)"])
      (use demand_select_sound [OF _ assms(2), where env = env] in blast, rule demand_owned_disjoint)
  have "\<not> demand_owned (''d'' @ str_of_nat j) ''org''" for j
  proof
    assume "demand_owned (''d'' @ str_of_nat j) ''org''"
    then obtain u x where "''org'' = u @ CHR ''_'' # x" unfolding demand_owned_def by blast
    then have "CHR ''_'' \<in> set ''org''" by (metis in_set_conv_decomp)
    then show False by simp
  qed
  with sound have org: "org = None \<or> dict_get ps ''org'' = map_option (\<lambda>n. V_int (int n)) org"
    by (cases org) simp_all
  from sound have "list_all2 (?S ps) demands selects" by blast
  then have each: "list_all2 (\<lambda>d cs. execute_ids env w (cs, ps) = answers env w org args returns d) demands selects"
  proof (rule list_all2_mono)
    fix d cs
    assume "?S ps d cs"
    with org have "\<forall>(k, a) \<in> set (rows (w_actions w)).
          list_all (holds env w ps [(''a'', B_action k a)]) cs \<longleftrightarrow>
          pred_option (\<lambda>n. ac_organization a = n) org \<and> demand_holds env w d a (args k) (returns k)" by blast
    then show "execute_ids env w (cs, ps) = answers env w org args returns d"
      by (auto simp: execute_ids_def answers_def intro!: arg_cong [where f = "map fst"] filter_cong)
  qed
  then have len: "length selects = length demands" by (simp add: list_all2_lengthD)
  let ?found = "concat (map (\<lambda>(i, cs). map (Pair i) (execute_ids env w (cs, ps))) (enumerate 0 selects))"
  have "\<forall>x \<in> set ?found. fst x < length (map (\<lambda>_. [] :: nat list) demands)"
    by (auto simp: len in_set_enumerate_eq)
  note out = hand_out_nth [OF this]
  show ?thesis
  proof (cases "selects = []")
    case True
    with len show ?thesis by (simp add: results)
  next
    case False
    show ?thesis
    proof (rule nth_equalityI)
      show "length results = length (map (answers env w org args returns) demands)"
        using out False by (simp add: results)
      fix i
      assume "i < length results"
      then have i: "i < length demands" using out False by (simp add: results)
      have "results ! i = map snd (filter (\<lambda>x. fst x = i) ?found)" using out i False by (simp add: results)
      also have "\<dots> = execute_ids env w (selects ! i, ps)"
        using filter_tagged [of i selects 0 "\<lambda>cs. execute_ids env w (cs, ps)"] i len by simp
      also have "\<dots> = answers env w org args returns (demands ! i)" using each i by (simp add: list_all2_conv_all_nth)
      finally show "results ! i = map (answers env w org args returns) demands ! i" using i by simp
    qed
  qed
qed

section \<open>Which demands are accepted\<close>

definition root_ok :: "port_match \<Rightarrow> bool" where
  "root_ok m \<longleftrightarrow> match_descriptors m = [] \<or> has_structural_narrowing m"

lemma thread_total:
  assumes "\<And>i x s. x \<in> set xs \<Longrightarrow> (\<exists>r. f i x s = Inr r) \<longleftrightarrow> Q x"
  shows "(\<exists>r. thread f i xs s = Inr r) \<longleftrightarrow> (\<forall>x \<in> set xs. Q x)"
  using assms
proof (induction xs arbitrary: i s)
  case (Cons x xs)
  have IH: "(\<exists>r. thread f i xs s = Inr r) \<longleftrightarrow> (\<forall>x \<in> set xs. Q x)" for i s
    by (rule Cons.IH) (use Cons.prems in auto)
  have x: "(\<exists>r. f i x s = Inr r) \<longleftrightarrow> Q x" by (rule Cons.prems) simp
  show ?case
  proof (cases "f i x s")
    case (Inl e)
    with x show ?thesis by simp
  next
    case (Inr r)
    obtain y s1 where "r = (y, s1)" by (cases r)
    with Inr x IH [of "Suc i" s1] show ?thesis by (auto split: sum.splits)
  qed
qed simp

lemma thread_length: "thread f i xs s = Inr (ys, s') \<Longrightarrow> length ys = length xs"
  by (induction xs arbitrary: i s ys) (auto split: sum.splits)

lemma build_total:
  "(\<exists>r. build_match_exists m table al parent path ps = Inr r) \<longleftrightarrow> parent \<noteq> None \<or> root_ok m"
proof (induction m table al parent path ps rule: build_match_exists.induct)
  case (1 m table al parent path ps)
  show ?case
  proof (cases "parent = None \<and> \<not> root_ok m")
    case True
    then show ?thesis by (subst build_match_exists.simps) (simp add: root_ok_def Let_def)
  next
    case False
    let ?s2 = "add_object (match_alias path) path (match_descriptors m)
      (fold (add_field (match_alias path) path) (match_fields m) (correlate (match_alias path) al parent, ps))"
    let ?build = "\<lambda>i child. build_match_exists child table al (Some (match_alias path)) (child_path path i)"
    from False have narrow: "\<not> (match_descriptors m \<noteq> [] \<and> parent = None \<and> \<not> has_structural_narrowing m)"
      by (auto simp: root_ok_def)
    have "(\<exists>r. thread ?build 0 (match_children m) (snd ?s2) = Inr r) \<longleftrightarrow> (\<forall>c \<in> set (match_children m). True)"
    proof (rule thread_total)
      fix i child s
      assume "child \<in> set (match_children m)"
      from "1.IH" [OF refl refl narrow surjective_pairing [symmetric] this]
      show "(\<exists>r. ?build i child s = Inr r) \<longleftrightarrow> True" by simp
    qed
    then obtain r where "thread ?build 0 (match_children m) (snd ?s2) = Inr r" by auto
    with narrow False show ?thesis
      by (subst build_match_exists.simps) (cases r, auto simp: Let_def split_def)
  qed
qed

lemma add_matches_total: "(\<exists>s'. add_matches table al path ms s = Inr s') \<longleftrightarrow> (\<forall>m \<in> set (listed ms). root_ok m)"
proof -
  have "(\<exists>s'. add_matches table al path ms s = Inr s') \<longleftrightarrow>
      (\<exists>r. thread (\<lambda>i m. build_match_exists m table al None (child_path path i)) 0 (listed ms) (snd s) = Inr r)"
    by (auto simp: add_matches_def split: sum.splits prod.splits)
  also have "\<dots> \<longleftrightarrow> (\<forall>m \<in> set (listed ms). root_ok m)"
    by (rule thread_total) (simp only: build_total simp_thms)
  finally show ?thesis .
qed

lemma add_matches_none: "add_matches table al path ms s = Inr s' \<Longrightarrow> fst s' = [] \<longleftrightarrow> fst s = [] \<and> listed ms = []"
  by (auto simp: add_matches_def split: sum.splits dest!: thread_length)

lemma add_value_none: "fst (add_value mk key v s) = [] \<longleftrightarrow> fst s = [] \<and> v = None"
  by (simp add: add_value_conditions split: option.split)

lemma protocols_none:
  "fst (fold (\<lambda>(i, name). add_value (mk i) (key i) (Some (V_str name))) xs s) = [] \<longleftrightarrow> fst s = [] \<and> xs = []"
  by (induction xs arbitrary: s) (auto simp: add_value_none)

text \<open>A demand must name a criterion, and no root match may have descriptors as its only one.\<close>

definition demand_ok :: "action_demand \<Rightarrow> bool" where
  "demand_ok d \<longleftrightarrow>
     given (ad_hash d) \<noteq> None \<or>
     (\<forall>m \<in> set (listed (ad_arg_matches d)). root_ok m) \<and> (\<forall>m \<in> set (listed (ad_return_matches d)). root_ok m) \<and>
     \<not> (given (ad_key d) = None \<and> given (ad_app d) = None \<and> given (ad_version d) = None \<and> given (ad_name d) = None \<and>
        listed (ad_arg_matches d) = [] \<and> listed (ad_return_matches d) = [] \<and>
        ad_force_arg_length d = None \<and> ad_force_return_length d = None \<and> listed (ad_protocols d) = [] \<and>
        ad_pure d = None \<and> ad_idempotent d = None \<and> ad_stateful d = None)"

lemma clauses_total: "(\<exists>r. action_demand_clauses d al prefix ps = Inr r) \<longleftrightarrow> demand_ok d"
proof (cases "given (ad_hash d)")
  case (Some h)
  then show ?thesis by (simp add: action_demand_clauses_def demand_ok_def add_value_none)
next
  case None
  let ?s4 = "add_value (Action_is al A_name) (prefix @ ''_name'') (given (ad_name d))
    (add_value (Action_is al A_version) (prefix @ ''_version'') (given (ad_version d))
      (add_value (Action_app al) (prefix @ ''_app'') (given (ad_app d))
        (add_value (Action_is al A_key) (prefix @ ''_key'') (given (ad_key d)) ([], ps))))"
  show ?thesis
  proof (cases "add_matches D_ARGS al (prefix @ ''_arg'') (ad_arg_matches d) ?s4")
    case (Inl e)
    then have "\<not> (\<forall>m \<in> set (listed (ad_arg_matches d)). root_ok m)"
      using add_matches_total [of D_ARGS al "prefix @ ''_arg''" "ad_arg_matches d" ?s4] by simp
    with None Inl show ?thesis by (simp add: action_demand_clauses_def demand_ok_def Let_def)
  next
    case 5: (Inr s5)
    then have args: "\<forall>m \<in> set (listed (ad_arg_matches d)). root_ok m"
      using add_matches_total [of D_ARGS al "prefix @ ''_arg''" "ad_arg_matches d" ?s4] by blast
    show ?thesis
    proof (cases "add_matches D_RETURNS al (prefix @ ''_ret'') (ad_return_matches d) s5")
      case (Inl e)
      then have "\<not> (\<forall>m \<in> set (listed (ad_return_matches d)). root_ok m)"
        using add_matches_total [of D_RETURNS al "prefix @ ''_ret''" "ad_return_matches d" s5] by simp
      with None 5 Inl show ?thesis by (simp add: action_demand_clauses_def demand_ok_def Let_def)
    next
      case 6: (Inr s6)
      then have rets: "\<forall>m \<in> set (listed (ad_return_matches d)). root_ok m"
        using add_matches_total [of D_RETURNS al "prefix @ ''_ret''" "ad_return_matches d" s5] by blast
      have "enumerate 0 (listed (ad_protocols d)) = [] \<longleftrightarrow> listed (ad_protocols d) = []"
        by (metis length_0_conv length_enumerate)
      with None 5 6 args rets show ?thesis
        by (simp add: action_demand_clauses_def demand_ok_def Let_def add_value_none add_matches_none [OF 5]
            add_matches_none [OF 6] protocols_none [of "\<lambda>_. Action_protocol al"])
    qed
  qed
qed

lemma demands_total:
  "(\<exists>results. get_action_ids_by_action_demands env w demands org = Inr results) \<longleftrightarrow> (\<forall>d \<in> set demands. demand_ok d)"
proof -
  let ?ps = "case org of None \<Rightarrow> [] | Some n \<Rightarrow> dict_set ''org'' (V_int (int n)) []"
  have "(\<exists>results. get_action_ids_by_action_demands env w demands org = Inr results) \<longleftrightarrow>
      (\<exists>r. thread (demand_select org) 0 demands ?ps = Inr r)"
    by (auto simp: get_action_ids_by_action_demands_def split: sum.splits prod.splits)
  also have "\<dots> \<longleftrightarrow> (\<forall>d \<in> set demands. demand_ok d)"
  proof (rule thread_total)
    fix i d s
    show "(\<exists>r. demand_select org i d s = Inr r) \<longleftrightarrow> demand_ok d"
      unfolding clauses_total [of d "''a''" "''d'' @ str_of_nat i" s, symmetric]
      by (auto simp: demand_select_def split: sum.splits prod.splits)
  qed
  finally show ?thesis .
qed


definition images_action :: action where
  "images_action =
     \<lparr>ac_app = 1, ac_key = ''stitch'', ac_version = ''1'', ac_pure = False, ac_idempotent = True, ac_stateful = False,
      ac_kind = FUNCTION, ac_name = ''Stitch'', ac_description = ''No description'', ac_scope = GLOBAL, ac_is_dev = False,
      ac_hash = ''h'', ac_organization = 3, ac_args = [], ac_returns = [], ac_port_groups = [], ac_collections = [],
      ac_is_test_for = [], ac_protocols = [], ac_arg_count = 0, ac_return_count = 0\<rparr>"

definition images_world :: world where
  "images_world = snd (rebuild_relational_ports 1 images_definition (empty_world\<lparr>w_actions := t_add images_action t_empty\<rparr>))"

definition images_demand :: action_demand where
  "images_demand =
     \<lparr>ad_hash = None, ad_key = None, ad_app = None, ad_version = None, ad_name = None,
      ad_arg_matches = Some [PortMatch (Some 0) None None None None None None
        (Some [PortMatch None None (Some P_LIST) None None None None
          (Some [PortMatch None None None (Some ''@mikro/image'') None None None None])])],
      ad_return_matches = None, ad_protocols = None, ad_force_arg_length = Some 2, ad_force_return_length = None,
      ad_pure = None, ad_idempotent = Some True, ad_stateful = None\<rparr>"


section \<open>Positional parameters\<close>

text \<open>
  What a database driver makes of the two forms of a statement: a named placeholder is replaced by
  the value under its name, a positional one by the next value of the sequence.
\<close>

fun fill_named :: "(sql_value \<Rightarrow> string) \<Rightarrow> params \<Rightarrow> piece list \<Rightarrow> string option" where
  "fill_named quote ps [] = Some []"
| "fill_named quote ps (Text c # xs) = map_option ((#) c) (fill_named quote ps xs)"
| "fill_named quote ps (Named k # xs) =
     (case dict_get ps k of None \<Rightarrow> None | Some v \<Rightarrow> map_option ((@) (quote v)) (fill_named quote ps xs))"

fun fill_positional :: "(sql_value \<Rightarrow> string) \<Rightarrow> string \<Rightarrow> sql_value list \<Rightarrow> string option" where
  "fill_positional quote [] vs = (if vs = [] then Some [] else None)"
| "fill_positional quote (c # cs) vs =
     (if c = CHR ''%'' then
        (case cs of
           [] \<Rightarrow> None
         | d # ds \<Rightarrow>
             (if d = CHR ''s'' then
                (case vs of [] \<Rightarrow> None | v # us \<Rightarrow> map_option ((@) (quote v)) (fill_positional quote ds us))
              else None))
      else map_option ((#) c) (fill_positional quote cs vs))"

lemma fill_equal:
  assumes "map_outcome (\<lambda>k. case dict_get ps k of None \<Rightarrow> Inl (KeyError k) | Some v \<Rightarrow> Inr v) (named_keys xs) = Inr vs"
    and "Text (CHR ''%'') \<notin> set xs"
  shows "fill_positional quote (to_positional_text xs) vs = fill_named quote ps xs"
  using assms
  by (induction xs arbitrary: vs rule: named_keys.induct) (auto split: option.splits sum.splits)


definition force_demand :: port_demand where
  "force_demand = \<lparr>pd_kind = D_ARGS, pd_matches = None, pd_force_length = Some 2,
     pd_force_non_nullable_length = None, pd_force_structure_length = Some 1\<rparr>"


end
