(* ===== verification/Json_Scan.thy ===== *)
theory Json_Scan
  imports Matching
begin

text \<open>
  The scanner of \<^verbatim>\<open>facade/managers.py\<close> for tables that keep their ports as a JSON array and have no port
  rows (state definitions and shortcuts), and the filter a state demand becomes. A match is an
  \<^verbatim>\<open>EXISTS\<close> over the elements of the array, numbered from 1; as in \<open>Matching\<close>, \<open>scan_text\<close> gives the
  text of a condition and \<open>scan_holds\<close> its meaning.
\<close>

section \<open>Conditions\<close>

datatype scan_field = F_key | F_kind | F_identifier

fun field_name :: "scan_field \<Rightarrow> string" where
  "field_name F_key = ''key''"
| "field_name F_kind = ''kind''"
| "field_name F_identifier = ''identifier''"

datatype scan =
    Item_at string
  | Item_is scan_field string
  | Child_is nat scan_field string

datatype array_condition =
    Some_item string "scan list"
  | Array_length string int
  | Count_not_nullable string int
  | Count_structure string int

definition quoted :: "string \<Rightarrow> string" where
  "quoted s = CHR 0x27 # s @ [CHR 0x27]"

fun scan_text :: "scan \<Rightarrow> string" where
  "scan_text (Item_at p) = ''idx = '' @ placeholder p"
| "scan_text (Item_is f p) = ''item->>'' @ quoted (field_name f) @ '' = '' @ placeholder p"
| "scan_text (Child_is n f p) =
     ''item->'' @ quoted ''children'' @ ''->'' @ str_of_nat n @ ''->>'' @ quoted (field_name f) @ '' = '' @ placeholder p"

fun array_text :: "array_condition \<Rightarrow> string" where
  "array_text (Some_item column cs) =
     ''EXISTS (SELECT 1 FROM jsonb_array_elements('' @ column @ '') WITH ORDINALITY AS j(item, idx) WHERE '' @
     join_with '' AND '' (map scan_text cs) @ '')''"
| "array_text (Array_length column n) = ''jsonb_array_length('' @ column @ '') = '' @ str_of_int n"
| "array_text (Count_not_nullable column n) =
     ''(SELECT COUNT(*) FROM jsonb_array_elements('' @ column @ '') AS j(item) WHERE item->>'' @ quoted ''nullable'' @
     ''::text = '' @ quoted ''false'' @ '') = '' @ str_of_int n"
| "array_text (Count_structure column n) =
     ''(SELECT COUNT(*) FROM jsonb_array_elements('' @ column @ '') AS j(item) WHERE item->>'' @ quoted ''kind'' @
     '' = '' @ quoted ''STRUCTURE'' @ '') = '' @ str_of_int n"

section \<open>Their meaning\<close>

text \<open>\<open>->\<close> with a name and with a position counted from 0, and \<open>->>\<close>, the text of a member; a JSON
  null and an absent member are NULL. (A dumped port has no list or object under the names asked for.)\<close>

definition json_member :: "string \<Rightarrow> json \<Rightarrow> json option" where
  "json_member f j = (case j of JDict d \<Rightarrow> dict_get d f | _ \<Rightarrow> None)"

definition json_element :: "nat \<Rightarrow> json \<Rightarrow> json option" where
  "json_element n j = (case j of JList xs \<Rightarrow> (if n < length xs then Some (xs ! n) else None) | _ \<Rightarrow> None)"

definition json_text :: "json \<Rightarrow> string option" where
  "json_text j = (case j of JNull \<Rightarrow> None | JStr s \<Rightarrow> Some s | _ \<Rightarrow> Some (py_dumps False j))"

definition member_text :: "string \<Rightarrow> json \<Rightarrow> string option" where
  "member_text f j = Option.bind (json_member f j) json_text"

definition child_element :: "nat \<Rightarrow> json \<Rightarrow> json option" where
  "child_element n j = Option.bind (json_member ''children'' j) (json_element n)"

fun scan_holds :: "params \<Rightarrow> nat \<Rightarrow> json \<Rightarrow> scan \<Rightarrow> bool" where
  "scan_holds ps idx item (Item_at p) = (dict_get ps p = Some (V_int (int idx)))"
| "scan_holds ps idx item (Item_is f p) =
     (case (member_text (field_name f) item, dict_get ps p) of
        (Some s, Some v) \<Rightarrow> V_str s = v | _ \<Rightarrow> False)"
| "scan_holds ps idx item (Child_is n f p) =
     (case (Option.bind (child_element n item) (member_text (field_name f)), dict_get ps p) of
        (Some s, Some v) \<Rightarrow> V_str s = v | _ \<Rightarrow> False)"

fun array_holds :: "params \<Rightarrow> json list \<Rightarrow> array_condition \<Rightarrow> bool" where
  "array_holds ps items (Some_item _ cs) =
     list_ex (\<lambda>(idx, item). list_all (scan_holds ps idx item) cs) (enumerate 1 items)"
| "array_holds ps items (Array_length _ n) = (int (length items) = n)"
| "array_holds ps items (Count_not_nullable _ n) =
     (int (length (filter (\<lambda>item. member_text ''nullable'' item = Some ''false'') items)) = n)"
| "array_holds ps items (Count_structure _ n) =
     (int (length (filter (\<lambda>item. member_text ''kind'' item = Some ''STRUCTURE'') items)) = n)"

text \<open>An \<^verbatim>\<open>EXISTS\<close> whose \<^verbatim>\<open>WHERE\<close> is empty is not SQL.\<close>

fun array_parses :: "array_condition \<Rightarrow> bool" where
  "array_parses (Some_item _ cs) = (cs \<noteq> [])"
| "array_parses _ = True"

section \<open>Building the conditions\<close>

fun reject_unsupported_legacy_match_fields :: "port_match \<Rightarrow> unit outcome" where
  "reject_unsupported_legacy_match_fields m =
     (if match_descriptors m \<noteq> [] then Inl (ValueError ''Descriptor matching is not supported'')
      else if pm_nullable m \<noteq> None then Inl (ValueError ''nullable matching is not supported'')
      else (case map_outcome reject_unsupported_legacy_match_fields (match_children m) of
              Inl e \<Rightarrow> Inl e | Inr _ \<Rightarrow> Inr ()))"

declare reject_unsupported_legacy_match_fields.simps [simp del]

type_synonym scan_statement = "scan list \<times> params"

definition add_scan :: "(string \<Rightarrow> scan) \<Rightarrow> string \<Rightarrow> sql_value option \<Rightarrow> scan_statement \<Rightarrow> scan_statement" where
  "add_scan mk key value s =
     (case value of None \<Rightarrow> s | Some v \<Rightarrow> (fst s @ [mk key], dict_set key v (snd s)))"

definition kind_given :: "port_match \<Rightarrow> sql_value option" where
  "kind_given m = map_option (\<lambda>k. V_str (port_kind_value k)) (pm_kind m)"

definition build_child_recursively :: "port_match \<Rightarrow> nat \<Rightarrow> string \<Rightarrow> scan_statement \<Rightarrow> scan_statement" where
  "build_child_recursively item n value_path s =
     add_scan (Child_is n F_identifier) (value_path @ ''_identifier'') (given (pm_identifier item))
       (add_scan (Child_is n F_kind) (value_path @ ''_kind'') (kind_given item)
         (add_scan (Child_is n F_key) (value_path @ ''_key'') (given (pm_key item)) s))"

definition build_sql_for_item_recursive :: "port_match \<Rightarrow> nat \<Rightarrow> scan_statement" where
  "build_sql_for_item_recursive item index =
     (let i = str_of_nat index;
          s1 = add_scan Item_at (''arg_at_'' @ i) (map_option (\<lambda>n. V_int (n + 1)) (pm_at item)) ([], []);
          s2 = add_scan (Item_is F_key) (''arg_key_'' @ i) (given (pm_key item)) s1;
          s3 = add_scan (Item_is F_kind) (''arg_kind_'' @ i) (kind_given item) s2;
          s4 = add_scan (Item_is F_identifier) (''arg_identifier_'' @ i) (given (pm_identifier item)) s3;
          s5 = fold (\<lambda>(idx, child). build_child_recursively child (idx + 1) (''children_'' @ i @ ''_'' @ str_of_nat idx))
                 (enumerate 0 (match_children item)) ([], []) in
      (fst s4 @ fst s5, dict_update (snd s4) (snd s5)))"

text \<open>The clauses of all matches with the union of their parameters.\<close>

definition scan_matches :: "string \<Rightarrow> port_match list option \<Rightarrow> (array_condition list \<times> params) outcome" where
  "scan_matches column search_params =
     (case map_outcome reject_unsupported_legacy_match_fields (listed search_params) of
        Inl e \<Rightarrow> Inl e
      | Inr _ \<Rightarrow>
          Inr (fold (\<lambda>(index, item) s. let sql = build_sql_for_item_recursive item index in
                       (fst s @ [Some_item column (fst sql)], dict_update (snd s) (snd sql)))
                 (enumerate 0 (listed search_params)) ([], [])))"

definition forced :: "(int \<Rightarrow> array_condition) \<Rightarrow> int option \<Rightarrow> array_condition list" where
  "forced mk n = (case n of None \<Rightarrow> [] | Some k \<Rightarrow> [mk k])"

definition json_scan_params ::
    "port_match list option \<Rightarrow> demand_kind \<Rightarrow> int option \<Rightarrow> int option \<Rightarrow> int option \<Rightarrow>
     (array_condition list \<times> params) outcome" where
  "json_scan_params search_params kind force_length force_non_nullable force_structure =
     (let column = (case kind of D_ARGS \<Rightarrow> ''args'' | D_RETURNS \<Rightarrow> ''returns'') in
      case scan_matches column search_params of
        Inl e \<Rightarrow> Inl e
      | Inr (clauses, ps) \<Rightarrow>
          (let queries = clauses @ forced (Array_length column) force_length @
                 forced (Count_not_nullable column) force_non_nullable @ forced (Count_structure column) force_structure in
           if queries = [] then Inl (ValueError ''No search params provided'') else Inr (queries, ps)))"

definition build_state_params :: "port_match list option \<Rightarrow> (array_condition list \<times> params) outcome" where
  "build_state_params search_params =
     (case scan_matches ''ports'' search_params of
        Inl e \<Rightarrow> Inl e
      | Inr (clauses, ps) \<Rightarrow>
          if clauses = [] then Inl (ValueError ''No search params provided'') else Inr (clauses, ps))"

definition scan_statement_text :: "string \<Rightarrow> array_condition list \<Rightarrow> string" where
  "scan_statement_text model queries =
     ''SELECT id FROM '' @ model @ '' WHERE '' @ join_with '' AND '' (map array_text queries)"

text \<open>The rows of a table that keeps the array in \<open>column\<close>, scanned.\<close>

definition execute_scan :: "('r \<Rightarrow> json list) \<Rightarrow> 'r table \<Rightarrow> array_condition list \<times> params \<Rightarrow> nat list outcome" where
  "execute_scan column t s =
     (if list_all array_parses (fst s)
      then Inr (map fst (filter (\<lambda>(i, r). list_all (array_holds (snd s) (column r)) (fst s)) (rows t)))
      else Inl (DatabaseError ''syntax error''))"

definition json_scan_ids ::
    "('r \<Rightarrow> json list) \<Rightarrow> 'r table \<Rightarrow> port_match list option \<Rightarrow> demand_kind \<Rightarrow> int option \<Rightarrow> int option \<Rightarrow> int option \<Rightarrow>
     nat list outcome" where
  "json_scan_ids column t demands kind force_length force_non_nullable force_structure =
     (case json_scan_params demands kind force_length force_non_nullable force_structure of
        Inl e \<Rightarrow> Inl e | Inr s \<Rightarrow> execute_scan column t s)"

definition get_state_ids_by_demands :: "port_match list option \<Rightarrow> world \<Rightarrow> nat list outcome" where
  "get_state_ids_by_demands matches w =
     (case build_state_params matches of
        Inl e \<Rightarrow> Inl e | Inr s \<Rightarrow> execute_scan sdf_ports (w_state_definitions w) s)"

section \<open>State demands\<close>

record state_filter =
  sf_key :: "string option"
  sf_app_identifier :: "string option"
  sf_definition_hash :: "string option"
  sf_definition_ids :: "nat list option"

definition filled :: "string option \<Rightarrow> string option" where
  "filled s = (case s of Some (c # cs) \<Rightarrow> Some (c # cs) | _ \<Rightarrow> None)"

definition state_demand_state_filters :: "state_demand \<Rightarrow> world \<Rightarrow> state_filter outcome" where
  "state_demand_state_filters d w =
     (case (if listed (sd_matches d) = [] then Inr None
            else map_sum id Some (get_state_ids_by_demands (sd_matches d) w)) of
        Inl e \<Rightarrow> Inl e
      | Inr ids \<Rightarrow>
          (let f = \<lparr>sf_key = filled (sd_key d), sf_app_identifier = filled (sd_app d),
                    sf_definition_hash = filled (sd_hash d), sf_definition_ids = ids\<rparr> in
           if f = \<lparr>sf_key = None, sf_app_identifier = None, sf_definition_hash = None, sf_definition_ids = None\<rparr>
           then Inl (ValueError ''No search params provided'') else Inr f))"

text \<open>\<^verbatim>\<open>State.objects.filter(**filters)\<close> on one row.\<close>

definition state_passes :: "world \<Rightarrow> state_filter \<Rightarrow> state \<Rightarrow> bool" where
  "state_passes w f s \<longleftrightarrow>
     (sf_key f = None \<or> sf_key f = st_key s) \<and>
     (sf_app_identifier f = None \<or> sf_app_identifier f = st_app_identifier s) \<and>
     (sf_definition_hash f = None \<or>
        sf_definition_hash f = map_option sdf_hash (t_get (w_state_definitions w) (st_definition s))) \<and>
     (case sf_definition_ids f of None \<Rightarrow> True | Some ids \<Rightarrow> st_definition s \<in> set ids)"

end
