(* ===== verification/State_Queries.thy ===== *)
theory State_Queries
  imports Json_Scan Lifecycle
begin

text \<open>
  Reading states back: the replay of patches over a snapshot (\<^verbatim>\<open>get_latest_state\<close> of
  \<^verbatim>\<open>facade/logic.py\<close>), the checkouts built on it and the revision queries of
  \<^verbatim>\<open>facade/queries/state.py\<close>. All of them only read. Rows that agree on the column of an \<^verbatim>\<open>order_by\<close>
  are taken in key order, which the database does not promise.
\<close>

section \<open>Ordering\<close>

definition order_by :: "('r \<Rightarrow> int) \<Rightarrow> (nat \<times> 'r) list \<Rightarrow> (nat \<times> 'r) list" where
  "order_by f xs = sort_key (\<lambda>x. f (snd x)) xs"

definition order_by_desc :: "('r \<Rightarrow> int) \<Rightarrow> (nat \<times> 'r) list \<Rightarrow> (nat \<times> 'r) list" where
  "order_by_desc f xs = sort_key (\<lambda>x. - f (snd x)) xs"

definition first_row :: "'a list \<Rightarrow> 'a option" where
  "first_row xs = (case xs of [] \<Rightarrow> None | x # _ \<Rightarrow> Some x)"

definition at_most :: "int option \<Rightarrow> int \<Rightarrow> bool" where
  "at_most bound n = (case bound of None \<Rightarrow> True | Some b \<Rightarrow> n \<le> b)"

section \<open>Replay\<close>

text \<open>The operation a patch row stands for; a remove carries no value.\<close>

definition patch_doc :: "patch \<Rightarrow> json" where
  "patch_doc p =
     JDict ([(''op'', JStr (pt_op p)), (''path'', JStr (pt_path p))] @
            (if pt_op p \<noteq> ''remove'' then [(''value'', pt_value p)] else []))"

text \<open>A document with the revision and the time of the last patch that applied; a patch that does not
  apply is passed over.\<close>

type_synonym replayed = "json \<times> int \<times> int"

definition replay_patch :: "'c env \<Rightarrow> patch \<Rightarrow> replayed \<Rightarrow> replayed" where
  "replay_patch env p d =
     (case json_patch env (patch_doc p) (fst d) of
        None \<Rightarrow> d
      | Some value \<Rightarrow> (value, pt_global_rev p, pt_timestamp p))"

definition session_of :: "nat \<Rightarrow> string option \<Rightarrow> world \<Rightarrow> (nat \<times> session) option outcome" where
  "session_of agent session_id w =
     (case filled session_id of
        None \<Rightarrow> Inr (first_row (order_by_desc se_created_at (t_filter (\<lambda>s. se_agent s = agent) (w_sessions w))))
      | Some sid \<Rightarrow>
          (case t_filter (\<lambda>s. se_agent s = agent \<and> se_session_id s = sid) (w_sessions w) of
             [] \<Rightarrow> Inl (DoesNotExist ''Session'')
           | [x] \<Rightarrow> Inr (Some x)
           | _ \<Rightarrow> Inl (MultipleObjectsReturned ''Session'')))"

definition anchor_snapshot :: "nat \<Rightarrow> nat \<Rightarrow> nat \<Rightarrow> int option \<Rightarrow> world \<Rightarrow> (nat \<times> snapshot) option" where
  "anchor_snapshot state agent session global_revision w =
     (let found = t_filter (\<lambda>s. sn_state s = state \<and> sn_agent s = Some agent \<and> sn_session s = Some session) (w_snapshots w) in
      case global_revision of
        Some r \<Rightarrow> first_row (order_by_desc sn_global_rev (filter (\<lambda>x. sn_global_rev (snd x) \<le> r) found))
      | None \<Rightarrow> first_row (order_by_desc sn_timestamp found))"

definition patches_after :: "nat \<Rightarrow> nat \<Rightarrow> int \<Rightarrow> int option \<Rightarrow> world \<Rightarrow> (nat \<times> patch) list" where
  "patches_after state agent start_time global_revision w =
     order_by pt_timestamp
       (t_filter (\<lambda>p. pt_state p = state \<and> pt_agent p = Some agent \<and> start_time < pt_timestamp p \<and>
                      at_most global_revision (pt_global_rev p)) (w_patches w))"

text \<open>The loop over the agent's states, with the documents by interface, the highest revision and the
  time of the last patch that applied.\<close>

fun replay_states ::
    "'c env \<Rightarrow> nat \<Rightarrow> nat \<Rightarrow> int option \<Rightarrow> world \<Rightarrow> (nat \<times> state) list \<Rightarrow> json dict \<times> int \<times> int \<Rightarrow>
     (json dict \<times> int \<times> int) outcome" where
  "replay_states env agent session global_revision w [] acc = Inr acc"
| "replay_states env agent session global_revision w ((i, s) # rest) (states, max_revision, latest) =
     (case anchor_snapshot i agent session global_revision w of
        None \<Rightarrow> Inl (ValueError ''No snapshot found'')
      | Some (_, snapshot) \<Rightarrow>
          (case fold (replay_patch env) (map snd (patches_after i agent (sn_timestamp snapshot) global_revision w))
                  (sn_value snapshot, sn_global_rev snapshot, latest) of
             (value, revision, latest') \<Rightarrow>
               replay_states env agent session global_revision w rest
                 (dict_set (st_interface s) value states, max max_revision revision, latest')))"

record latest_state =
  lst_states :: "json dict"
  lst_global_revision :: int
  lst_forward_patches :: "(nat \<times> patch) list"
  lst_backward_patches :: "(nat \<times> patch) list"
  lst_session_id :: string
  lst_timestamp :: int

definition forward_patches :: "nat \<Rightarrow> int \<Rightarrow> int \<Rightarrow> world \<Rightarrow> (nat \<times> patch) list" where
  "forward_patches agent reference_rev n w =
     (if 0 < n then
        take (nat n) (order_by pt_global_rev
          (t_filter (\<lambda>p. pt_agent p = Some agent \<and> reference_rev < pt_global_rev p) (w_patches w)))
      else [])"

definition backward_patches :: "nat \<Rightarrow> int \<Rightarrow> int \<Rightarrow> world \<Rightarrow> (nat \<times> patch) list" where
  "backward_patches agent reference_rev n w =
     (if 0 < n then
        rev (take (nat n) (order_by_desc pt_global_rev
          (t_filter (\<lambda>p. pt_agent p = Some agent \<and> pt_global_rev p \<le> reference_rev) (w_patches w))))
      else [])"

definition get_latest_state ::
    "'c env \<Rightarrow> nat \<Rightarrow> nat option \<Rightarrow> string option \<Rightarrow> int option \<Rightarrow> int \<Rightarrow> int \<Rightarrow> world \<Rightarrow> latest_state outcome" where
  "get_latest_state env agent state_id session_id global_revision forward_patch_count backward_patch_count w =
     (case session_of agent session_id w of
        Inl e \<Rightarrow> Inl e
      | Inr None \<Rightarrow> Inl (AttributeError ''created_at'')
      | Inr (Some (session, t)) \<Rightarrow>
          (case replay_states env agent session global_revision w
                  (filter (\<lambda>(i, s). st_agent s = agent \<and> (case state_id of None \<Rightarrow> True | Some k \<Rightarrow> k = 0 \<or> i = k)) (rows (w_states w)))
                  ([], 0, se_created_at t) of
             Inl e \<Rightarrow> Inl e
           | Inr (states, max_revision, latest) \<Rightarrow>
               (let reference_rev = (case global_revision of Some r \<Rightarrow> r | None \<Rightarrow> max_revision) in
                Inr \<lparr>lst_states = states, lst_global_revision = max_revision,
                     lst_forward_patches = forward_patches agent reference_rev forward_patch_count w,
                     lst_backward_patches = backward_patches agent reference_rev backward_patch_count w,
                     lst_session_id = se_session_id t, lst_timestamp = latest\<rparr>)))"

section \<open>Checkouts\<close>

record state_value =
  stv_state_id :: string
  stv_value :: json
  stv_global_revision :: json
  stv_forward_patches :: "(nat \<times> patch) list"
  stv_backward_patches :: "(nat \<times> patch) list"

definition patch_session :: "patch \<Rightarrow> nat outcome" where
  "patch_session p = (case pt_session p of None \<Rightarrow> Inl (AttributeError ''pk'') | Some k \<Rightarrow> Inr k)"

text \<open>The revision and the session to check out: those of the last patch up to a time stamp when one is
  given. \<open>checkout\<close> passes on the key of that patch's session, \<open>checkout_agent\<close> its identifier.\<close>

definition checkout_target ::
    "(patch \<Rightarrow> string outcome) \<Rightarrow> (patch \<Rightarrow> bool) \<Rightarrow> string option \<Rightarrow> int option \<Rightarrow> int option \<Rightarrow> world \<Rightarrow>
     (int option \<times> string option) outcome" where
  "checkout_target session_name mine session_id global_revision timestamp w =
     (case timestamp of
        None \<Rightarrow> Inr (global_revision, session_id)
      | Some ts \<Rightarrow>
          (case first_row (order_by_desc pt_timestamp (t_filter (\<lambda>p. mine p \<and> pt_timestamp p \<le> ts) (w_patches w))) of
             None \<Rightarrow> Inl (DoesNotExist ''No patches found'')
           | Some (_, p) \<Rightarrow> map_sum id (\<lambda>s. (Some (pt_global_rev p), Some s)) (session_name p)))"

definition checkout ::
    "'c env \<Rightarrow> string \<Rightarrow> string option \<Rightarrow> int option \<Rightarrow> int option \<Rightarrow> int \<Rightarrow> int \<Rightarrow> world \<Rightarrow> state_value outcome" where
  "checkout env state session_id global_revision timestamp forward_patch_count backward_patch_count w =
     (case t_get_wire ''State'' (w_states w) state of
        Inl e \<Rightarrow> Inl e
      | Inr (i, s) \<Rightarrow>
          (case checkout_target (\<lambda>p. map_sum id str_of_nat (patch_session p))
                  (\<lambda>p. pt_state p = i \<and> pt_agent p = Some (st_agent s)) session_id global_revision timestamp w of
             Inl e \<Rightarrow> Inl e
           | Inr (target_global_rev, target_session) \<Rightarrow>
               (case get_latest_state env (st_agent s) (Some i) target_session target_global_rev
                       forward_patch_count backward_patch_count w of
                  Inl e \<Rightarrow> Inl e
                | Inr payload \<Rightarrow>
                    (case dict_get (lst_states payload) (st_interface s) of
                       None \<Rightarrow> Inl (DoesNotExist ''No state found'')
                     | Some (JDict state_data) \<Rightarrow>
                         Inr \<lparr>stv_state_id = state, stv_value = JDict state_data,
                              stv_global_revision = (case dict_get state_data ''global_revision'' of None \<Rightarrow> JNull | Some v \<Rightarrow> v),
                              stv_forward_patches = lst_forward_patches payload,
                              stv_backward_patches = lst_backward_patches payload\<rparr>
                     | Some _ \<Rightarrow> Inl (AttributeError ''get'')))))"

record agent_with_values =
  awv_agent_id :: nat
  awv_values :: "json dict"
  awv_global_revision :: int
  awv_forward_patches :: "(nat \<times> patch) list"
  awv_backward_patches :: "(nat \<times> patch) list"

definition session_identifier :: "world \<Rightarrow> patch \<Rightarrow> string outcome" where
  "session_identifier w p =
     (case Option.bind (pt_session p) (t_get (w_sessions w)) of
        None \<Rightarrow> Inl (AttributeError ''session_id'') | Some s \<Rightarrow> Inr (se_session_id s))"

definition checkout_agent ::
    "'c env \<Rightarrow> string \<Rightarrow> string option \<Rightarrow> int option \<Rightarrow> int option \<Rightarrow> int \<Rightarrow> int \<Rightarrow> world \<Rightarrow> agent_with_values outcome" where
  "checkout_agent env agent session_id global_revision timestamp forward_patch_count backward_patch_count w =
     (case t_get_wire ''Agent'' (w_agents w) agent of
        Inl e \<Rightarrow> Inl e
      | Inr (i, _) \<Rightarrow>
          (case checkout_target (session_identifier w) (\<lambda>p. pt_agent p = Some i) session_id global_revision timestamp w of
             Inl e \<Rightarrow> Inl e
           | Inr (target_global_rev, target_session) \<Rightarrow>
               (case get_latest_state env i None target_session target_global_rev
                       forward_patch_count backward_patch_count w of
                  Inl e \<Rightarrow> Inl e
                | Inr payload \<Rightarrow>
                    Inr \<lparr>awv_agent_id = i, awv_values = lst_states payload,
                         awv_global_revision = lst_global_revision payload,
                         awv_forward_patches = lst_forward_patches payload,
                         awv_backward_patches = lst_backward_patches payload\<rparr>)))"

section \<open>Queries by revision\<close>

text \<open>
  These name the revision columns they filter and order by; the name is resolved against the columns
  of the model when the filter is made, before any row is read.
\<close>

definition snapshot_column :: "string \<Rightarrow> (snapshot \<Rightarrow> int) outcome" where
  "snapshot_column c =
     (if c = ''global_rev'' then Inr sn_global_rev
      else if c = ''timestamp'' then Inr sn_timestamp
      else if c = ''state_id'' then Inr (\<lambda>s. int (sn_state s))
      else Inl (FieldError c))"

definition patch_column :: "string \<Rightarrow> (patch \<Rightarrow> int) outcome" where
  "patch_column c =
     (if c = ''global_rev'' then Inr pt_global_rev
      else if c = ''timestamp'' then Inr pt_timestamp
      else if c = ''state_id'' then Inr (\<lambda>p. int (pt_state p))
      else Inl (FieldError c))"

definition with_columns ::
    "(string \<Rightarrow> ('r \<Rightarrow> int) outcome) \<Rightarrow> string list \<Rightarrow> (('r \<Rightarrow> int) list \<Rightarrow> 'a outcome) \<Rightarrow> 'a outcome" where
  "with_columns column names k =
     (case map_outcome column names of Inl e \<Rightarrow> Inl e | Inr fs \<Rightarrow> k fs)"

text \<open>A key that arrives as a string and is compared with a foreign key.\<close>

definition wire_int :: "string \<Rightarrow> int outcome" where
  "wire_int s = (case py_int s of None \<Rightarrow> Inl (ValueError ''Field expected a number'') | Some i \<Rightarrow> Inr i)"

definition wire_fk :: "string option \<Rightarrow> int option outcome" where
  "wire_fk s = (case filled s of None \<Rightarrow> Inr None | Some k \<Rightarrow> map_sum id Some (wire_int k))"

definition fk_is :: "int option \<Rightarrow> nat option \<Rightarrow> bool" where
  "fk_is bound k = (case bound of None \<Rightarrow> True | Some i \<Rightarrow> map_option int k = Some i)"

record boundary =
  bnd_start_global_revision :: int
  bnd_end_global_revision :: int
  bnd_start_time :: int
  bnd_end_time :: int

definition get_boundary_aggregates :: "(nat \<times> patch) list \<Rightarrow> boundary option outcome" where
  "get_boundary_aggregates found =
     with_columns patch_column [''global_current_revision'', ''global_future_revision'', ''timestamp'']
       (\<lambda>fs. Inr (if found = [] then None
              else Some \<lparr>bnd_start_global_revision = Min (set (map (\<lambda>x. (fs ! 0) (snd x)) found)),
                         bnd_end_global_revision = Max (set (map (\<lambda>x. (fs ! 1) (snd x)) found)),
                         bnd_start_time = Min (set (map (\<lambda>x. (fs ! 2) (snd x)) found)),
                         bnd_end_time = Max (set (map (\<lambda>x. (fs ! 2) (snd x)) found))\<rparr>))"

definition task_boundaries :: "string \<Rightarrow> string option \<Rightarrow> world \<Rightarrow> boundary option outcome" where
  "task_boundaries correlation_id state_id w =
     (case wire_fk state_id of
        Inl e \<Rightarrow> Inl e
      | Inr st \<Rightarrow>
          get_boundary_aggregates
            (t_filter (\<lambda>p. map_option tk_reference (Option.bind (pt_task p) (t_get (w_tasks w))) = Some correlation_id \<and>
                           fk_is st (Some (pt_state p))) (w_patches w)))"

definition session_boundaries :: "string \<Rightarrow> string option \<Rightarrow> world \<Rightarrow> boundary option outcome" where
  "session_boundaries session_id state_id w =
     (case wire_int session_id of
        Inl e \<Rightarrow> Inl e
      | Inr session \<Rightarrow>
          (case wire_fk state_id of
             Inl e \<Rightarrow> Inl e
           | Inr st \<Rightarrow>
               get_boundary_aggregates
                 (t_filter (\<lambda>p. fk_is (Some session) (pt_session p) \<and> fk_is st (Some (pt_state p))) (w_patches w))))"

definition get_state_ids :: "string option \<Rightarrow> world \<Rightarrow> int list outcome" where
  "get_state_ids session_id w =
     (case wire_fk session_id of
        Inl e \<Rightarrow> Inl e
      | Inr session \<Rightarrow>
          Inr (sort (remdups
            (map (\<lambda>x. int (sn_state (snd x))) (t_filter (\<lambda>s. fk_is session (sn_session s)) (w_snapshots w)) @
             map (\<lambda>x. int (pt_state (snd x))) (t_filter (\<lambda>p. fk_is session (pt_session p)) (w_patches w))))))"

text \<open>A snapshot as it is stored, or one computed from it that is in no table.\<close>

record replayed_snapshot =
  rps_state :: nat
  rps_session :: "nat option"
  rps_value :: json
  rps_timestamp :: int
  rps_revision :: int

fun apply_all :: "'c env \<Rightarrow> patch list \<Rightarrow> json \<Rightarrow> json outcome" where
  "apply_all env [] d = Inr d"
| "apply_all env (p # ps) d =
     (case json_patch env (patch_doc p) d of
        None \<Rightarrow> Inl (JsonPatchException (pt_op p)) | Some d' \<Rightarrow> apply_all env ps d')"

definition get_state_at_revision ::
    "'c env \<Rightarrow> int \<Rightarrow> int \<Rightarrow> string option \<Rightarrow> bool \<Rightarrow> world \<Rightarrow> replayed_snapshot option outcome" where
  "get_state_at_revision env target_revision state_id session_id use_global_revision w =
     (case wire_fk session_id of
        Inl e \<Rightarrow> Inl e
      | Inr session \<Rightarrow>
          with_columns snapshot_column [if use_global_revision then ''global_revision'' else ''revision'']
            (\<lambda>fs. let rev_of = fs ! 0 in
              case first_row (order_by_desc rev_of
                     (t_filter (\<lambda>s. int (sn_state s) = state_id \<and> fk_is session (sn_session s) \<and> rev_of s \<le> target_revision)
                        (w_snapshots w))) of
                None \<Rightarrow> Inr None
              | Some (_, anchor) \<Rightarrow>
                  with_columns patch_column
                    (if use_global_revision then [''global_current_revision'', ''global_future_revision'']
                     else [''current_revision'', ''future_revision''])
                    (\<lambda>gs. let current = gs ! 0; future = gs ! 1;
                             found = order_by current
                               (t_filter (\<lambda>p. int (pt_state p) = state_id \<and> fk_is session (pt_session p) \<and>
                                              rev_of anchor \<le> current p \<and> future p \<le> target_revision) (w_patches w)) in
                      if found = [] then
                        Inr (Some \<lparr>rps_state = sn_state anchor, rps_session = sn_session anchor,
                                   rps_value = sn_value anchor, rps_timestamp = sn_timestamp anchor,
                                   rps_revision = rev_of anchor\<rparr>)
                      else
                        (case apply_all env (map snd found) (sn_value anchor) of
                           Inl e \<Rightarrow> Inl e
                         | Inr value \<Rightarrow>
                             (let last_patch = snd (last found) in
                              Inr (Some \<lparr>rps_state = pt_state last_patch, rps_session = pt_session last_patch,
                                         rps_value = value, rps_timestamp = pt_timestamp last_patch,
                                         rps_revision = future last_patch\<rparr>))))))"

text \<open>The state asked for, or every state with a snapshot or a patch.\<close>

definition queried_states :: "string option \<Rightarrow> string option \<Rightarrow> world \<Rightarrow> int list outcome" where
  "queried_states state_id session_id w =
     (case wire_fk state_id of
        Inl e \<Rightarrow> Inl e
      | Inr (Some i) \<Rightarrow> Inr [i]
      | Inr None \<Rightarrow> get_state_ids session_id w)"

definition state_at_rev ::
    "bool \<Rightarrow> 'c env \<Rightarrow> int \<Rightarrow> string option \<Rightarrow> string option \<Rightarrow> world \<Rightarrow> replayed_snapshot list outcome" where
  "state_at_rev use_global_revision env revision state_id session_id w =
     (case queried_states state_id session_id w of
        Inl e \<Rightarrow> Inl e
      | Inr sids \<Rightarrow>
          map_sum id (\<lambda>found. List.map_filter id found)
            (map_outcome (\<lambda>sid. get_state_at_revision env revision sid session_id use_global_revision w) sids))"

definition state_at_global_rev ::
    "'c env \<Rightarrow> int \<Rightarrow> string option \<Rightarrow> string option \<Rightarrow> world \<Rightarrow> replayed_snapshot list outcome" where
  "state_at_global_rev env = state_at_rev True env"

definition state_at_local_rev ::
    "'c env \<Rightarrow> int \<Rightarrow> string option \<Rightarrow> string option \<Rightarrow> world \<Rightarrow> replayed_snapshot list outcome" where
  "state_at_local_rev env = state_at_rev False env"

definition in_revision_order :: "(patch \<Rightarrow> int) list \<Rightarrow> (nat \<times> patch) list \<Rightarrow> (nat \<times> patch) list" where
  "in_revision_order fs found = fold order_by (rev fs) found"

definition forward_events_after_rev ::
    "int \<Rightarrow> string option \<Rightarrow> string option \<Rightarrow> nat \<Rightarrow> world \<Rightarrow> (nat \<times> patch) list outcome" where
  "forward_events_after_rev global_revision state_id session_id count w =
     with_columns patch_column [''global_current_revision'', ''state_id'', ''current_revision'']
       (\<lambda>fs. case (wire_fk state_id, wire_fk session_id) of
               (Inl e, _) \<Rightarrow> Inl e
             | (_, Inl e) \<Rightarrow> Inl e
             | (Inr st, Inr session) \<Rightarrow>
                 Inr (take count (in_revision_order fs
                   (t_filter (\<lambda>p. global_revision \<le> (fs ! 0) p \<and> fk_is st (Some (pt_state p)) \<and>
                                  fk_is session (pt_session p)) (w_patches w)))))"

definition patch_events_between_global_revs ::
    "int \<Rightarrow> int \<Rightarrow> string list option \<Rightarrow> string option \<Rightarrow> world \<Rightarrow> (nat \<times> patch) list outcome" where
  "patch_events_between_global_revs from_revision to_revision state_ids session_id w =
     (if to_revision < from_revision then Inr []
      else
        with_columns patch_column [''global_current_revision'', ''global_future_revision'', ''state_id'', ''current_revision'']
          (\<lambda>fs. case (map_outcome wire_int (listed state_ids), wire_fk session_id) of
                  (Inl e, _) \<Rightarrow> Inl e
                | (_, Inl e) \<Rightarrow> Inl e
                | (Inr sts, Inr session) \<Rightarrow>
                    Inr (in_revision_order [fs ! 0, fs ! 2, fs ! 3]
                      (t_filter (\<lambda>p. from_revision \<le> (fs ! 0) p \<and> (fs ! 1) p \<le> to_revision \<and>
                                     (sts = [] \<or> int (pt_state p) \<in> set sts) \<and>
                                     fk_is session (pt_session p)) (w_patches w)))))"

definition snapshots_around_rev ::
    "int \<Rightarrow> string option \<Rightarrow> string option \<Rightarrow> nat \<Rightarrow> nat \<Rightarrow> world \<Rightarrow> (nat \<times> snapshot) list outcome" where
  "snapshots_around_rev revision state_id session_id before after w =
     (case queried_states state_id session_id w of
        Inl e \<Rightarrow> Inl e
      | Inr sids \<Rightarrow>
          map_sum id concat (map_outcome (\<lambda>sid.
            with_columns snapshot_column [''revision'']
              (\<lambda>fs. case wire_fk session_id of
                      Inl e \<Rightarrow> Inl e
                    | Inr session \<Rightarrow>
                        (let found = t_filter (\<lambda>s. int (sn_state s) = sid \<and> fk_is session (sn_session s)) (w_snapshots w) in
                         Inr (rev (take before (order_by_desc (fs ! 0) (filter (\<lambda>x. (fs ! 0) (snd x) \<le> revision) found))) @
                              take after (order_by (fs ! 0) (filter (\<lambda>x. revision < (fs ! 0) (snd x)) found)))))) sids))"

section \<open>A state by demand\<close>

definition the_state :: "(nat \<times> state) list \<Rightarrow> (nat \<times> state) outcome" where
  "the_state found =
     (case found of
        [] \<Rightarrow> Inl (DoesNotExist ''State'')
      | [x] \<Rightarrow> Inr x
      | _ \<Rightarrow> Inl (MultipleObjectsReturned ''State''))"

definition state_for :: "string \<Rightarrow> string option \<Rightarrow> state_demand option \<Rightarrow> world \<Rightarrow> (nat \<times> state) outcome" where
  "state_for agent state_hash demand w =
     (case t_get_wire ''Agent'' (w_agents w) agent of
        Inl e \<Rightarrow> Inl e
      | Inr (i, _) \<Rightarrow>
          (case demand of
             Some d \<Rightarrow>
               (case state_demand_state_filters d w of
                  Inl e \<Rightarrow> Inl e
                | Inr f \<Rightarrow> the_state (t_filter (\<lambda>s. st_agent s = i \<and> state_passes w f s) (w_states w)))
           | None \<Rightarrow>
               (case filled state_hash of
                  None \<Rightarrow> Inl (ValueError ''Either state_hash or a valid demand must be provided'')
                | Some h \<Rightarrow>
                    the_state (t_filter (\<lambda>s. st_agent s = i \<and>
                      map_option sdf_hash (t_get (w_state_definitions w) (st_definition s)) = Some h) (w_states w)))))"

end
