(* ===== verification/State_Properties.thy ===== *)
theory State_Properties
  imports State_Queries Example_World
begin

text \<open>
  What the queries over states read back: a checkout is the document an agent reported, patch by
  patch; the queries by revision and the checkout at a time stamp fail; a state demand selects the
  definitions whose ports match.
\<close>

section \<open>What a report stores\<close>

text \<open>The document after a report: an operation that does not apply leaves it.\<close>

definition message_doc :: "state_patch \<Rightarrow> json" where
  "message_doc m =
     JDict ([(''op'', JStr (sp_op m)), (''path'', JStr (sp_path m))] @
            (if sp_op m \<noteq> ''remove'' then [(''value'', sp_value m)] else []))"

definition apply_doc :: "'c env \<Rightarrow> json \<Rightarrow> json \<Rightarrow> json" where
  "apply_doc env op d = (case json_patch env op d of None \<Rightarrow> d | Some d' \<Rightarrow> d')"

text \<open>Reports of any agents, each handled at its time.\<close>

type_synonym reports = "(int \<times> nat \<times> state_patch) list"

fun report_patches :: "reports \<Rightarrow> world \<Rightarrow> unit outcome \<times> world" where
  "report_patches [] w = (Inr (), w)"
| "report_patches ((t, a, m) # rs) w =
     and_then (on_agent_state_patch a m (w\<lparr>now := t\<rparr>)) (\<lambda>_ w'. report_patches rs w')"

text \<open>Those a checkout of one state up to a revision is about.\<close>

definition concerns :: "nat \<Rightarrow> string \<Rightarrow> int option \<Rightarrow> int \<times> nat \<times> state_patch \<Rightarrow> bool" where
  "concerns agent interface revision x \<longleftrightarrow>
     fst (snd x) = agent \<and> sp_state_name (snd (snd x)) = interface \<and>
     at_most revision (sp_global_rev (snd (snd x)))"

text \<open>A row or a report as the time, the operation and the revision it stands for.\<close>

definition of_row :: "nat \<times> patch \<Rightarrow> int \<times> json \<times> int" where
  "of_row x = (pt_timestamp (snd x), patch_doc (snd x), pt_global_rev (snd x))"

definition of_report :: "int \<times> nat \<times> state_patch \<Rightarrow> int \<times> json \<times> int" where
  "of_report x = (fst x, message_doc (snd (snd x)), sp_global_rev (snd (snd x)))"

text \<open>A session is not created twice.\<close>

definition sessions_kept :: "world \<Rightarrow> world \<Rightarrow> bool" where
  "sessions_kept w w' \<longleftrightarrow>
     (\<forall>a s x. t_filter (\<lambda>r. se_agent r = a \<and> se_session_id r = s) (w_sessions w) = [x] \<longrightarrow>
        t_filter (\<lambda>r. se_agent r = a \<and> se_session_id r = s) (w_sessions w') = [x])"

lemma t_filter_add: "t_filter P (t_add r t) = t_filter P t @ (if P r then [(Suc (seq t), r)] else [])"
  by (simp add: t_filter_def t_add_def)

lemma get_or_create_session_Inr:
  assumes "get_or_create_session a sid w = (Inr k, w')"
  shows "sessions_kept w w'" and "w_states w' = w_states w" and "w_patches w' = w_patches w"
    and "w_snapshots w' = w_snapshots w" and "now w' = now w"
proof -
  let ?n = "w\<lparr>w_sessions := t_add \<lparr>se_agent = a, se_session_id = sid, se_active = True,
                se_created_at = now w\<rparr> (w_sessions w)\<rparr>"
  have "w' = w \<or> t_filter (\<lambda>r. se_agent r = a \<and> se_session_id r = sid) (w_sessions w) = [] \<and> w' = ?n"
  proof (cases "t_filter (\<lambda>r. se_agent r = a \<and> se_session_id r = sid) (w_sessions w)")
    case Nil
    with assms have "t_get (w_agents w) a \<noteq> None \<and> ?n = w'"
      unfolding get_or_create_session_def Nil list.case by (metis Inl_Inr_False prod.inject)
    with Nil show ?thesis by metis
  next
    case (Cons x xs)
    obtain j r where x: "x = (j, r)" by (cases x)
    show ?thesis
      using assms unfolding get_or_create_session_def Cons x
      by (cases xs; simp only: list.case prod.case prod.inject Inl_Inr_False Inr_Inl_False; blast)
  qed
  then consider "w' = w"
    | "t_filter (\<lambda>r. se_agent r = a \<and> se_session_id r = sid) (w_sessions w) = []" "w' = ?n" by blast
  then have "sessions_kept w w' \<and> w_states w' = w_states w \<and> w_patches w' = w_patches w \<and>
      w_snapshots w' = w_snapshots w \<and> now w' = now w"
  proof cases
    case 1
    show ?thesis unfolding 1 sessions_kept_def by blast
  next
    case 2
    have "sessions_kept w ?n"
      unfolding sessions_kept_def
    proof (intro allI impI)
      fix b s x
      assume one: "t_filter (\<lambda>r. se_agent r = b \<and> se_session_id r = s) (w_sessions w) = [x]"
      with 2(1) have "\<not> (a = b \<and> sid = s)" by auto
      then show "t_filter (\<lambda>r. se_agent r = b \<and> se_session_id r = s) (w_sessions ?n) = [x]"
        using one by (simp add: t_filter_add)
    qed
    then show ?thesis unfolding 2(2) by simp
  qed
  then show "sessions_kept w w'" and "w_states w' = w_states w" and "w_patches w' = w_patches w"
    and "w_snapshots w' = w_snapshots w" and "now w' = now w" by blast+
qed

lemma get_state_cong: "w_states w' = w_states w \<Longrightarrow> get_state a n w' = get_state a n w"
  by (simp add: get_state_def)

lemma only_row:
  fixes xs :: "(nat \<times> 'r) list"
  assumes "(case xs of [] \<Rightarrow> Inl e | [(i, _)] \<Rightarrow> Inr i | _ \<Rightarrow> Inl e') = (Inr k :: nat outcome)"
  shows "\<exists>r. xs = [(k, r)]"
proof (cases xs)
  case Nil
  with assms show ?thesis by simp
next
  case (Cons x ys)
  obtain j r where "x = (j, r)" by (cases x)
  with assms Cons show ?thesis by (cases ys) simp_all
qed

lemma get_state_row:
  assumes "get_state a n w = Inr i" and "t_wf (w_states w)"
  obtains s where "t_get (w_states w) i = Some s" and "st_agent s = a" and "st_interface s = n"
proof -
  from assms(1) obtain s where "t_filter (\<lambda>s. st_agent s = a \<and> st_interface s = n) (w_states w) = [(i, s)]"
    using only_row unfolding get_state_def by blast
  then have "(i, s) \<in> set (t_filter (\<lambda>s. st_agent s = a \<and> st_interface s = n) (w_states w))" by simp
  then have "t_get (w_states w) i = Some s \<and> st_agent s = a \<and> st_interface s = n"
    unfolding t_filter_get [OF assms(2)] .
  with that show ?thesis by blast
qed

lemma get_state_inject:
  assumes "t_wf (w_states w)" and "get_state a n w = Inr i" and "get_state a' n' w = Inr i"
  shows "a' = a \<and> n' = n"
  using get_state_row [OF assms(2,1)] get_state_row [OF assms(3,1)] by (metis option.inject)

lemma patch_stored:
  assumes "on_agent_state_patch a m w = (Inr (), w')"
  obtains i session task where "get_state a (sp_state_name m) w = Inr i"
    and "w_patches w' = t_add \<lparr>pt_state = i, pt_agent = Some a, pt_interface = sp_state_name m,
                            pt_session = Some session, pt_op = sp_op m, pt_path = sp_path m,
                            pt_value = sp_value m, pt_timestamp = now w, pt_global_rev = sp_global_rev m,
                            pt_task = task\<rparr> (w_patches w)"
    and "w_states w' = w_states w" and "w_snapshots w' = w_snapshots w" and "sessions_kept w w'"
proof -
  obtain i where i: "get_state a (sp_state_name m) w = Inr i"
    using assms by (auto simp: on_agent_state_patch_def split: sum.splits)
  obtain session w1 where s: "get_or_create_session a (sp_session_id m) w = (Inr session, w1)"
    using assms i by (auto simp: on_agent_state_patch_def and_then_def split: sum.splits prod.splits)
  note kept = get_or_create_session_Inr [OF s]
  obtain task where "w' = insert_patch \<lparr>pt_state = i, pt_agent = Some a, pt_interface = sp_state_name m,
                            pt_session = Some session, pt_op = sp_op m, pt_path = sp_path m,
                            pt_value = sp_value m, pt_timestamp = now w1, pt_global_rev = sp_global_rev m,
                            pt_task = task\<rparr> w1"
    using assms i s by (auto simp: on_agent_state_patch_def split: sum.splits if_splits)
  with that [of i session task] i kept show ?thesis by (simp add: sessions_kept_def)
qed

lemma same_doc: "pt_op p = sp_op m \<Longrightarrow> pt_path p = sp_path m \<Longrightarrow> pt_value p = sp_value m \<Longrightarrow> patch_doc p = message_doc m"
  by (simp add: patch_doc_def message_doc_def)

section \<open>What a run of reports leaves to replay\<close>

definition pending :: "nat \<Rightarrow> nat \<Rightarrow> int \<Rightarrow> int option \<Rightarrow> world \<Rightarrow> (nat \<times> patch) list" where
  "pending state agent start_time revision w =
     t_filter (\<lambda>p. pt_state p = state \<and> pt_agent p = Some agent \<and> start_time < pt_timestamp p \<and>
                   at_most revision (pt_global_rev p)) (w_patches w)"

lemma reports_stored:
  assumes "report_patches rs w = (Inr (), w')" and "t_wf (w_states w)" and "get_state agent interface w = Inr i"
    and "\<forall>x \<in> set rs. t0 < fst x"
  shows "map of_row (pending i agent t0 revision w') =
      map of_row (pending i agent t0 revision w) @ map of_report (filter (concerns agent interface revision) rs) \<and>
    w_states w' = w_states w \<and> w_snapshots w' = w_snapshots w \<and> sessions_kept w w'"
  using assms
proof (induction rs arbitrary: w)
  case Nil
  then show ?case by (simp add: sessions_kept_def)
next
  case (Cons x rs)
  note wf = Cons.prems(2) and i = Cons.prems(3)
  obtain t a m where x: "x = (t, a, m)" by (cases x)
  obtain r1 w1 where eq: "on_agent_state_patch a m (w\<lparr>now := t\<rparr>) = (r1, w1)" by fastforce
  with Cons.prems(1) have first: "on_agent_state_patch a m (w\<lparr>now := t\<rparr>) = (Inr (), w1)"
    and rest: "report_patches rs w1 = (Inr (), w')"
    by (cases r1; simp add: x)+
  obtain k session task where k: "get_state a (sp_state_name m) (w\<lparr>now := t\<rparr>) = Inr k"
    and row: "w_patches w1 = t_add \<lparr>pt_state = k, pt_agent = Some a, pt_interface = sp_state_name m,
                pt_session = Some session, pt_op = sp_op m, pt_path = sp_path m,
                pt_value = sp_value m, pt_timestamp = now (w\<lparr>now := t\<rparr>), pt_global_rev = sp_global_rev m,
                pt_task = task\<rparr> (w_patches (w\<lparr>now := t\<rparr>))"
    and same: "w_states w1 = w_states (w\<lparr>now := t\<rparr>)" "w_snapshots w1 = w_snapshots (w\<lparr>now := t\<rparr>)"
    and kept: "sessions_kept (w\<lparr>now := t\<rparr>) w1"
    by (rule patch_stored [OF first])
  have k': "get_state a (sp_state_name m) w = Inr k" using k by (simp add: get_state_def)
  have mine: "k = i \<and> a = agent \<longleftrightarrow> a = agent \<and> sp_state_name m = interface"
    using get_state_inject [OF wf i, of a "sp_state_name m"] k' i by auto
  have "of_row (j, \<lparr>pt_state = k, pt_agent = Some a, pt_interface = sp_state_name m,
                pt_session = Some session, pt_op = sp_op m, pt_path = sp_path m,
                pt_value = sp_value m, pt_timestamp = t, pt_global_rev = sp_global_rev m, pt_task = task\<rparr>) = of_report x" for j
    by (simp add: of_row_def of_report_def x patch_doc_def message_doc_def)
  moreover have "t0 < t" using Cons.prems(4) by (simp add: x)
  ultimately have step: "map of_row (pending i agent t0 revision w1) =
      map of_row (pending i agent t0 revision w) @ map of_report (filter (concerns agent interface revision) [x])"
    using mine by (auto simp: pending_def row t_filter_add concerns_def x)
  have "get_state agent interface w1 = Inr i" using i same by (simp add: get_state_def)
  from Cons.IH [OF rest _ this] step Cons.prems(4) wf same kept show ?case by (simp add: sessions_kept_def)
qed

lemma replay_docs:
  "fst (fold (replay_patch env) ps d) = fold (apply_doc env) (map patch_doc ps) (fst d)"
  by (induction ps arbitrary: d) (simp_all add: replay_patch_def apply_doc_def split: option.split)

lemma patches_after_sorted:
  assumes "sorted (map fst (map of_row (pending i agent t0 revision w)))"
  shows "patches_after i agent t0 revision w = pending i agent t0 revision w"
proof -
  have "patches_after i agent t0 revision w = order_by pt_timestamp (pending i agent t0 revision w)"
    by (simp add: patches_after_def pending_def)
  also have "\<dots> = pending i agent t0 revision w"
    unfolding order_by_def using assms by (intro sort_key_id_if_sorted) (simp add: of_row_def comp_def)
  finally show ?thesis .
qed

section \<open>What opening a session stores\<close>

definition anchors :: "nat \<Rightarrow> nat \<Rightarrow> nat \<Rightarrow> world \<Rightarrow> (nat \<times> snapshot) list" where
  "anchors state agent session w =
     t_filter (\<lambda>s. sn_state s = state \<and> sn_agent s = Some agent \<and> sn_session s = Some session) (w_snapshots w)"

lemma snapshots_created:
  assumes "create_snapshots agent session grev states w = (Inr (), w')" and "t_wf (w_states w)"
    and "get_state agent interface w = Inr i"
  shows "map snd (anchors i agent session w') = map snd (anchors i agent session w) @
      map (\<lambda>x. \<lparr>sn_state = i, sn_agent = Some agent, sn_session = Some session, sn_value = snd x,
              sn_timestamp = now w, sn_global_rev = grev\<rparr>) (filter (\<lambda>x. fst x = interface) states) \<and>
    w_states w' = w_states w \<and> w_sessions w' = w_sessions w \<and> w_patches w' = w_patches w"
  using assms
proof (induction states arbitrary: w)
  case Nil
  then show ?case by simp
next
  case (Cons x states)
  obtain n v where x: "x = (n, v)" by (cases x)
  obtain k where k: "get_state agent n w = Inr k"
    using Cons.prems(1) by (cases "get_state agent n w") (simp_all add: x)
  let ?row = "\<lparr>sn_state = k, sn_agent = Some agent, sn_session = Some session, sn_value = v,
                  sn_timestamp = now w, sn_global_rev = grev\<rparr>"
  let ?w1 = "w\<lparr>w_snapshots := t_add ?row (w_snapshots w)\<rparr>"
  have rest: "create_snapshots agent session grev states ?w1 = (Inr (), w')"
    using Cons.prems(1) k by (cases "v = JNull") (simp_all add: x)
  have mine: "k = i \<longleftrightarrow> n = interface"
    using get_state_inject [OF Cons.prems(2,3), of agent n] k Cons.prems(3) by auto
  have "get_state agent interface ?w1 = Inr i" using Cons.prems(3) by (simp add: get_state_def)
  from Cons.IH [OF rest _ this] Cons.prems(2) mine show ?case
    by (simp add: anchors_def t_filter_add x)
qed

definition references_sessions :: "world \<Rightarrow> bool" where
  "references_sessions w \<longleftrightarrow>
     list_all (\<lambda>x. case sn_session (snd x) of None \<Rightarrow> True | Some k \<Rightarrow> t_get (w_sessions w) k \<noteq> None) (rows (w_snapshots w))"

lemma one_entry:
  "distinct (map fst xs) \<Longrightarrow> (k, v) \<in> set xs \<Longrightarrow> filter (\<lambda>x. fst x = k) xs = [(k, v)]"
proof (induction xs)
  case (Cons x xs)
  then show ?case by (cases "fst x = k") (auto simp: filter_empty_conv image_iff dest: spec [of _ v])
qed simp

lemma session_opened:
  assumes "on_agent_session_init agent m w = (Inr (), w1)"
    and "t_wf (w_states w)" and "t_wf (w_sessions w)" and "references_sessions w"
    and "t_filter (\<lambda>s. se_agent s = agent \<and> se_session_id s = si_session_id m) (w_sessions w) = []"
    and "get_state agent interface w = Inr i"
    and "distinct (map fst (si_states m))" and "(interface, v0) \<in> set (si_states m)"
  obtains session row where
    "t_filter (\<lambda>s. se_agent s = agent \<and> se_session_id s = si_session_id m) (w_sessions w1) = [(session, row)]"
    and "map snd (anchors i agent session w1) =
      [\<lparr>sn_state = i, sn_agent = Some agent, sn_session = Some session, sn_value = v0,
        sn_timestamp = now w, sn_global_rev = 0\<rparr>]"
    and "w_states w1 = w_states w" and "w_patches w1 = w_patches w"
proof -
  let ?k = "Suc (seq (w_sessions w))"
  let ?row = "\<lparr>se_agent = agent, se_session_id = si_session_id m, se_active = True, se_created_at = now w\<rparr>"
  let ?w0 = "w\<lparr>w_sessions := t_add ?row (w_sessions w)\<rparr>"
  have agent: "t_get (w_agents w) agent \<noteq> None"
    using assms(1) unfolding on_agent_session_init_def get_or_create_session_def assms(5)
    by (cases "t_get (w_agents w) agent") simp_all
  have run: "create_snapshots agent ?k 0 (si_states m) ?w0 = (Inr (), w1)"
    using assms(1) agent unfolding on_agent_session_init_def get_or_create_session_def assms(5) by simp
  have "t_get (w_sessions w) ?k = None" using assms(3) by (rule t_get_fresh)
  then have "anchors i agent ?k w = []"
    using assms(4) unfolding anchors_def t_filter_def references_sessions_def list_all_iff
    by (auto simp: filter_empty_conv)
  then have none: "anchors i agent ?k ?w0 = []" by (simp add: anchors_def)
  have state: "get_state agent interface ?w0 = Inr i" using assms(6) by (simp add: get_state_def)
  have "filter (\<lambda>x. fst x = interface) (si_states m) = [(interface, v0)]"
    using assms(7,8) by (rule one_entry)
  with snapshots_created [OF run _ state] assms(2,5) none show ?thesis
    by (intro that [of ?k ?row]) (simp_all add: t_filter_add)
qed

section \<open>A checkout is what was reported\<close>

lemma only_state:
  assumes "t_wf (w_states w)" and "t_get (w_states w) i = Some s" and "st_agent s = agent" and "i \<noteq> 0"
  shows "filter (\<lambda>(j, r). st_agent r = agent \<and> (case Some i of None \<Rightarrow> True | Some k \<Rightarrow> k = 0 \<or> j = k)) (rows (w_states w)) =
    [(i, s)]"
proof -
  have "(i, s) \<in> set (rows (w_states w))" using assms(1,2) by (simp add: t_get_rows)
  moreover have "distinct (map fst (rows (w_states w)))" using assms(1) by (simp add: t_wf_def)
  ultimately have "filter (\<lambda>x. fst x = i) (rows (w_states w)) = [(i, s)]" by (rule one_entry [rotated])
  moreover have "filter (\<lambda>(j, r). st_agent r = agent \<and> (case Some i of None \<Rightarrow> True | Some k \<Rightarrow> k = 0 \<or> j = k)) (rows (w_states w)) =
      filter (\<lambda>x. st_agent (snd x) = agent) (filter (\<lambda>x. fst x = i) (rows (w_states w)))"
    using assms(4) by (simp add: case_prod_unfold conj_commute)
  ultimately show ?thesis using assms(3) by simp
qed

lemma only_anchor:
  assumes "map snd (anchors i agent session w) = [s]" and "at_most revision (sn_global_rev s)"
  obtains j where "anchor_snapshot i agent session revision w = Some (j, s)"
proof -
  from assms(1) obtain j where "anchors i agent session w = [(j, s)]" by auto
  with assms(2) that show ?thesis
    by (cases revision)
      (simp_all add: anchor_snapshot_def anchors_def order_by_desc_def first_row_def at_most_def)
qed

lemma latest_state_single:
  assumes "t_wf (w_states w)" and "t_get (w_states w) i = Some s" and "st_agent s = agent" and "i \<noteq> 0"
    and "t_filter (\<lambda>s. se_agent s = agent \<and> se_session_id s = sid) (w_sessions w) = [(session, row)]" and "sid \<noteq> []"
    and "map snd (anchors i agent session w) = [anchor]" and "at_most revision (sn_global_rev anchor)"
  shows "\<exists>p. get_latest_state env agent (Some i) (Some sid) revision f b w = Inr p \<and>
    lst_states p = [(st_interface s,
      fold (apply_doc env) (map patch_doc (map snd (patches_after i agent (sn_timestamp anchor) revision w))) (sn_value anchor))]"
proof -
  let ?ps = "map snd (patches_after i agent (sn_timestamp anchor) revision w)"
  let ?d = "(sn_value anchor, sn_global_rev anchor, se_created_at row)"
  obtain j where j: "anchor_snapshot i agent session revision w = Some (j, anchor)"
    using only_anchor [OF assms(7,8)] .
  obtain c cs where sid: "sid = c # cs" using assms(6) by (cases sid) auto
  have "session_of agent (Some sid) w = Inr (Some (session, row))"
    unfolding session_of_def filled_def sid list.case option.case using assms(5) by (simp add: sid)
  moreover obtain doc rv latest where "fold (replay_patch env) ?ps ?d = (doc, rv, latest)"
    by (cases "fold (replay_patch env) ?ps ?d")
  moreover from this have "doc = fold (apply_doc env) (map patch_doc ?ps) (sn_value anchor)"
    using replay_docs [of env ?ps ?d] by simp
  ultimately show ?thesis
    unfolding get_latest_state_def
    by (simp add: only_state [OF assms(1-4), unfolded option.case] j dict_set_def Let_def del: map_map)
qed


text \<open>A world in which the agent has one state, and a document that takes the value of an operation.\<close>

definition demo_state :: state where
  "demo_state =
     \<lparr>st_definition = 1, st_interface = ''pos'', st_key = Some ''pos'', st_app_identifier = Some ''app'',
      st_agent = 1, st_value = []\<rparr>"

definition state_world :: world where
  "state_world = demo_world\<lparr>w_states := \<lparr>rows = [(1, demo_state)], seq = 1\<rparr>\<rparr>"

definition value_env :: rekuest_env where
  "value_env = demo_env\<lparr>json_patch := \<lambda>op d. json_member ''value'' op\<rparr>"

definition demo_init :: session_init where
  "demo_init = \<lparr>msg_id = ''m'', si_session_id = ''s9'', si_states = [(''pos'', JInt 0)]\<rparr>"

definition demo_patch :: "string \<Rightarrow> int \<Rightarrow> int \<Rightarrow> state_patch" where
  "demo_patch op revision v =
     \<lparr>msg_id = ''m'', sp_session_id = ''s9'', sp_global_rev = revision, sp_state_name = ''pos'', sp_ts = ''t'',
      sp_op = op, sp_path = ''/'', sp_value = JInt v, sp_old_value = None, sp_task_id = None\<rparr>"

definition demo_reports :: reports where
  "demo_reports = [(5, 1, demo_patch ''replace'' 1 3), (6, 1, demo_patch ''remove'' 2 0), (7, 1, demo_patch ''replace'' 3 4)]"

lemma demo_run:
  "fst (on_agent_session_init 1 demo_init state_world) = Inr ()"
  "fst (report_patches demo_reports (snd (on_agent_session_init 1 demo_init state_world))) = Inr ()"
  by code_simp+


section \<open>Queries that fail\<close>

text \<open>
  No query by revision reads a row: each filters or orders by a column its model does not have, so
  once its keys are numbers it ends in a FieldError, whatever the tables hold.
\<close>

theorem revision_queries_fail:
  "\<exists>c. forward_events_after_rev r state session n w = Inl (FieldError c)"
  "to_r < from_r \<or> (\<exists>c. patch_events_between_global_revs from_r to_r states session w = Inl (FieldError c))"
  "\<exists>c. get_boundary_aggregates found = Inl (FieldError c)"
  "wire_fk session = Inr k \<longrightarrow> (\<exists>c. get_state_at_revision env r i session use_global w = Inl (FieldError c))"
  by (auto simp: forward_events_after_rev_def patch_events_between_global_revs_def get_boundary_aggregates_def
      get_state_at_revision_def with_columns_def patch_column_def snapshot_column_def)

text \<open>
  A checkout at a time stamp finds no session unless the agent happens to have one whose identifier
  is the decimal primary key of the session the last patch belongs to.
\<close>

theorem checkout_at_a_time_misses_the_session:
  assumes "t_get_wire ''State'' (w_states w) state = Inr (i, s)"
    and "first_row (order_by_desc pt_timestamp
      (t_filter (\<lambda>p. (pt_state p = i \<and> pt_agent p = Some (st_agent s)) \<and> pt_timestamp p \<le> ts) (w_patches w))) = Some (j, p)"
    and "pt_session p = Some k"
    and "t_filter (\<lambda>r. se_agent r = st_agent s \<and> se_session_id r = str_of_nat k) (w_sessions w) = []"
  shows "checkout env state session revision (Some ts) f b w = Inl (DoesNotExist ''Session'')"
proof -
  have "session_of (st_agent s) (Some (str_of_nat k)) w = Inl (DoesNotExist ''Session'')"
  proof -
    obtain c cs where "str_of_nat k = c # cs" by (cases "str_of_nat k") auto
    with assms(4) show ?thesis by (simp add: session_of_def filled_def)
  qed
  then show ?thesis
    using assms(1-3) by (simp add: checkout_def checkout_target_def patch_session_def get_latest_state_def)
qed

end
