(* ===== verification/Scan_Properties.thy ===== *)
theory Scan_Properties
  imports Json_Scan
begin

text \<open>What the scanner of JSON ports selects, as a reference definition over the ports.\<close>

definition text_fits :: "string \<Rightarrow> string option \<Rightarrow> json \<Rightarrow> bool" where
  "text_fits f wanted item = (case wanted of None \<Rightarrow> True | Some s \<Rightarrow> member_text f item = Some s)"

definition item_fits :: "port_match \<Rightarrow> nat \<Rightarrow> json \<Rightarrow> bool" where
  "item_fits m n item \<longleftrightarrow>
     (case pm_at m of None \<Rightarrow> True | Some k \<Rightarrow> k = int n) \<and>
     text_fits ''key'' (filled (pm_key m)) item \<and>
     text_fits ''kind'' (map_option port_kind_value (pm_kind m)) item \<and>
     text_fits ''identifier'' (filled (pm_identifier m)) item"

definition some_item_fits :: "port_match \<Rightarrow> json list \<Rightarrow> bool" where
  "some_item_fits m items = list_ex (\<lambda>(n, item). item_fits m n item) (enumerate 0 items)"

text \<open>A match the scanner supports, without children, that asks for something.\<close>

definition plain_match :: "port_match \<Rightarrow> bool" where
  "plain_match m \<longleftrightarrow>
     match_descriptors m = [] \<and> pm_nullable m = None \<and> match_children m = [] \<and>
     (pm_at m \<noteq> None \<or> filled (pm_key m) \<noteq> None \<or> pm_kind m \<noteq> None \<or> filled (pm_identifier m) \<noteq> None)"

lemma given_filled: "given s = map_option V_str (filled s)"
  by (simp add: given_def filled_def split: option.split list.split)

text \<open>The parameters of the clause of one match.\<close>

definition scan_keys :: "nat \<Rightarrow> string set" where
  "scan_keys i = {''arg_at_'' @ str_of_nat i, ''arg_key_'' @ str_of_nat i, ''arg_kind_'' @ str_of_nat i,
     ''arg_identifier_'' @ str_of_nat i}"

lemma scan_keys_disjoint: "k \<in> scan_keys i \<Longrightarrow> k \<in> scan_keys j \<Longrightarrow> i = j"
  by (auto simp: scan_keys_def)

lemma dict_update_Nil [simp]: "dict_update d [] = d"
  by (simp add: dict_update_def)

lemma get_empty [simp]: "dict_get [] k = None"
  by (simp add: dict_get_def)

lemma add_scan_get:
  "dict_get (snd (add_scan mk key v s)) k = (if k = key \<and> v \<noteq> None then v else dict_get (snd s) k)"
  by (simp add: add_scan_def split: option.split)

lemma add_scan_distinct: "distinct (map fst (snd s)) \<Longrightarrow> distinct (map fst (snd (add_scan mk key v s)))"
  by (simp add: add_scan_def distinct_dict_set split: option.split)

lemma plain_build:
  assumes "match_children m = []"
  shows "distinct (map fst (snd (build_sql_for_item_recursive m i)))"
    and "dict_get (snd (build_sql_for_item_recursive m i)) k \<noteq> None \<Longrightarrow> k \<in> scan_keys i"
  using assms
  by (auto simp: build_sql_for_item_recursive_def Let_def add_scan_get scan_keys_def
      intro!: add_scan_distinct split: if_splits)

lemma plain_holds:
  assumes "match_children m = []"
    and "\<And>k v. dict_get (snd (build_sql_for_item_recursive m i)) k = Some v \<Longrightarrow> dict_get ps k = Some v"
  shows "list_all (scan_holds ps (Suc n) item) (fst (build_sql_for_item_recursive m i)) \<longleftrightarrow> item_fits m n item"
proof -
  let ?get = "dict_get (snd (build_sql_for_item_recursive m i))"
  have get: "?get (''arg_at_'' @ str_of_nat i) = map_option (\<lambda>n. V_int (n + 1)) (pm_at m)"
    "?get (''arg_key_'' @ str_of_nat i) = given (pm_key m)"
    "?get (''arg_kind_'' @ str_of_nat i) = kind_given m"
    "?get (''arg_identifier_'' @ str_of_nat i) = given (pm_identifier m)"
    using assms(1) by (simp_all add: build_sql_for_item_recursive_def Let_def add_scan_get)
  have conds: "fst (build_sql_for_item_recursive m i) =
      (if pm_at m = None then [] else [Item_at (''arg_at_'' @ str_of_nat i)]) @
      (if given (pm_key m) = None then [] else [Item_is F_key (''arg_key_'' @ str_of_nat i)]) @
      (if kind_given m = None then [] else [Item_is F_kind (''arg_kind_'' @ str_of_nat i)]) @
      (if given (pm_identifier m) = None then [] else [Item_is F_identifier (''arg_identifier_'' @ str_of_nat i)])"
    using assms(1) by (simp add: build_sql_for_item_recursive_def Let_def add_scan_def split: option.split)
  have at: "(if pm_at m = None then True else scan_holds ps (Suc n) item (Item_at (''arg_at_'' @ str_of_nat i))) \<longleftrightarrow>
      (case pm_at m of None \<Rightarrow> True | Some k \<Rightarrow> k = int n)"
    using assms(2) [of "''arg_at_'' @ str_of_nat i"] get(1) by (cases "pm_at m") auto
  have key: "(if given (pm_key m) = None then True else scan_holds ps (Suc n) item (Item_is F_key (''arg_key_'' @ str_of_nat i))) \<longleftrightarrow>
      text_fits ''key'' (filled (pm_key m)) item"
    using assms(2) [of "''arg_key_'' @ str_of_nat i"] get(2)
    by (cases "filled (pm_key m)") (auto simp: given_filled text_fits_def split: option.split)
  have kind: "(if kind_given m = None then True else scan_holds ps (Suc n) item (Item_is F_kind (''arg_kind_'' @ str_of_nat i))) \<longleftrightarrow>
      text_fits ''kind'' (map_option port_kind_value (pm_kind m)) item"
    using assms(2) [of "''arg_kind_'' @ str_of_nat i"] get(3)
    by (cases "pm_kind m") (auto simp: kind_given_def text_fits_def split: option.split)
  have ident: "(if given (pm_identifier m) = None then True else scan_holds ps (Suc n) item (Item_is F_identifier (''arg_identifier_'' @ str_of_nat i))) \<longleftrightarrow>
      text_fits ''identifier'' (filled (pm_identifier m)) item"
    using assms(2) [of "''arg_identifier_'' @ str_of_nat i"] get(4)
    by (cases "filled (pm_identifier m)") (auto simp: given_filled text_fits_def split: option.split)
  have "list_all P (if b then [] else [c]) = (if b then True else P c)" for P b and c :: scan by simp
  then show ?thesis unfolding conds list_all_append item_fits_def at [symmetric] key [symmetric] kind [symmetric] ident [symmetric]
    by simp
qed

lemma plain_conditions: "plain_match m \<Longrightarrow> fst (build_sql_for_item_recursive m i) \<noteq> []"
  by (auto simp: plain_match_def build_sql_for_item_recursive_def Let_def add_scan_def given_filled kind_given_def
      split: option.split)

lemma plain_supported: "plain_match m \<Longrightarrow> reject_unsupported_legacy_match_fields m = Inr ()"
  by (simp add: plain_match_def reject_unsupported_legacy_match_fields.simps)

section \<open>All matches together\<close>

definition scan_all :: "string \<Rightarrow> nat \<Rightarrow> port_match list \<Rightarrow> array_condition list \<times> params \<Rightarrow> array_condition list \<times> params" where
  "scan_all column n ms s =
     fold (\<lambda>(index, item) s. let sql = build_sql_for_item_recursive item index in
             (fst s @ [Some_item column (fst sql)], dict_update (snd s) (snd sql))) (enumerate n ms) s"

lemma scan_all_Cons:
  "scan_all column n (m # ms) s =
     scan_all column (Suc n) ms (fst s @ [Some_item column (fst (build_sql_for_item_recursive m n))],
       dict_update (snd s) (snd (build_sql_for_item_recursive m n)))"
  by (simp add: scan_all_def Let_def)

lemma scan_all_clauses:
  "fst (scan_all column n ms s) =
     fst s @ map (\<lambda>(i, m). Some_item column (fst (build_sql_for_item_recursive m i))) (enumerate n ms)"
  by (induction ms arbitrary: n s) (simp_all add: scan_all_Cons, simp add: scan_all_def)

lemma scan_all_old:
  "\<forall>m \<in> set ms. match_children m = [] \<Longrightarrow> k \<in> scan_keys j \<Longrightarrow> j < n \<Longrightarrow>
   dict_get (snd (scan_all column n ms s)) k = dict_get (snd s) k"
proof (induction ms arbitrary: n s)
  case Nil
  then show ?case by (simp add: scan_all_def)
next
  case (Cons m ms)
  have "dict_get (snd (build_sql_for_item_recursive m n)) k = None"
    using plain_build(2) [of m n k] Cons.prems scan_keys_disjoint [of k j n] by (metis list.set_intros(1) nat_neq_iff)
  with Cons.IH [of "Suc n"] Cons.prems plain_build(1) [of m n] show ?case
    by (simp add: scan_all_Cons dict_get_update)
qed

lemma scan_all_get:
  assumes "\<forall>m \<in> set ms. match_children m = []" and "(i, m) \<in> set (enumerate n ms)"
    and "dict_get (snd (build_sql_for_item_recursive m i)) k = Some v"
  shows "dict_get (snd (scan_all column n ms s)) k = Some v"
  using assms
proof (induction ms arbitrary: n s)
  case (Cons m' ms)
  show ?case
  proof (cases "i = n \<and> m = m'")
    case True
    have "k \<in> scan_keys i" using plain_build(2) [of m i k] Cons.prems True by auto
    with scan_all_old [of ms k i "Suc n"] Cons.prems True plain_build(1) [of m n] show ?thesis
      by (simp add: scan_all_Cons dict_get_update)
  next
    case False
    with Cons.prems have "(i, m) \<in> set (enumerate (Suc n) ms)" by auto
    with Cons.IH [OF _ this] Cons.prems show ?thesis by (simp add: scan_all_Cons)
  qed
qed simp

lemma enumerate_one: "list_ex (\<lambda>(idx, item). P idx item) (enumerate (Suc k) xs) = list_ex (\<lambda>(n, item). P (Suc n) item) (enumerate k xs)"
  by (induction xs arbitrary: k) simp_all

lemma scan_holds_all:
  assumes "\<forall>m \<in> set ms. match_children m = []"
  shows "list_all (array_holds (snd (scan_all column 0 ms ([], []))) items) (fst (scan_all column 0 ms ([], []))) \<longleftrightarrow>
    (\<forall>m \<in> set ms. some_item_fits m items)"
proof -
  have one: "array_holds (snd (scan_all column 0 ms ([], []))) items (Some_item column (fst (build_sql_for_item_recursive m i))) \<longleftrightarrow>
      some_item_fits m items" if "(i, m) \<in> set (enumerate 0 ms)" for i m
  proof -
    have m: "match_children m = []" using assms that by (auto simp: in_set_enumerate_eq)
    note fits = plain_holds [OF m, of i "snd (scan_all column 0 ms ([], []))"]
    show ?thesis
      using fits scan_all_get [OF assms that]
      by (simp add: some_item_fits_def enumerate_one [of _ 0, simplified])
  qed
  have members: "(\<forall>x \<in> set (enumerate 0 ms). some_item_fits (snd x) items) \<longleftrightarrow> (\<forall>m \<in> set ms. some_item_fits m items)"
    by (metis (no_types, lifting) enumerate_eq_zip in_set_impl_in_set_zip2 length_upt minus_nat.diff_0 plus_nat.add_0 set_zip_rightD snd_conv prod.collapse)
  show ?thesis unfolding scan_all_clauses members [symmetric] using one by (auto simp: list_all_iff)
qed


text \<open>A definition with one port that has two children.\<close>

definition list_port :: json where
  "list_port = JDict [(''key'', JStr ''xs''), (''kind'', JStr ''MODEL''),
     (''children'', JList [JDict [(''key'', JStr ''a'')], JDict [(''key'', JStr ''b'')]])]"

definition scan_world :: world where
  "scan_world = empty_world\<lparr>w_state_definitions :=
     \<lparr>rows = [(1, \<lparr>sdf_name = ''n'', sdf_hash = ''h'', sdf_ports = [list_port], sdf_description = []\<rparr>)], seq = 1\<rparr>\<rparr>"

definition key_match :: "int option \<Rightarrow> string \<Rightarrow> port_match list option \<Rightarrow> port_match" where
  "key_match p k cs = PortMatch p (Some k) None None None None None cs"


text \<open>A child is compared with the one after it: the first of a match with the second of the port.\<close>

lemma children_are_shifted:
  "get_state_ids_by_demands (Some [key_match None ''xs'' (Some [key_match None ''a'' None])]) scan_world = Inr []"
  "get_state_ids_by_demands (Some [key_match None ''xs'' (Some [key_match None ''b'' None])]) scan_world = Inr [1]"
  by code_simp+

end
