(* ===== verification/Cascade.thy ===== *)
theory Cascade
  imports Port_Storage
begin

text \<open>
  What deleting rows takes with it: the \<^verbatim>\<open>on_delete\<close> of every foreign key of \<^verbatim>\<open>facade/models\<close> between the
  modelled tables. CASCADE deletes the referring rows, SET_NULL clears the reference, PROTECT refuses
  the whole deletion, and the rows of a many-to-many relation go with either end.
\<close>

section \<open>The closure of a deletion\<close>

definition keys_where :: "('r \<Rightarrow> bool) \<Rightarrow> 'r table \<Rightarrow> nat list" where
  "keys_where P t = map fst (t_filter P t)"

definition refers :: "nat option \<Rightarrow> nat list \<Rightarrow> bool" where
  "refers k ks = (case k of None \<Rightarrow> False | Some i \<Rightarrow> i \<in> set ks)"

text \<open>A task goes with its parent and with its root. One round adds the tasks directly below; as many
  rounds as there are tasks add all of them.\<close>

definition tasks_below :: "task table \<Rightarrow> nat list \<Rightarrow> nat list" where
  "tasks_below t ks = ks @ map fst (filter (\<lambda>(k, r). k \<notin> set ks \<and> (refers (tk_parent r) ks \<or> refers (tk_root r) ks)) (rows t))"

fun rounds :: "nat \<Rightarrow> task table \<Rightarrow> nat list \<Rightarrow> nat list" where
  "rounds 0 t ks = ks"
| "rounds (Suc n) t ks = rounds n t (tasks_below t ks)"

definition task_trees :: "task table \<Rightarrow> nat list \<Rightarrow> nat list" where
  "task_trees t ks = rounds (length (rows t)) t ks"

text \<open>The keys a deletion starts from, and everything that goes.\<close>

record doomed =
  dm_agents :: "nat list"
  dm_actions :: "nat list"
  dm_implementations :: "nat list"
  dm_resolutions :: "nat list"
  dm_states :: "nat list"
  dm_sessions :: "nat list"
  dm_tasks :: "nat list"

definition nothing :: doomed where
  "nothing = \<lparr>dm_agents = [], dm_actions = [], dm_implementations = [], dm_resolutions = [], dm_states = [],
     dm_sessions = [], dm_tasks = []\<rparr>"

text \<open>The rows of each table that go with the rows they refer to.\<close>

definition implementation_goes :: "nat list \<Rightarrow> nat list \<Rightarrow> implementation \<Rightarrow> bool" where
  [simp]: "implementation_goes agents actions r \<longleftrightarrow> im_action r \<in> set actions \<or> im_agent r \<in> set agents"

definition resolution_goes :: "nat list \<Rightarrow> resolution \<Rightarrow> bool" where
  [simp]: "resolution_goes implementations r \<longleftrightarrow> rsn_implementation r \<in> set implementations"

definition task_goes :: "nat list \<Rightarrow> nat list \<Rightarrow> nat list \<Rightarrow> nat list \<Rightarrow> task \<Rightarrow> bool" where
  [simp]: "task_goes agents actions implementations resolutions r \<longleftrightarrow>
     tk_action r \<in> set actions \<or> refers (tk_implementation r) implementations \<or>
     refers (tk_resolution r) resolutions \<or> tk_agent r \<in> set agents"

definition event_goes :: "nat list \<Rightarrow> task_event \<Rightarrow> bool" where
  [simp]: "event_goes tasks r \<longleftrightarrow> te_task r \<in> set tasks \<or> refers (te_delegated_to r) tasks"

definition resolved_goes :: "nat list \<Rightarrow> resolved_dependency \<Rightarrow> bool" where
  [simp]: "resolved_goes resolutions r \<longleftrightarrow>
     rsd_resolution r \<in> set resolutions \<or> refers (rsd_down_stream_resolution r) resolutions"

definition protects :: "nat list \<Rightarrow> resolved_dependency \<Rightarrow> bool" where
  [simp]: "protects implementations r \<longleftrightarrow> rsd_implementation r \<in> set implementations"

definition patch_goes :: "doomed \<Rightarrow> patch \<Rightarrow> bool" where
  [simp]: "patch_goes d r \<longleftrightarrow>
     pt_state r \<in> set (dm_states d) \<or> refers (pt_agent r) (dm_agents d) \<or>
     refers (pt_session r) (dm_sessions d) \<or> refers (pt_task r) (dm_tasks d)"

definition snapshot_goes :: "doomed \<Rightarrow> snapshot \<Rightarrow> bool" where
  [simp]: "snapshot_goes d r \<longleftrightarrow>
     sn_state r \<in> set (dm_states d) \<or> refers (sn_agent r) (dm_agents d) \<or> refers (sn_session r) (dm_sessions d)"

definition collect_doomed :: "doomed \<Rightarrow> world \<Rightarrow> doomed" where
  "collect_doomed d w =
     (let agents = dm_agents d;
          actions = dm_actions d;
          impls = dm_implementations d @
            keys_where (implementation_goes agents actions) (w_implementations w);
          resolutions = dm_resolutions d @ keys_where (resolution_goes impls) (w_resolutions w);
          states = dm_states d @ keys_where (\<lambda>r. st_agent r \<in> set agents) (w_states w);
          sessions = dm_sessions d @ keys_where (\<lambda>r. se_agent r \<in> set agents) (w_sessions w);
          tasks = task_trees (w_tasks w)
            (dm_tasks d @ keys_where (task_goes agents actions impls resolutions) (w_tasks w)) in
      \<lparr>dm_agents = agents, dm_actions = actions, dm_implementations = impls, dm_resolutions = resolutions,
       dm_states = states, dm_sessions = sessions, dm_tasks = tasks\<rparr>)"

section \<open>Removing it\<close>

definition t_map :: "('r \<Rightarrow> 'r) \<Rightarrow> 'r table \<Rightarrow> 'r table" where
  "t_map f t = t\<lparr>rows := map (\<lambda>(k, r). (k, f r)) (rows t)\<rparr>"

definition cleared :: "nat list \<Rightarrow> nat option \<Rightarrow> nat option" where
  "cleared ks k = (if refers k ks then None else k)"

definition without :: "nat list \<Rightarrow> nat list \<Rightarrow> nat list" where
  "without ks xs = filter (\<lambda>k. k \<notin> set ks) xs"

definition dropped_dependencies :: "doomed \<Rightarrow> world \<Rightarrow> nat list" where
  "dropped_dependencies d w = keys_where (\<lambda>r. de_implementation r \<in> set (dm_implementations d)) (w_dependencies w)"

definition dropped_shelves :: "doomed \<Rightarrow> world \<Rightarrow> nat list" where
  "dropped_shelves d w = keys_where (\<lambda>r. sh_agent r \<in> set (dm_agents d)) (w_shelves w)"

definition remove_doomed :: "doomed \<Rightarrow> world \<Rightarrow> world" where
  "remove_doomed d w = w
     \<lparr>w_agents := t_del (\<lambda>k r. k \<in> set (dm_agents d)) (w_agents w),
      w_actions := t_map (\<lambda>r. r\<lparr>ac_is_test_for := without (dm_actions d) (ac_is_test_for r)\<rparr>)
        (t_del (\<lambda>k r. k \<in> set (dm_actions d)) (w_actions w)),
      w_arg_ports := t_del (\<lambda>k r. pr_action r \<in> set (dm_actions d)) (w_arg_ports w),
      w_return_ports := t_del (\<lambda>k r. pr_action r \<in> set (dm_actions d)) (w_return_ports w),
      w_implementations :=
        t_map (\<lambda>r. r\<lparr>im_higher_order_for := cleared (dm_implementations d) (im_higher_order_for r),
                      im_manipulates := without (dm_states d) (im_manipulates r)\<rparr>)
          (t_del (\<lambda>k r. k \<in> set (dm_implementations d)) (w_implementations w)),
      w_dependencies := t_del (\<lambda>k r. de_implementation r \<in> set (dm_implementations d)) (w_dependencies w),
      w_resolutions := t_del (\<lambda>k r. k \<in> set (dm_resolutions d)) (w_resolutions w),
      w_resolved :=
        t_map (\<lambda>r. r\<lparr>rsd_dependency := cleared (dropped_dependencies d w) (rsd_dependency r)\<rparr>)
          (t_del (\<lambda>k r. resolved_goes (dm_resolutions d) r) (w_resolved w)),
      w_tasks := t_del (\<lambda>k r. k \<in> set (dm_tasks d)) (w_tasks w),
      w_events := t_del (\<lambda>k r. event_goes (dm_tasks d) r) (w_events w),
      w_locks := t_map (\<lambda>r. r\<lparr>lo_hold_by := cleared (dm_tasks d) (lo_hold_by r)\<rparr>)
        (t_del (\<lambda>k r. lo_agent r \<in> set (dm_agents d)) (w_locks w)),
      w_states := t_del (\<lambda>k r. k \<in> set (dm_states d)) (w_states w),
      w_sessions := t_del (\<lambda>k r. k \<in> set (dm_sessions d)) (w_sessions w),
      w_patches := t_del (\<lambda>k r. patch_goes d r) (w_patches w),
      w_snapshots := t_del (\<lambda>k r. snapshot_goes d r) (w_snapshots w),
      w_shelves := t_del (\<lambda>k r. sh_agent r \<in> set (dm_agents d)) (w_shelves w),
      w_drawers := t_del (\<lambda>k r. dr_shelve r \<in> set (dropped_shelves d w)) (w_drawers w)\<rparr>"

definition delete_rows :: "doomed \<Rightarrow> world \<Rightarrow> unit outcome \<times> world" where
  "delete_rows start w =
     (let d = collect_doomed start w in
      if keys_where (protects (dm_implementations d)) (w_resolved w) \<noteq> []
      then (Inl (ProtectedError ''ResolvedDependency.implementation''), w)
      else (Inr (), remove_doomed d w))"

section \<open>References\<close>

definition has_row :: "'r table \<Rightarrow> nat \<Rightarrow> bool" where
  "has_row t k \<longleftrightarrow> t_get t k \<noteq> None"

definition maybe_row :: "'r table \<Rightarrow> nat option \<Rightarrow> bool" where
  "maybe_row t k = (case k of None \<Rightarrow> True | Some i \<Rightarrow> has_row t i)"

definition every :: "('r \<Rightarrow> bool) \<Rightarrow> 'r table \<Rightarrow> bool" where
  "every P t \<longleftrightarrow> list_all (\<lambda>(k, r). P r) (rows t)"

text \<open>The references of one row of each table.\<close>

definition action_refs :: "world \<Rightarrow> action \<Rightarrow> bool" where
  "action_refs w r \<longleftrightarrow> list_all (has_row (w_actions w)) (ac_is_test_for r)"

definition port_refs :: "world \<Rightarrow> port_row \<Rightarrow> bool" where
  "port_refs w r \<longleftrightarrow> has_row (w_actions w) (pr_action r)"

definition implementation_refs :: "world \<Rightarrow> implementation \<Rightarrow> bool" where
  "implementation_refs w r \<longleftrightarrow>
     has_row (w_actions w) (im_action r) \<and> has_row (w_agents w) (im_agent r) \<and>
     maybe_row (w_implementations w) (im_higher_order_for r) \<and> list_all (has_row (w_states w)) (im_manipulates r)"

definition dependency_refs :: "world \<Rightarrow> dependency \<Rightarrow> bool" where
  "dependency_refs w r \<longleftrightarrow> has_row (w_implementations w) (de_implementation r)"

definition resolution_refs :: "world \<Rightarrow> resolution \<Rightarrow> bool" where
  "resolution_refs w r \<longleftrightarrow> has_row (w_implementations w) (rsn_implementation r)"

definition resolved_refs :: "world \<Rightarrow> resolved_dependency \<Rightarrow> bool" where
  "resolved_refs w r \<longleftrightarrow>
     has_row (w_resolutions w) (rsd_resolution r) \<and> maybe_row (w_dependencies w) (rsd_dependency r) \<and>
     has_row (w_implementations w) (rsd_implementation r) \<and> maybe_row (w_resolutions w) (rsd_down_stream_resolution r)"

definition task_refs :: "world \<Rightarrow> task \<Rightarrow> bool" where
  "task_refs w r \<longleftrightarrow>
     has_row (w_actions w) (tk_action r) \<and> has_row (w_agents w) (tk_agent r) \<and>
     maybe_row (w_implementations w) (tk_implementation r) \<and> maybe_row (w_resolutions w) (tk_resolution r) \<and>
     maybe_row (w_tasks w) (tk_parent r) \<and> maybe_row (w_tasks w) (tk_root r)"

definition event_refs :: "world \<Rightarrow> task_event \<Rightarrow> bool" where
  "event_refs w r \<longleftrightarrow> has_row (w_tasks w) (te_task r) \<and> maybe_row (w_tasks w) (te_delegated_to r)"

definition lock_refs :: "world \<Rightarrow> lock_row \<Rightarrow> bool" where
  "lock_refs w r \<longleftrightarrow> has_row (w_agents w) (lo_agent r) \<and> maybe_row (w_tasks w) (lo_hold_by r)"

definition state_refs :: "world \<Rightarrow> state \<Rightarrow> bool" where
  "state_refs w r \<longleftrightarrow> has_row (w_agents w) (st_agent r)"

definition session_refs :: "world \<Rightarrow> session \<Rightarrow> bool" where
  "session_refs w r \<longleftrightarrow> has_row (w_agents w) (se_agent r)"

definition patch_refs :: "world \<Rightarrow> patch \<Rightarrow> bool" where
  "patch_refs w r \<longleftrightarrow>
     has_row (w_states w) (pt_state r) \<and> maybe_row (w_agents w) (pt_agent r) \<and>
     maybe_row (w_sessions w) (pt_session r) \<and> maybe_row (w_tasks w) (pt_task r)"

definition snapshot_refs :: "world \<Rightarrow> snapshot \<Rightarrow> bool" where
  "snapshot_refs w r \<longleftrightarrow>
     has_row (w_states w) (sn_state r) \<and> maybe_row (w_agents w) (sn_agent r) \<and> maybe_row (w_sessions w) (sn_session r)"

definition shelve_refs :: "world \<Rightarrow> memory_shelve \<Rightarrow> bool" where
  "shelve_refs w r \<longleftrightarrow> has_row (w_agents w) (sh_agent r)"

definition drawer_refs :: "world \<Rightarrow> memory_drawer \<Rightarrow> bool" where
  "drawer_refs w r \<longleftrightarrow> has_row (w_shelves w) (dr_shelve r)"

text \<open>Every reference between the modelled tables names a row.\<close>

definition references_ok :: "world \<Rightarrow> bool" where
  "references_ok w \<longleftrightarrow>
     every (action_refs w) (w_actions w) \<and> every (port_refs w) (w_arg_ports w) \<and> every (port_refs w) (w_return_ports w) \<and>
     every (implementation_refs w) (w_implementations w) \<and> every (dependency_refs w) (w_dependencies w) \<and>
     every (resolution_refs w) (w_resolutions w) \<and> every (resolved_refs w) (w_resolved w) \<and>
     every (task_refs w) (w_tasks w) \<and> every (event_refs w) (w_events w) \<and> every (lock_refs w) (w_locks w) \<and>
     every (state_refs w) (w_states w) \<and> every (session_refs w) (w_sessions w) \<and> every (patch_refs w) (w_patches w) \<and>
     every (snapshot_refs w) (w_snapshots w) \<and> every (shelve_refs w) (w_shelves w) \<and> every (drawer_refs w) (w_drawers w)"

lemmas refs_defs = action_refs_def port_refs_def implementation_refs_def dependency_refs_def resolution_refs_def
  resolved_refs_def task_refs_def event_refs_def lock_refs_def state_refs_def session_refs_def patch_refs_def
  snapshot_refs_def shelve_refs_def drawer_refs_def

end
