(* ===== verification/Registration.thy ===== *)
theory Registration
  imports Cascade Json_Scan Higher_Order Provenance Postman
begin

text \<open>
  Registering what an agent offers: \<^verbatim>\<open>facade/mutations/implementation.py\<close> and
  \<^verbatim>\<open>facade/mutations/agent.py\<close>. The code works on objects loaded from the database: a primary key with
  the columns as they were read, written back by \<^verbatim>\<open>save()\<close>. A batch keeps its objects in two
  dictionaries, so an object can outlive its row. The many-to-many relations of an object are not
  among its columns.
\<close>

section \<open>Requests and transactions\<close>

record request_ctx =
  rq_client :: nat
  rq_user :: nat
  rq_organization :: nat

text \<open>
  A transaction takes back everything on an exception. The references of an implementation are
  checked when the outermost one commits.
\<close>

definition commit_ok :: "world \<Rightarrow> bool" where
  "commit_ok w \<longleftrightarrow>
     every (\<lambda>r. has_row (w_actions w) (im_action r) \<and> maybe_row (w_implementations w) (im_higher_order_for r))
       (w_implementations w)"

definition atomic :: "(world \<Rightarrow> 'a outcome \<times> world) \<Rightarrow> world \<Rightarrow> 'a outcome \<times> world" where
  "atomic body w =
     (case body w of
        (Inl e, _) \<Rightarrow> (Inl e, w)
      | (Inr x, w') \<Rightarrow> if commit_ok w' then (Inr x, w') else (Inl (IntegrityError ''foreign key''), w))"

section \<open>Objects\<close>

type_synonym action_obj = "nat \<times> action"
type_synonym implementation_obj = "nat \<times> implementation"

definition t_put :: "nat \<Rightarrow> 'r \<Rightarrow> 'r table \<Rightarrow> 'r table" where
  "t_put k r t = (if t_get t k = None then t\<lparr>rows := rows t @ [(k, r)]\<rparr> else t_upd k (\<lambda>_. r) t)"

text \<open>A save writes all columns, or inserts the row again under its key when it is gone.\<close>

definition with_action_relations :: "action option \<Rightarrow> action \<Rightarrow> action" where
  "with_action_relations old a =
     (case old of
        None \<Rightarrow> a\<lparr>ac_collections := [], ac_is_test_for := [], ac_protocols := []\<rparr>
      | Some r \<Rightarrow> a\<lparr>ac_collections := ac_collections r, ac_is_test_for := ac_is_test_for r, ac_protocols := ac_protocols r\<rparr>)"

definition save_action :: "action_obj \<Rightarrow> world \<Rightarrow> world" where
  "save_action x w =
     w\<lparr>w_actions := t_put (fst x) (with_action_relations (t_get (w_actions w) (fst x)) (snd x)) (w_actions w)\<rparr>"

text \<open>A save of named columns needs the row.\<close>

definition save_action_fields :: "nat \<Rightarrow> (action \<Rightarrow> action) \<Rightarrow> world \<Rightarrow> unit outcome \<times> world" where
  "save_action_fields k f w =
     (if t_get (w_actions w) k = None then (Inl (DatabaseError ''Save with update_fields did not affect any rows''), w)
      else (Inr (), w\<lparr>w_actions := t_upd k f (w_actions w)\<rparr>))"

definition same_action :: "action \<Rightarrow> action \<Rightarrow> bool" where
  "same_action a r \<longleftrightarrow>
     ac_organization r = ac_organization a \<and> ac_app r = ac_app a \<and> ac_key r = ac_key a \<and> ac_version r = ac_version a"

definition create_action :: "action \<Rightarrow> world \<Rightarrow> nat outcome \<times> world" where
  "create_action a w =
     (if t_filter (same_action a) (w_actions w) \<noteq> [] then (Inl (IntegrityError ''key and version''), w)
      else (Inr (Suc (seq (w_actions w))), w\<lparr>w_actions := t_add a (w_actions w)\<rparr>))"

text \<open>One implementation per interface and per action of an agent.\<close>

definition clashes :: "nat \<Rightarrow> implementation \<Rightarrow> nat \<times> implementation \<Rightarrow> bool" where
  "clashes k r x \<longleftrightarrow>
     fst x \<noteq> k \<and> im_agent (snd x) = im_agent r \<and>
     (im_interface (snd x) = im_interface r \<or> im_action (snd x) = im_action r)"

definition save_implementation :: "implementation_obj \<Rightarrow> world \<Rightarrow> unit outcome \<times> world" where
  "save_implementation x w =
     (if list_ex (clashes (fst x) (snd x)) (rows (w_implementations w)) then (Inl (IntegrityError ''implementation''), w)
      else
        (Inr (), w\<lparr>w_implementations :=
           t_put (fst x)
             ((snd x)\<lparr>im_manipulates := (case t_get (w_implementations w) (fst x) of None \<Rightarrow> [] | Some r \<Rightarrow> im_manipulates r)\<rparr>)
             (w_implementations w)\<rparr>))"

definition insert_implementation :: "implementation \<Rightarrow> world \<Rightarrow> nat outcome \<times> world" where
  "insert_implementation r w =
     (let k = Suc (seq (w_implementations w)) in
      if list_ex (clashes k r) (rows (w_implementations w)) then (Inl (IntegrityError ''implementation''), w)
      else (Inr k, w\<lparr>w_implementations := t_add r (w_implementations w)\<rparr>))"

section \<open>Hashes\<close>

definition hashed_keys :: "string list" where
  "hashed_keys = [''name'', ''description'', ''args'', ''returns'', ''stateful'', ''is_test_for'', ''collections'',
     ''dependencies'', ''key'', ''version'']"

definition unique_hash :: "'c env \<Rightarrow> definition_input \<Rightarrow> string" where
  "unique_hash env d =
     sha256_hex env (py_dumps True (JDict (filter (\<lambda>kv. fst kv \<in> set hashed_keys) (dump_definition env d))))"

definition hash_state_definition :: "'c env \<Rightarrow> state_definition_input \<Rightarrow> string" where
  "hash_state_definition env d =
     sha256_hex env (py_dumps True (JDict (filter (\<lambda>kv. fst kv = ''ports'') (dump_state_definition env d))))"

section \<open>What an action is derived from\<close>

definition target_matches :: "'c env \<Rightarrow> nat \<Rightarrow> test_target_input \<Rightarrow> action \<Rightarrow> bool" where
  "target_matches env app target a =
     (case filled (tt_hash target) of
        Some h \<Rightarrow> ac_hash a = h
      | None \<Rightarrow>
          Some (ac_key a) = tt_key target \<and>
          (case filled (tt_app target) of Some i \<Rightarrow> app_identifier_of env (ac_app a) = i | None \<Rightarrow> ac_app a = app) \<and>
          (case filled (tt_version target) of Some v \<Rightarrow> ac_version a = v | None \<Rightarrow> True))"

definition resolve_test_targets :: "'c env \<Rightarrow> definition_input \<Rightarrow> agent \<Rightarrow> world \<Rightarrow> nat list" where
  "resolve_test_targets env d ag w =
     map fst (t_filter (\<lambda>a. ac_organization a = ag_organization ag \<and>
       list_ex (\<lambda>target. target_matches env (ag_app ag) target a) (df_is_test_for d)) (w_actions w))"

text \<open>\<^verbatim>\<open>Protocol.objects.update_or_create\<close> per inferred protocol.\<close>

definition upsert_protocol :: "string \<times> string \<Rightarrow> world \<Rightarrow> nat \<times> world" where
  "upsert_protocol nd w =
     (case t_first (\<lambda>p. pt_name p = fst nd) (w_protocols w) of
        Some (k, _) \<Rightarrow> (k, w\<lparr>w_protocols := t_upd k (\<lambda>p. p\<lparr>pt_description := snd nd\<rparr>) (w_protocols w)\<rparr>)
      | None \<Rightarrow>
          (Suc (seq (w_protocols w)),
           w\<lparr>w_protocols := t_add \<lparr>pt_name = fst nd, pt_description = snd nd\<rparr> (w_protocols w)\<rparr>))"

fun upsert_protocols :: "(string \<times> string) list \<Rightarrow> world \<Rightarrow> nat list \<times> world" where
  "upsert_protocols [] w = ([], w)"
| "upsert_protocols (nd # rest) w =
     (case upsert_protocol nd w of (k, w1) \<Rightarrow> apfst ((#) k) (upsert_protocols rest w1))"

text \<open>The name of a collection is unique over all organisations.\<close>

definition get_or_create_collection :: "agent \<Rightarrow> string \<Rightarrow> world \<Rightarrow> nat \<times> world" where
  "get_or_create_collection ag name w =
     (case t_first (\<lambda>c. co_name c = name) (w_collections w) of
        Some (k, _) \<Rightarrow> (k, w)
      | None \<Rightarrow>
          (Suc (seq (w_collections w)),
           w\<lparr>w_collections := t_add \<lparr>co_name = name, co_creator = ag_user ag, co_organization = ag_organization ag\<rparr>
                                (w_collections w)\<rparr>))"

fun get_or_create_collections :: "agent \<Rightarrow> string list \<Rightarrow> world \<Rightarrow> nat list \<times> world" where
  "get_or_create_collections ag [] w = ([], w)"
| "get_or_create_collections ag (n # rest) w =
     (case get_or_create_collection ag n w of (k, w1) \<Rightarrow> apfst ((#) k) (get_or_create_collections ag rest w1))"

text \<open>The counts on the object, then one probe for rows; the probe of a row that is gone unpacks None.\<close>

definition relational_state_is_current :: "action_obj \<Rightarrow> definition_input \<Rightarrow> world \<Rightarrow> bool outcome" where
  "relational_state_is_current x d w =
     (if ac_arg_count (snd x) \<noteq> int (length (df_args d)) \<or> ac_return_count (snd x) \<noteq> int (length (df_returns d))
      then Inr False
      else if df_args d = [] \<and> df_returns d = [] then Inr True
      else if t_get (w_actions w) (fst x) = None then Inl (TypeError ''cannot unpack non-iterable NoneType object'')
      else Inr ((df_args d = [] \<or> t_filter (\<lambda>r. pr_action r = fst x) (w_arg_ports w) \<noteq> []) \<and>
                (df_returns d = [] \<or> t_filter (\<lambda>r. pr_action r = fst x) (w_return_ports w) \<noteq> [])))"

section \<open>The action of an implementation\<close>

definition check_qualifiers :: "implementation_input \<Rightarrow> unit outcome" where
  "check_qualifiers i =
     (let d = ii_definition i in
      if df_pure d \<and> ii_effect i = PHYSICAL then Inl (ValueError ''pure but PHYSICAL'')
      else if df_pure d \<and> df_stateful d then Inl (ValueError ''both pure and stateful'')
      else Inr ())"

definition or_no_description :: "string option \<Rightarrow> string" where
  "or_no_description s = (case s of None \<Rightarrow> ''No description'' | Some [] \<Rightarrow> ''No description'' | Some (c # cs) \<Rightarrow> c # cs)"

type_synonym action_map = "((string \<times> string) \<times> action_obj) list"
type_synonym implementation_map = "(string \<times> implementation_obj) list"

definition find_action :: "action_map option \<Rightarrow> string \<Rightarrow> string \<Rightarrow> agent \<Rightarrow> world \<Rightarrow> action_obj option outcome" where
  "find_action m key version ag w =
     (case m of
        Some am \<Rightarrow> Inr (map_of am (key, version))
      | None \<Rightarrow>
          (case t_filter (\<lambda>a. ac_key a = key \<and> ac_version a = version \<and> ac_app a = ag_app ag \<and>
                              ac_organization a = ag_organization ag) (w_actions w) of
             [] \<Rightarrow> Inr None
           | [x] \<Rightarrow> Inr (Some x)
           | _ \<Rightarrow> Inl (MultipleObjectsReturned ''Action'')))"

text \<open>The columns an update writes, and those of a new row.\<close>

definition updated_action :: "'c env \<Rightarrow> definition_input \<Rightarrow> action \<Rightarrow> action" where
  "updated_action env d a =
     a\<lparr>ac_hash := unique_hash env d, ac_args := map (dump_arg_port env) (df_args d),
       ac_returns := map (dump_return_port env) (df_returns d),
       ac_port_groups := map (dump_port_group env) (df_port_groups d), ac_stateful := df_stateful d,
       ac_scope := infer_action_scope d, ac_kind := df_kind d,
       ac_description := or_no_description (df_description d), ac_name := df_name d\<rparr>"

definition desired_idempotent :: "definition_input \<Rightarrow> bool" where
  "desired_idempotent d \<longleftrightarrow> df_idempotent d \<or> df_pure d"

definition new_action :: "'c env \<Rightarrow> definition_input \<Rightarrow> agent \<Rightarrow> action" where
  "new_action env d ag =
     \<lparr>ac_app = ag_app ag, ac_key = df_key d, ac_version = df_version d, ac_pure = df_pure d,
      ac_idempotent = desired_idempotent d, ac_stateful = df_stateful d, ac_kind = df_kind d, ac_name = df_name d,
      ac_description = or_no_description (df_description d), ac_scope = infer_action_scope d, ac_is_dev = df_is_dev d,
      ac_hash = unique_hash env d, ac_organization = ag_organization ag,
      ac_args = map (dump_arg_port env) (df_args d), ac_returns = map (dump_return_port env) (df_returns d),
      ac_port_groups = map (dump_port_group env) (df_port_groups d), ac_collections = [], ac_is_test_for = [],
      ac_protocols = [], ac_arg_count = 0, ac_return_count = 0\<rparr>"

text \<open>The object, whether its definition changed, and the map with what was created.\<close>

definition upsert_action ::
    "'c env \<Rightarrow> definition_input \<Rightarrow> agent \<Rightarrow> action_map option \<Rightarrow> world \<Rightarrow> (action_obj \<times> bool \<times> action_map option) outcome \<times> world" where
  "upsert_action env d ag m w =
     (case find_action m (df_key d) (df_version d) ag w of
        Inl e \<Rightarrow> (Inl e, w)
      | Inr (Some (k, a)) \<Rightarrow>
          (if ac_hash a = unique_hash env d then (Inr ((k, a), False, m), w)
           else if ac_app a = ag_app ag then
             (let a' = updated_action env d a in (Inr ((k, a'), True, m), save_action (k, a') w))
           else (Inl (ValueError ''already exists but has different hash''), w))
      | Inr None \<Rightarrow>
          and_then (create_action (new_action env d ag) w)
            (\<lambda>k w1. (Inr ((k, new_action env d ag), True,
                     map_option (AList.update (df_key d, df_version d) (k, new_action env d ag)) m), w1)))"

definition qualify :: "definition_input \<Rightarrow> action \<Rightarrow> action" where
  "qualify d a = a\<lparr>ac_pure := df_pure d, ac_idempotent := desired_idempotent d, ac_is_dev := df_is_dev d\<rparr>"

definition sync_qualifiers :: "definition_input \<Rightarrow> action_obj \<Rightarrow> world \<Rightarrow> action_obj outcome \<times> world" where
  "sync_qualifiers d x w =
     (let a = snd x in
      if ac_pure a = df_pure d \<and> ac_idempotent a = desired_idempotent d \<and> ac_is_dev a = df_is_dev d
      then (Inr x, w)
      else and_then (save_action_fields (fst x) (qualify d) w) (\<lambda>_ w1. (Inr (fst x, qualify d a), w1)))"

text \<open>The rows, protocols, targets and collections derived from a definition.\<close>

definition set_relations :: "nat \<Rightarrow> (action \<Rightarrow> action) \<Rightarrow> world \<Rightarrow> world" where
  "set_relations k f w = w\<lparr>w_actions := t_upd k f (w_actions w)\<rparr>"

definition counted :: "definition_input \<Rightarrow> action \<Rightarrow> action" where
  "counted d a = a\<lparr>ac_arg_count := int (length (df_args d)), ac_return_count := int (length (df_returns d))\<rparr>"

definition derive_action :: "'c env \<Rightarrow> definition_input \<Rightarrow> agent \<Rightarrow> action_obj \<Rightarrow> world \<Rightarrow> action_obj outcome \<times> world" where
  "derive_action env d ag x w =
     and_then (rebuild_relational_ports (fst x) d w)
       (\<lambda>_ w1.
          if t_get (w_actions w1) (fst x) = None then
            (Inl (DatabaseError ''Save with update_fields did not affect any rows''), w1)
          else
            (case upsert_protocols (infer_protocols d) w1 of
               (protocols, w2) \<Rightarrow>
                 (let w3 = set_relations (fst x) (\<lambda>r. r\<lparr>ac_protocols := protocols\<rparr>) w2;
                      w4 = set_relations (fst x) (\<lambda>r. r\<lparr>ac_is_test_for := resolve_test_targets env d ag w3\<rparr>) w3 in
                  case get_or_create_collections ag (df_collections d) w4 of
                    (collections, w5) \<Rightarrow>
                      (let w6 = set_relations (fst x) (\<lambda>r. r\<lparr>ac_collections := remdups collections\<rparr>) w5;
                           x' = (fst x, counted d (snd x)) in
                       (Inr x', save_action x' w6)))))"

text \<open>The object of the map is the one that was changed.\<close>

definition remember_action :: "definition_input \<Rightarrow> action_obj \<Rightarrow> action_map option \<Rightarrow> action_map option" where
  "remember_action d x m = map_option (AList.update (df_key d, df_version d) x) m"

definition register_action ::
    "'c env \<Rightarrow> definition_input \<Rightarrow> agent \<Rightarrow> action_map option \<Rightarrow> world \<Rightarrow> (action_obj \<times> action_map option) outcome \<times> world" where
  "register_action env d ag m w =
     and_then (upsert_action env d ag m w)
       (\<lambda>(x, changed, m1) w1.
          and_then (sync_qualifiers d x w1)
            (\<lambda>x2 w2.
               case (if changed then Inr False else relational_state_is_current x2 d w2) of
                 Inl e \<Rightarrow> (Inl e, w2)
               | Inr True \<Rightarrow> (Inr (x2, remember_action d x2 m1), w2)
               | Inr False \<Rightarrow>
                   and_then (derive_action env d ag x2 w2)
                     (\<lambda>x3 w3. (Inr (x3, remember_action d x3 m1), w3))))"

section \<open>Implementations\<close>

text \<open>\<^verbatim>\<open>_sync_dependencies\<close>: one row per declared key, written over or created. The column \<^verbatim>\<open>optional\<close>
  is not among those written, and a row whose key is no longer declared stays.\<close>

definition declared_dependency :: "agent_dependency_input \<Rightarrow> dependency \<Rightarrow> dependency" where
  "declared_dependency d r =
     r\<lparr>de_action_demands := listed (adp_action_dependencies d), de_state_demands := listed (adp_state_dependencies d),
       de_app_filter := adp_app d, de_version_filter := adp_version d,
       de_min_viable_instances := adp_min_viable_instances d, de_max_viable_instances := adp_max_viable_instances d,
       de_prefered_instances := adp_prefered_instances d, de_auto_resolvable := adp_auto_resolvable d\<rparr>"

definition blank_dependency :: "nat \<Rightarrow> string \<Rightarrow> dependency" where
  "blank_dependency implementation key =
     \<lparr>de_implementation = implementation, de_key = key, de_action_demands = [], de_state_demands = [],
      de_auto_resolvable = False, de_app_filter = None, de_version_filter = None, de_optional = False,
      de_min_viable_instances = None, de_max_viable_instances = None, de_prefered_instances = None\<rparr>"

definition sync_dependency :: "nat \<Rightarrow> agent_dependency_input \<Rightarrow> world \<Rightarrow> unit outcome \<times> world" where
  "sync_dependency implementation d w =
     (case t_filter (\<lambda>r. de_implementation r = implementation \<and> de_key r = adp_key d) (w_dependencies w) of
        [] \<Rightarrow>
          (Inr (), w\<lparr>w_dependencies :=
             t_add (declared_dependency d (blank_dependency implementation (adp_key d))) (w_dependencies w)\<rparr>)
      | [(k, _)] \<Rightarrow> (Inr (), w\<lparr>w_dependencies := t_upd k (declared_dependency d) (w_dependencies w)\<rparr>)
      | _ \<Rightarrow> (Inl (MultipleObjectsReturned ''Dependency''), w))"

fun sync_dependencies :: "nat \<Rightarrow> agent_dependency_input list \<Rightarrow> world \<Rightarrow> unit outcome \<times> world" where
  "sync_dependencies implementation [] w = (Inr (), w)"
| "sync_dependencies implementation (d # rest) w =
     and_then (sync_dependency implementation d w) (\<lambda>_ w1. sync_dependencies implementation rest w1)"

definition resolved_audience :: "implementation_input \<Rightarrow> action \<Rightarrow> string list option" where
  "resolved_audience i a =
     (case ii_provenance_audience i of
        Some audience \<Rightarrow> Some audience
      | None \<Rightarrow> (case derive_from_action a of [] \<Rightarrow> None | s # ss \<Rightarrow> Some (s # ss)))"

definition declared_implementation :: "implementation_input \<Rightarrow> agent \<Rightarrow> action_obj \<Rightarrow> implementation \<Rightarrow> implementation" where
  "declared_implementation i ag x r =
     r\<lparr>im_action := fst x, im_params := (case ii_params i of None \<Rightarrow> [] | Some p \<Rightarrow> p), im_release := ag_release ag,
       im_needs_token := ii_needs_token i, im_provenance_audience := resolved_audience i (snd x), im_effect := ii_effect i\<rparr>"

definition blank_implementation :: "nat \<Rightarrow> string \<Rightarrow> implementation" where
  "blank_implementation agent_id interface =
     \<lparr>im_release = 0, im_interface = interface, im_action = 0, im_agent = agent_id, im_name = ''Unnamed'',
      im_higher_order_for = None, im_higher_order_config = [], im_params = [], im_tracks = [], im_manipulates = [],
      im_needs_token = True, im_provenance_audience = None, im_effect = EFFECT_NONE\<rparr>"

definition find_registered :: "implementation_map option \<Rightarrow> nat \<Rightarrow> string \<Rightarrow> world \<Rightarrow> implementation_obj option" where
  "find_registered m agent_id interface w =
     (case m of
        Some im \<Rightarrow> map_of im interface
      | None \<Rightarrow> t_first (\<lambda>r. im_interface r = interface \<and> im_agent r = agent_id) (w_implementations w))"

text \<open>Moving an interface to another action deletes the old one when this was its last implementation.
  The deletion takes the implementation's row with it, which the save then inserts again.\<close>

definition leave_action :: "implementation_obj \<Rightarrow> nat \<Rightarrow> world \<Rightarrow> unit outcome \<times> world" where
  "leave_action x action_id w =
     (let old = im_action (snd x) in
      if old \<noteq> action_id \<and> length (t_filter (\<lambda>r. im_action r = old) (w_implementations w)) = 1
      then delete_rows (nothing\<lparr>dm_actions := [old]\<rparr>) w
      else (Inr (), w))"

definition upsert_implementation ::
    "implementation_input \<Rightarrow> nat \<Rightarrow> agent \<Rightarrow> action_obj \<Rightarrow> implementation_map option \<Rightarrow> world \<Rightarrow>
     implementation_obj outcome \<times> world" where
  "upsert_implementation i agent_id ag x m w =
     (case find_registered m agent_id (ii_interface i) w of
        Some (k, r) \<Rightarrow>
          and_then (leave_action (k, r) (fst x) w)
            (\<lambda>_ w1. and_then (save_implementation (k, declared_implementation i ag x r) w1)
               (\<lambda>_ w2. (Inr (k, declared_implementation i ag x r), w2)))
      | None \<Rightarrow>
          (let r = declared_implementation i ag x (blank_implementation agent_id (ii_interface i)) in
           and_then (insert_implementation r w) (\<lambda>k w1. (Inr (k, r), w1))))"

definition set_manipulates :: "nat \<Rightarrow> nat \<Rightarrow> string list option \<Rightarrow> world \<Rightarrow> world" where
  "set_manipulates k agent_id names w =
     (if listed names = [] then w
      else w\<lparr>w_implementations := t_upd k (\<lambda>r. r\<lparr>im_manipulates :=
             keys_where (\<lambda>s. st_agent s = agent_id \<and> st_interface s \<in> set (listed names)) (w_states w)\<rparr>) (w_implementations w)\<rparr>)"

definition set_tracks :: "'c env \<Rightarrow> implementation_obj \<Rightarrow> track_input list option \<Rightarrow> world \<Rightarrow> implementation_obj outcome \<times> world" where
  "set_tracks env x tracks w =
     (if listed tracks = [] then (Inr x, w)
      else
        (let x' = (fst x, (snd x)\<lparr>im_tracks := map (dump_track env) (listed tracks)\<rparr>) in
         and_then (save_implementation x' w) (\<lambda>_ w1. (Inr x', w1))))"

definition create_implementation_row ::
    "'c env \<Rightarrow> implementation_input \<Rightarrow> nat \<Rightarrow> agent \<Rightarrow> action_map option \<Rightarrow> implementation_map option \<Rightarrow> world \<Rightarrow>
     (nat \<times> action_map option \<times> implementation_map option) outcome \<times> world" where
  "create_implementation_row env i agent_id ag am im w =
     (case check_qualifiers i of
        Inl e \<Rightarrow> (Inl e, w)
      | Inr _ \<Rightarrow>
          and_then (register_action env (ii_definition i) ag am w)
            (\<lambda>(x, am1) w1.
               and_then (upsert_implementation i agent_id ag x im w1)
                 (\<lambda>y w2.
                    and_then (sync_dependencies (fst y) (ii_dependencies i) w2)
                      (\<lambda>_ w3.
                         and_then (set_tracks env y (ii_tracks i) (set_manipulates (fst y) agent_id (ii_manipulates i) w3))
                           (\<lambda>z w4. (Inr (fst z, am1, map_option (AList.update (ii_interface i) z) im), w4))))))"

text \<open>The decorated function: a savepoint when a transaction is open.\<close>

definition create_implementation_atomic ::
    "'c env \<Rightarrow> implementation_input \<Rightarrow> nat \<Rightarrow> agent \<Rightarrow> world \<Rightarrow> nat outcome \<times> world" where
  "create_implementation_atomic env i agent_id ag w =
     atomic (\<lambda>w. and_then (create_implementation_row env i agent_id ag None None w) (\<lambda>r w1. (Inr (fst r), w1))) w"

section \<open>Agents\<close>

definition agent_of_request :: "request_ctx \<Rightarrow> world \<Rightarrow> (nat \<times> agent) option" where
  "agent_of_request rq w =
     t_first (\<lambda>a. ag_client a = rq_client rq \<and> ag_user a = rq_user rq \<and> ag_organization a = rq_organization rq) (w_agents w)"

definition blank_agent :: "'c env \<Rightarrow> request_ctx \<Rightarrow> string \<Rightarrow> string \<Rightarrow> string \<Rightarrow> agent" where
  "blank_agent env rq name hash unique =
     \<lparr>ag_app = release_app env (client_release env (rq_client rq)), ag_hash = hash,
      ag_release = client_release env (rq_client rq), ag_name = name, ag_health_check_interval = 300,
      ag_user = rq_user rq, ag_unique = unique, ag_active_connection_id = None, ag_active_session_id = None,
      ag_lease_epoch = 0, ag_on_instance = ''all'', ag_kind = WEBSOCKET, ag_hook_url = None,
      ag_hook_url_secret = None, ag_connected = False, ag_last_seen = None, ag_client = rq_client rq,
      ag_organization = rq_organization rq, ag_blocked = False\<rparr>"

definition insert_agent :: "'c env \<Rightarrow> request_ctx \<Rightarrow> string \<Rightarrow> string \<Rightarrow> world \<Rightarrow> (nat \<times> agent) \<times> world" where
  "insert_agent env rq name hash w =
     (case fresh_uuid env w of
        (unique, w1) \<Rightarrow>
          (let k = Suc (seq (w_agents w1)); a = blank_agent env rq name hash unique in
           ((k, a), agent_post_save k a True (w1\<lparr>w_agents := t_add a (w_agents w1)\<rparr>))))"

definition named_or_client :: "'c env \<Rightarrow> request_ctx \<Rightarrow> string option \<Rightarrow> string" where
  "named_or_client env rq name = (case filled name of Some n \<Rightarrow> n | None \<Rightarrow> client_id_of env (rq_client rq))"

text \<open>\<^verbatim>\<open>Agent.objects.update_or_create\<close>; \<open>hash\<close> is a default only when it is given.\<close>

definition update_or_create_agent ::
    "'c env \<Rightarrow> request_ctx \<Rightarrow> string \<Rightarrow> string option \<Rightarrow> world \<Rightarrow> (nat \<times> agent) \<times> world" where
  "update_or_create_agent env rq name hash w =
     (case agent_of_request rq w of
        Some (k, a) \<Rightarrow>
          (let f = (\<lambda>r. r\<lparr>ag_name := name, ag_app := release_app env (client_release env (rq_client rq)),
                          ag_release := client_release env (rq_client rq),
                          ag_hash := (case hash of None \<Rightarrow> ag_hash r | Some h \<Rightarrow> h)\<rparr>) in
           ((k, f a), save_agent k f w))
      | None \<Rightarrow> insert_agent env rq name (case hash of None \<Rightarrow> [] | Some h \<Rightarrow> h) w)"

definition create_implementation :: "'c env \<Rightarrow> request_ctx \<Rightarrow> implementation_input \<Rightarrow> world \<Rightarrow> nat outcome \<times> world" where
  "create_implementation env rq i w =
     (case update_or_create_agent env rq (client_id_of env (rq_client rq)) None w of
        ((k, ag), w1) \<Rightarrow> create_implementation_atomic env i k ag w1)"

record agent_input =
  agi_name :: "string option"
  agi_kind :: "agent_kind option"
  agi_hook_url :: "string option"
  agi_hook_url_secret :: "string option"

definition ensure_shelve :: "nat \<Rightarrow> agent \<Rightarrow> nat \<Rightarrow> world \<Rightarrow> nat \<times> world" where
  "ensure_shelve agent_id ag creator w =
     (case t_first (\<lambda>s. sh_agent s = agent_id) (w_shelves w) of
        Some (k, _) \<Rightarrow> (k, w)
      | None \<Rightarrow>
          (Suc (seq (w_shelves w)),
           w\<lparr>w_shelves := t_add \<lparr>sh_agent = agent_id, sh_name = ag_name ag @ '' memory shelve'', sh_description = [],
                                  sh_creator = creator\<rparr> (w_shelves w)\<rparr>))"

definition configure_transport :: "agent_input \<Rightarrow> agent \<Rightarrow> agent" where
  "configure_transport i a =
     a\<lparr>ag_kind := (case agi_kind i of None \<Rightarrow> ag_kind a | Some k \<Rightarrow> k),
       ag_hook_url := (case agi_hook_url i of None \<Rightarrow> ag_hook_url a | Some u \<Rightarrow> Some u),
       ag_hook_url_secret := (case agi_hook_url_secret i of None \<Rightarrow> ag_hook_url_secret a | Some s \<Rightarrow> Some s)\<rparr>"

definition ensure_agent :: "'c env \<Rightarrow> request_ctx \<Rightarrow> agent_input \<Rightarrow> world \<Rightarrow> nat \<times> world" where
  "ensure_agent env rq i w =
     (case (case agent_of_request rq w of
              Some x \<Rightarrow> (x, w)
            | None \<Rightarrow> insert_agent env rq (named_or_client env rq (agi_name i)) [] w) of
        ((k, ag), w1) \<Rightarrow>
          (case ensure_shelve k ag (rq_user rq) w1 of
             (shelve, w2) \<Rightarrow>
               (let w3 = w2\<lparr>w_drawers := t_del (\<lambda>j r. dr_shelve r = shelve) (w_drawers w2)\<rparr> in
                (k, if agi_kind i = None \<and> agi_hook_url i = None \<and> agi_hook_url_secret i = None then w3
                    else save_agent k (configure_transport i) w3))))"

section \<open>States and locks\<close>

definition upsert_state_definition :: "'c env \<Rightarrow> state_definition_input \<Rightarrow> world \<Rightarrow> nat \<times> world" where
  "upsert_state_definition env d w =
     (let h = hash_state_definition env d;
          f = (\<lambda>r. r\<lparr>sdf_name := sdi_name d, sdf_ports := map (dump_return_port env) (sdi_ports d),
                     sdf_description := ''A state definition''\<rparr>) in
      case t_first (\<lambda>r. sdf_hash r = h) (w_state_definitions w) of
        Some (k, _) \<Rightarrow> (k, w\<lparr>w_state_definitions := t_upd k f (w_state_definitions w)\<rparr>)
      | None \<Rightarrow>
          (Suc (seq (w_state_definitions w)),
           w\<lparr>w_state_definitions :=
               t_add (f \<lparr>sdf_name = [], sdf_hash = h, sdf_ports = [], sdf_description = []\<rparr>) (w_state_definitions w)\<rparr>))"

definition declared_state :: "'c env \<Rightarrow> nat \<Rightarrow> agent \<Rightarrow> state_implementation_input \<Rightarrow> state \<Rightarrow> state" where
  "declared_state env definition_id ag i r =
     r\<lparr>st_definition := definition_id,
       st_key := Some (case filled (sii_key i) of Some k \<Rightarrow> k | None \<Rightarrow> sii_interface i),
       st_app_identifier := Some (case filled (sii_app i) of Some a \<Rightarrow> a | None \<Rightarrow> app_identifier_of env (ag_app ag))\<rparr>"

definition register_state :: "'c env \<Rightarrow> nat \<Rightarrow> agent \<Rightarrow> state_implementation_input \<Rightarrow> world \<Rightarrow> nat outcome \<times> world" where
  "register_state env agent_id ag i w =
     (case upsert_state_definition env (sii_definition i) w of
        (d, w1) \<Rightarrow>
          (case t_filter (\<lambda>s. st_interface s = sii_interface i \<and> st_agent s = agent_id) (w_states w1) of
             [] \<Rightarrow>
               (Inr (Suc (seq (w_states w1))),
                w1\<lparr>w_states := t_add (declared_state env d ag i
                    \<lparr>st_definition = d, st_interface = sii_interface i, st_key = None, st_app_identifier = None,
                     st_agent = agent_id, st_value = []\<rparr>) (w_states w1)\<rparr>)
           | [(k, _)] \<Rightarrow> (Inr k, w1\<lparr>w_states := t_upd k (declared_state env d ag i) (w_states w1)\<rparr>)
           | _ \<Rightarrow> (Inl (MultipleObjectsReturned ''State''), w1)))"

fun register_states :: "'c env \<Rightarrow> nat \<Rightarrow> agent \<Rightarrow> state_implementation_input list \<Rightarrow> world \<Rightarrow> nat list outcome \<times> world" where
  "register_states env agent_id ag [] w = (Inr [], w)"
| "register_states env agent_id ag (i # rest) w =
     and_then (register_state env agent_id ag i w)
       (\<lambda>k w1. and_then (register_states env agent_id ag rest w1) (\<lambda>ks w2. (Inr (k # ks), w2)))"

definition register_lock :: "nat \<Rightarrow> lock_implementation_input \<Rightarrow> world \<Rightarrow> unit outcome \<times> world" where
  "register_lock agent_id i w =
     (case t_filter (\<lambda>l. lo_agent l = agent_id \<and> lo_key l = lii_key i) (w_locks w) of
        [] \<Rightarrow>
          (Inr (), w\<lparr>w_locks := t_add \<lparr>lo_agent = agent_id, lo_key = lii_key i,
             lo_description = ldi_description (lii_definition i), lo_hold_by = None\<rparr> (w_locks w)\<rparr>)
      | [(k, _)] \<Rightarrow>
          (Inr (), w\<lparr>w_locks := t_upd k (\<lambda>l. l\<lparr>lo_description := ldi_description (lii_definition i)\<rparr>) (w_locks w)\<rparr>)
      | _ \<Rightarrow> (Inl (MultipleObjectsReturned ''Lock''), w))"

fun register_locks :: "nat \<Rightarrow> lock_implementation_input list \<Rightarrow> world \<Rightarrow> unit outcome \<times> world" where
  "register_locks agent_id [] w = (Inr (), w)"
| "register_locks agent_id (i # rest) w =
     and_then (register_lock agent_id i w) (\<lambda>_ w1. register_locks agent_id rest w1)"

section \<open>Implementing an agent\<close>

record implement_agent_input =
  iai_name :: "string option"
  iai_states :: "state_implementation_input list option"
  iai_implementations :: "implementation_input list option"
  iai_locks :: "lock_implementation_input list option"
  iai_hash :: "string option"

text \<open>The two prefetches; a later row of the same key overwrites an earlier one.\<close>

definition prefetch_actions :: "implementation_input list \<Rightarrow> agent \<Rightarrow> world \<Rightarrow> action_map" where
  "prefetch_actions declared ag w =
     map (\<lambda>x. ((ac_key (snd x), ac_version (snd x)), x))
       (rev (t_filter (\<lambda>a. ac_app a = ag_app ag \<and> ac_organization a = ag_organization ag \<and>
          ac_key a \<in> set (map (\<lambda>i. df_key (ii_definition i)) declared) \<and>
          ac_version a \<in> set (map (\<lambda>i. df_version (ii_definition i)) declared)) (w_actions w)))"

definition prefetch_implementations :: "nat \<Rightarrow> world \<Rightarrow> implementation_map" where
  "prefetch_implementations agent_id w =
     map (\<lambda>x. (im_interface (snd x), x)) (rev (t_filter (\<lambda>r. im_agent r = agent_id) (w_implementations w)))"

fun create_implementations ::
    "'c env \<Rightarrow> nat \<Rightarrow> agent \<Rightarrow> implementation_input list \<Rightarrow> action_map option \<Rightarrow> implementation_map option \<Rightarrow> world \<Rightarrow>
     nat list outcome \<times> world" where
  "create_implementations env agent_id ag [] am im w = (Inr [], w)"
| "create_implementations env agent_id ag (i # rest) am im w =
     and_then (create_implementation_row env i agent_id ag am im w)
       (\<lambda>(k, am1, im1) w1.
          and_then (create_implementations env agent_id ag rest am1 im1 w1) (\<lambda>ks w2. (Inr (k # ks), w2)))"

definition reap :: "nat \<Rightarrow> nat list \<Rightarrow> nat list \<Rightarrow> world \<Rightarrow> unit outcome \<times> world" where
  "reap agent_id states implementations w =
     and_then
       (delete_rows (nothing\<lparr>dm_states := filter (\<lambda>k. k \<notin> set states) (keys_where (\<lambda>s. st_agent s = agent_id) (w_states w))\<rparr>) w)
       (\<lambda>_ w1. delete_rows (nothing\<lparr>dm_implementations := filter (\<lambda>k. k \<notin> set implementations)
                  (keys_where (\<lambda>r. im_agent r = agent_id) (w_implementations w1))\<rparr>) w1)"

definition implement_agent_body :: "'c env \<Rightarrow> request_ctx \<Rightarrow> implement_agent_input \<Rightarrow> world \<Rightarrow> nat outcome \<times> world" where
  "implement_agent_body env rq i w =
     (case (case filled (iai_hash i) of Some h \<Rightarrow> (h, w) | None \<Rightarrow> fresh_uuid env w) of
        (hash, w0) \<Rightarrow>
          (case update_or_create_agent env rq (named_or_client env rq (iai_name i)) (Some hash) w0 of
             ((k, ag), w1) \<Rightarrow>
               and_then (register_locks k (listed (iai_locks i)) w1)
                 (\<lambda>_ w2.
                    let declared = listed (iai_implementations i);
                        am = (if declared = [] then None else Some (prefetch_actions declared ag w2));
                        im = (if declared = [] then None else Some (prefetch_implementations k w2)) in
                    and_then (create_implementations env k ag declared am im w2)
                      (\<lambda>implementations w3.
                         and_then (register_states env k ag (listed (iai_states i)) w3)
                           (\<lambda>states w4. and_then (reap k states implementations w4) (\<lambda>_ w5. (Inr k, w5)))))))"

definition implement_agent :: "'c env \<Rightarrow> request_ctx \<Rightarrow> implement_agent_input \<Rightarrow> world \<Rightarrow> nat outcome \<times> world" where
  "implement_agent env rq i w = atomic (implement_agent_body env rq i) w"

section \<open>Links and removal\<close>

definition implementation_kind :: "world \<Rightarrow> implementation \<Rightarrow> action_kind outcome" where
  "implementation_kind w r =
     (case t_get (w_actions w) (im_action r) of None \<Rightarrow> Inl (DoesNotExist ''Action'') | Some a \<Rightarrow> Inr (ac_kind a))"

definition dependency_keys :: "world \<Rightarrow> nat \<Rightarrow> string list" where
  "dependency_keys w k = map (\<lambda>x. de_key (snd x)) (t_filter (\<lambda>d. de_implementation d = k) (w_dependencies w))"

definition check_link :: "world \<Rightarrow> implementation_obj \<Rightarrow> implementation_obj \<Rightarrow> json dict \<Rightarrow> unit outcome" where
  "check_link w higher lower config =
     (if fst higher = fst lower then Inl (ValueError ''An implementation cannot wrap itself'')
      else if im_agent (snd higher) \<noteq> im_agent (snd lower) then Inl (ValueError ''must be on the same agent'')
      else
        (case (implementation_kind w (snd higher), implementation_kind w (snd lower)) of
           (Inl e, _) \<Rightarrow> Inl e
         | (_, Inl e) \<Rightarrow> Inl e
         | (Inr hk, Inr lk) \<Rightarrow>
             (case validate_higher_order_pairing hk lk (im_higher_order_for (snd lower) \<noteq> None) of
                Inl e \<Rightarrow> Inl e
              | Inr _ \<Rightarrow>
                  validate_dependency_coverage config (dependency_keys w (fst lower)) (dependency_keys w (fst higher)))))"

definition set_higher_order ::
    "string \<Rightarrow> string \<Rightarrow> json dict option \<Rightarrow> world \<Rightarrow> nat outcome \<times> world" where
  "set_higher_order implementation lower_implementation config w =
     (case t_get_wire ''Implementation'' (w_implementations w) implementation of
        Inl e \<Rightarrow> (Inl e, w)
      | Inr (h, higher) \<Rightarrow>
          (case t_get_wire ''Implementation'' (w_implementations w) lower_implementation of
             Inl e \<Rightarrow> (Inl e, w)
           | Inr (l, lower) \<Rightarrow>
               (let cfg = (case config of None \<Rightarrow> [] | Some c \<Rightarrow> c) in
                case check_link w (h, higher) (l, lower) cfg of
                  Inl e \<Rightarrow> (Inl e, w)
                | Inr _ \<Rightarrow>
                    and_then (save_implementation
                        (h, higher\<lparr>im_higher_order_for := Some l, im_higher_order_config := cfg\<rparr>) w)
                      (\<lambda>_ w1. (Inr h, w1)))))"

definition delete_implementation :: "string \<Rightarrow> world \<Rightarrow> string outcome \<times> world" where
  "delete_implementation implementation w =
     (case t_get_wire ''Implementation'' (w_implementations w) implementation of
        Inl e \<Rightarrow> (Inl e, w)
      | Inr (k, _) \<Rightarrow>
          and_then (delete_rows (nothing\<lparr>dm_implementations := [k]\<rparr>) w) (\<lambda>_ w1. (Inr implementation, w1)))"

definition update_agent :: "string \<Rightarrow> string option \<Rightarrow> world \<Rightarrow> nat outcome \<times> world" where
  "update_agent agent name w =
     (case t_get_wire ''Agent'' (w_agents w) agent of
        Inl e \<Rightarrow> (Inl e, w)
      | Inr (k, _) \<Rightarrow>
          (Inr k, save_agent k (\<lambda>a. case name of None \<Rightarrow> a | Some n \<Rightarrow> a\<lparr>ag_name := n\<rparr>) w))"

definition delete_agent :: "string \<Rightarrow> world \<Rightarrow> string outcome \<times> world" where
  "delete_agent agent w =
     (case t_get_wire ''Agent'' (w_agents w) agent of
        Inl e \<Rightarrow> (Inl e, w)
      | Inr (k, a) \<Rightarrow>
          and_then (delete_rows (nothing\<lparr>dm_agents := [k]\<rparr>) w)
            (\<lambda>_ w1. (Inr agent, emit (On_agent_updated \<lparr>agc_create = None, agc_update = None, agc_delete = Some k\<rparr>
                        [''agents_for_'' @ str_of_nat (ag_organization a)]) w1)))"

end
