(* ===== verification/Cascade_Properties.thy ===== *)
theory Cascade_Properties
  imports Cascade Example_World
begin

text \<open>Deletions close over the references between tables, so none is left dangling.\<close>

section \<open>A deletion leaves no dangling reference\<close>

lemma tasks_below_grows: "set ks \<subseteq> set (tasks_below t ks)"
  by (auto simp: tasks_below_def)

lemma rounds_grow: "set ks \<subseteq> set (rounds n t ks)"
proof (induction n arbitrary: ks)
  case (Suc n)
  from tasks_below_grows [of ks t] Suc.IH [of "tasks_below t ks"] show ?case by simp
qed simp

definition tree_closed :: "task table \<Rightarrow> nat list \<Rightarrow> bool" where
  "tree_closed t ks \<longleftrightarrow> (\<forall>(k, r) \<in> set (rows t). refers (tk_parent r) ks \<or> refers (tk_root r) ks \<longrightarrow> k \<in> set ks)"

lemma tasks_below_closed: "tree_closed t ks \<longleftrightarrow> tasks_below t ks = ks"
  by (auto simp: tree_closed_def tasks_below_def filter_empty_conv)

text \<open>A round that adds something leaves fewer tasks outside.\<close>

definition outside :: "task table \<Rightarrow> nat list \<Rightarrow> nat" where
  "outside t ks = length (filter (\<lambda>(k, r). k \<notin> set ks) (rows t))"

lemma outside_less:
  assumes "\<not> tree_closed t ks"
  shows "outside t (tasks_below t ks) < outside t ks"
proof -
  obtain k r where kr: "(k, r) \<in> set (rows t)" "refers (tk_parent r) ks \<or> refers (tk_root r) ks" "k \<notin> set ks"
    using assms by (auto simp: tree_closed_def)
  then have new: "k \<in> set (tasks_below t ks)" by (force simp: tasks_below_def)
  have "filter (\<lambda>(k, r). k \<notin> set (tasks_below t ks)) (rows t) =
      filter (\<lambda>(k, r). k \<notin> set (tasks_below t ks)) (filter (\<lambda>(k, r). k \<notin> set ks) (rows t))"
    using tasks_below_grows [of ks t] by (auto intro!: filter_cong)
  also have "length \<dots> < length (filter (\<lambda>(k, r). k \<notin> set ks) (rows t))"
    using kr new by (intro length_filter_less [of "(k, r)"]) auto
  finally show ?thesis by (simp add: outside_def)
qed

lemma rounds_close: "outside t ks \<le> n \<Longrightarrow> tree_closed t (rounds n t ks)"
proof (induction n arbitrary: ks)
  case 0
  with outside_less [of t ks] show ?case by fastforce
next
  case (Suc n)
  show ?case
  proof (cases "tree_closed t ks")
    case True
    then have "rounds m t ks = ks" for m by (induction m) (simp_all add: tasks_below_closed [THEN iffD1])
    with True show ?thesis by metis
  next
    case False
    with outside_less [OF False] Suc.prems have "outside t (tasks_below t ks) \<le> n" by simp
    from Suc.IH [OF this] show ?thesis by simp
  qed
qed

lemma task_trees_closed: "tree_closed t (task_trees t ks)"
  by (simp add: task_trees_def rounds_close outside_def)

lemma has_row_del: "t_wf t \<Longrightarrow> has_row (t_del (\<lambda>k r. k \<in> set ks) t) i \<longleftrightarrow> has_row t i \<and> i \<notin> set ks"
  using t_del_get [of t "\<lambda>k r. k \<in> set ks" i] unfolding has_row_def by fastforce

lemma map_of_map_rows: "map_of (map (\<lambda>(k, r). (k, f r)) xs) i = map_option f (map_of xs i)"
  by (induction xs) auto

lemma has_row_map [simp]: "has_row (t_map f t) = has_row t"
  by (rule ext) (simp add: has_row_def t_get_def t_map_def map_of_map_rows)

lemma maybe_row_del:
  "t_wf t \<Longrightarrow> maybe_row (t_del (\<lambda>k r. k \<in> set ks) t) i \<longleftrightarrow> maybe_row t i \<and> \<not> refers i ks"
  by (auto simp: maybe_row_def refers_def has_row_del split: option.split)

lemma maybe_row_map [simp]: "maybe_row (t_map f t) i \<longleftrightarrow> maybe_row t i"
  by (simp add: maybe_row_def split: option.split)

lemma every_map [simp]: "every P (t_map f t) \<longleftrightarrow> every (\<lambda>r. P (f r)) t"
  by (auto simp: every_def t_map_def list_all_iff)

text \<open>What holds of every row holds, with more, of the rows that stay.\<close>

lemma every_del:
  assumes "every P t" and "\<And>k r. (k, r) \<in> set (rows t) \<Longrightarrow> P r \<Longrightarrow> \<not> D k r \<Longrightarrow> Q r"
  shows "every Q (t_del D t)"
  using assms by (fastforce simp: every_def t_del_def list_all_iff)

lemma keys_where_iff: "k \<in> set (keys_where P t) \<longleftrightarrow> (\<exists>r. (k, r) \<in> set (rows t) \<and> P r)"
  by (force simp: keys_where_def t_filter_def)

lemma row_unique: "t_wf t \<Longrightarrow> (k, r) \<in> set (rows t) \<Longrightarrow> (k, r') \<in> set (rows t) \<Longrightarrow> r' = r"
  by (metis option.inject t_get_rows)

definition keys_ok :: "world \<Rightarrow> bool" where
  "keys_ok w \<longleftrightarrow> t_wf (w_agents w) \<and> t_wf (w_actions w) \<and> t_wf (w_implementations w) \<and> t_wf (w_dependencies w) \<and>
     t_wf (w_resolutions w) \<and> t_wf (w_tasks w) \<and> t_wf (w_states w) \<and> t_wf (w_sessions w) \<and> t_wf (w_shelves w)"

lemma doomed_closed:
  assumes "d = collect_doomed start w"
  shows "(k, im) \<in> set (rows (w_implementations w)) \<Longrightarrow> k \<notin> set (dm_implementations d) \<Longrightarrow>
      im_action im \<notin> set (dm_actions d) \<and> im_agent im \<notin> set (dm_agents d)"
    and "(k, rn) \<in> set (rows (w_resolutions w)) \<Longrightarrow> k \<notin> set (dm_resolutions d) \<Longrightarrow>
      rsn_implementation rn \<notin> set (dm_implementations d)"
    and "(k, st) \<in> set (rows (w_states w)) \<Longrightarrow> k \<notin> set (dm_states d) \<Longrightarrow> st_agent st \<notin> set (dm_agents d)"
    and "(k, se) \<in> set (rows (w_sessions w)) \<Longrightarrow> k \<notin> set (dm_sessions d) \<Longrightarrow> se_agent se \<notin> set (dm_agents d)"
    and "(k, tk) \<in> set (rows (w_tasks w)) \<Longrightarrow> k \<notin> set (dm_tasks d) \<Longrightarrow>
      tk_action tk \<notin> set (dm_actions d) \<and> tk_agent tk \<notin> set (dm_agents d) \<and>
      \<not> refers (tk_implementation tk) (dm_implementations d) \<and> \<not> refers (tk_resolution tk) (dm_resolutions d) \<and>
      \<not> refers (tk_parent tk) (dm_tasks d) \<and> \<not> refers (tk_root tk) (dm_tasks d)"
proof -
  show "(k, im) \<in> set (rows (w_implementations w)) \<Longrightarrow> k \<notin> set (dm_implementations d) \<Longrightarrow>
      im_action im \<notin> set (dm_actions d) \<and> im_agent im \<notin> set (dm_agents d)"
    and "(k, rn) \<in> set (rows (w_resolutions w)) \<Longrightarrow> k \<notin> set (dm_resolutions d) \<Longrightarrow>
      rsn_implementation rn \<notin> set (dm_implementations d)"
    and "(k, st) \<in> set (rows (w_states w)) \<Longrightarrow> k \<notin> set (dm_states d) \<Longrightarrow> st_agent st \<notin> set (dm_agents d)"
    and "(k, se) \<in> set (rows (w_sessions w)) \<Longrightarrow> k \<notin> set (dm_sessions d) \<Longrightarrow> se_agent se \<notin> set (dm_agents d)"
    using assms by (auto simp: collect_doomed_def Let_def keys_where_iff)
  assume tk: "(k, tk) \<in> set (rows (w_tasks w))" and out: "k \<notin> set (dm_tasks d)"
  let ?P = "task_goes (dm_agents d) (dm_actions d) (dm_implementations d) (dm_resolutions d)"
  define ks where "ks = dm_tasks start @ keys_where ?P (w_tasks w)"
  have dt: "dm_tasks d = task_trees (w_tasks w) ks"
    unfolding ks_def assms by (simp add: collect_doomed_def Let_def)
  have "?P tk \<Longrightarrow> k \<in> set (keys_where ?P (w_tasks w))" unfolding keys_where_iff using tk by blast
  then have ks: "?P tk \<longrightarrow> k \<in> set ks" by (simp add: ks_def)
  have "set ks \<subseteq> set (dm_tasks d)" unfolding dt task_trees_def by (rule rounds_grow)
  with ks out have "\<not> ?P tk" by blast
  then have "tk_action tk \<notin> set (dm_actions d) \<and> tk_agent tk \<notin> set (dm_agents d) \<and>
      \<not> refers (tk_implementation tk) (dm_implementations d) \<and> \<not> refers (tk_resolution tk) (dm_resolutions d)" by simp
  moreover have "\<not> (refers (tk_parent tk) (dm_tasks d) \<or> refers (tk_root tk) (dm_tasks d))"
    using task_trees_closed [of "w_tasks w" ks] tk out unfolding tree_closed_def dt by blast
  ultimately show "tk_action tk \<notin> set (dm_actions d) \<and> tk_agent tk \<notin> set (dm_agents d) \<and>
      \<not> refers (tk_implementation tk) (dm_implementations d) \<and> \<not> refers (tk_resolution tk) (dm_resolutions d) \<and>
      \<not> refers (tk_parent tk) (dm_tasks d) \<and> \<not> refers (tk_root tk) (dm_tasks d)"
    by blast
qed

lemma del_where: "t_wf t \<Longrightarrow> t_del (\<lambda>k r. P r) t = t_del (\<lambda>k r. k \<in> set (keys_where P t)) t"
  using row_unique [of t]
  by (fastforce simp: t_del_def keys_where_iff intro!: arg_cong [where f = "\<lambda>xs. t\<lparr>rows := xs\<rparr>"] filter_cong)

lemma cleared_refs: "\<not> refers (cleared ks k) ks" "maybe_row t k \<Longrightarrow> maybe_row t (cleared ks k)"
  by (auto simp: cleared_def refers_def maybe_row_def split: option.split)

lemma without_ok:
  "list_all (has_row t) xs \<Longrightarrow> t_wf t \<Longrightarrow> list_all (has_row (t_del (\<lambda>k r. k \<in> set ks) t)) (without ks xs)"
  by (auto simp: without_def list_all_iff has_row_del)


lemma removed_tables:
  assumes "keys_ok w"
  shows "w_agents (remove_doomed d w) = t_del (\<lambda>k r. k \<in> set (dm_agents d)) (w_agents w)"
    and "has_row (w_actions (remove_doomed d w)) = has_row (t_del (\<lambda>k r. k \<in> set (dm_actions d)) (w_actions w))"
    and "has_row (w_implementations (remove_doomed d w)) =
      has_row (t_del (\<lambda>k r. k \<in> set (dm_implementations d)) (w_implementations w))"
    and "maybe_row (w_implementations (remove_doomed d w)) =
      maybe_row (t_del (\<lambda>k r. k \<in> set (dm_implementations d)) (w_implementations w))"
    and "w_dependencies (remove_doomed d w) = t_del (\<lambda>k r. k \<in> set (dropped_dependencies d w)) (w_dependencies w)"
    and "w_resolutions (remove_doomed d w) = t_del (\<lambda>k r. k \<in> set (dm_resolutions d)) (w_resolutions w)"
    and "w_tasks (remove_doomed d w) = t_del (\<lambda>k r. k \<in> set (dm_tasks d)) (w_tasks w)"
    and "w_states (remove_doomed d w) = t_del (\<lambda>k r. k \<in> set (dm_states d)) (w_states w)"
    and "w_sessions (remove_doomed d w) = t_del (\<lambda>k r. k \<in> set (dm_sessions d)) (w_sessions w)"
    and "w_shelves (remove_doomed d w) = t_del (\<lambda>k r. k \<in> set (dropped_shelves d w)) (w_shelves w)"
proof -
  have "t_del (\<lambda>k r. de_implementation r \<in> set (dm_implementations d)) (w_dependencies w) =
      t_del (\<lambda>k r. k \<in> set (dropped_dependencies d w)) (w_dependencies w)"
    unfolding dropped_dependencies_def using assms by (intro del_where) (simp add: keys_ok_def)
  then show "w_dependencies (remove_doomed d w) = t_del (\<lambda>k r. k \<in> set (dropped_dependencies d w)) (w_dependencies w)"
    by (simp add: remove_doomed_def)
  have "t_del (\<lambda>k r. sh_agent r \<in> set (dm_agents d)) (w_shelves w) =
      t_del (\<lambda>k r. k \<in> set (dropped_shelves d w)) (w_shelves w)"
    unfolding dropped_shelves_def using assms by (intro del_where) (simp add: keys_ok_def)
  then show "w_shelves (remove_doomed d w) = t_del (\<lambda>k r. k \<in> set (dropped_shelves d w)) (w_shelves w)"
    by (simp add: remove_doomed_def)
qed (simp_all add: remove_doomed_def fun_eq_iff)

lemma removal_keeps_references:
  assumes d: "d = collect_doomed start w" and keys: "keys_ok w" and ok: "references_ok w"
    and protected: "\<And>k r. (k, r) \<in> set (rows (w_resolved w)) \<Longrightarrow> rsd_implementation r \<notin> set (dm_implementations d)"
  shows "references_ok (remove_doomed d w)"
proof -
  note closed = doomed_closed [OF d]
  have old: "every (action_refs w) (w_actions w)" "every (port_refs w) (w_arg_ports w)" "every (port_refs w) (w_return_ports w)"
    "every (implementation_refs w) (w_implementations w)" "every (dependency_refs w) (w_dependencies w)"
    "every (resolution_refs w) (w_resolutions w)" "every (resolved_refs w) (w_resolved w)"
    "every (task_refs w) (w_tasks w)" "every (event_refs w) (w_events w)" "every (lock_refs w) (w_locks w)"
    "every (state_refs w) (w_states w)" "every (session_refs w) (w_sessions w)" "every (patch_refs w) (w_patches w)"
    "every (snapshot_refs w) (w_snapshots w)" "every (shelve_refs w) (w_shelves w)" "every (drawer_refs w) (w_drawers w)"
    using ok by (simp_all add: references_ok_def)
  note survive = old [THEN every_del]
  note shape = refs_defs removed_tables [OF keys, of d] has_row_del maybe_row_del cleared_refs without_ok
    keys [unfolded keys_ok_def]
  show ?thesis
    unfolding references_ok_def
    by (intro conjI; subst remove_doomed_def, simp, rule survive, simp add: shape closed protected)
qed



end
