(* ===== verification/Registration_Properties.thy ===== *)
theory Registration_Properties
  imports Registration Cascade_Properties
begin

text \<open>What a registration leaves in the tables.\<close>

section \<open>Frames\<close>

lemma save_action_frame [simp]:
  "w_implementations (save_action x w) = w_implementations w" "w_states (save_action x w) = w_states w"
  by (simp_all add: save_action_def)

lemma upsert_protocols_frame [simp]:
  "w_implementations (snd (upsert_protocols ps w)) = w_implementations w"
  "w_states (snd (upsert_protocols ps w)) = w_states w" "w_actions (snd (upsert_protocols ps w)) = w_actions w"
  "w_arg_ports (snd (upsert_protocols ps w)) = w_arg_ports w"
  "w_return_ports (snd (upsert_protocols ps w)) = w_return_ports w"
  by (induction ps w rule: upsert_protocols.induct)
    (auto simp: upsert_protocol_def split: option.splits prod.splits)

lemma get_or_create_collections_frame [simp]:
  "w_implementations (snd (get_or_create_collections ag ns w)) = w_implementations w"
  "w_states (snd (get_or_create_collections ag ns w)) = w_states w"
  "w_actions (snd (get_or_create_collections ag ns w)) = w_actions w"
  "w_arg_ports (snd (get_or_create_collections ag ns w)) = w_arg_ports w"
  "w_return_ports (snd (get_or_create_collections ag ns w)) = w_return_ports w"
  by (induction ag ns w rule: get_or_create_collections.induct)
    (auto simp: get_or_create_collection_def split: option.splits prod.splits)

text \<open>The registration of an action leaves implementations and states as they are.\<close>

definition same_offer :: "world \<Rightarrow> world \<Rightarrow> bool" where
  "same_offer w w' \<longleftrightarrow> w_implementations w' = w_implementations w \<and> w_states w' = w_states w"

lemma same_offer_refl [simp]: "same_offer w w"
  by (simp add: same_offer_def)

lemma same_offer_and_then:
  assumes "same_offer w (snd r)" and "\<And>x. same_offer (snd r) (snd (k x (snd r)))"
  shows "same_offer w (snd (and_then r k))"
  using assms by (cases r; cases "fst r") (auto simp: same_offer_def)

lemma rebuild_same_offer: "same_offer w (snd (rebuild_relational_ports a d w))"
  by (auto simp: rebuild_relational_ports_def same_offer_def Let_def split: sum.split)

lemma derive_same_offer: "same_offer w (snd (derive_action env d ag x w))"
proof -
  have "same_offer w (snd (rebuild_relational_ports (fst x) d w))" by (rule rebuild_same_offer)
  then show ?thesis
    unfolding derive_action_def
    by (intro same_offer_and_then)
      (simp_all add: same_offer_def set_relations_def Let_def case_prod_unfold)
qed

lemma upsert_same_offer: "same_offer w (snd (upsert_action env d ag m w))"
  by (auto simp: upsert_action_def same_offer_def create_action_def Let_def and_then_def split: sum.split option.split)

lemma qualifiers_same_offer: "same_offer w (snd (sync_qualifiers d x w))"
  by (auto simp: sync_qualifiers_def same_offer_def save_action_fields_def Let_def and_then_def)

lemma register_action_offer: "same_offer w (snd (register_action env d ag m w))"
  unfolding register_action_def
  by (intro same_offer_and_then upsert_same_offer)
    (auto simp: case_prod_unfold intro!: same_offer_and_then qualifiers_same_offer derive_same_offer split: sum.split bool.split)

lemma sync_dependencies_frame [simp]:
  "w_implementations (snd (sync_dependencies k ds w)) = w_implementations w"
  "w_states (snd (sync_dependencies k ds w)) = w_states w" "w_actions (snd (sync_dependencies k ds w)) = w_actions w"
proof -
  have one: "w_implementations (snd (sync_dependency k d w)) = w_implementations w \<and>
      w_states (snd (sync_dependency k d w)) = w_states w \<and> w_actions (snd (sync_dependency k d w)) = w_actions w" for d w
    by (auto simp: sync_dependency_def split: list.split)
  have "w_implementations (snd (sync_dependencies k ds w)) = w_implementations w \<and>
      w_states (snd (sync_dependencies k ds w)) = w_states w \<and> w_actions (snd (sync_dependencies k ds w)) = w_actions w"
  proof (induction ds arbitrary: w)
    case (Cons d ds)
    obtain r w1 where "sync_dependency k d w = (r, w1)" by fastforce
    with one [of d w] Cons.IH [of w1] show ?case by (cases r) simp_all
  qed simp
  then show "w_implementations (snd (sync_dependencies k ds w)) = w_implementations w"
    "w_states (snd (sync_dependencies k ds w)) = w_states w" "w_actions (snd (sync_dependencies k ds w)) = w_actions w"
    by blast+
qed

section \<open>One implementation\<close>

text \<open>What identifies an implementation, and its action.\<close>

definition offer :: "world \<Rightarrow> nat \<Rightarrow> (string \<times> nat \<times> nat) option" where
  "offer w k = map_option (\<lambda>r. (im_interface r, im_agent r, im_action r)) (t_get (w_implementations w) k)"

definition offer_of :: "implementation \<Rightarrow> string \<times> nat \<times> nat" where
  "offer_of r = (im_interface r, im_agent r, im_action r)"

lemma offer_eq: "offer w k = map_option offer_of (t_get (w_implementations w) k)"
  by (simp add: offer_def offer_of_def [abs_def])

lemma t_get_put: "t_get (t_put k r t) j = (if j = k then Some r else t_get t j)"
proof (cases "t_get t k")
  case None
  then show ?thesis by (auto simp: t_put_def t_get_def map_add_def split: option.split)
next
  case (Some r')
  then show ?thesis by (simp add: t_put_def t_get_upd)
qed

lemma t_wf_put: "t_wf t \<Longrightarrow> k \<le> seq t \<Longrightarrow> t_wf (t_put k r t)"
proof (cases "t_get t k")
  case None
  then show "t_wf t \<Longrightarrow> k \<le> seq t \<Longrightarrow> t_wf (t_put k r t)"
    by (auto simp: t_put_def t_wf_def t_get_def map_of_eq_None_iff)
next
  case (Some r')
  then show "t_wf t \<Longrightarrow> k \<le> seq t \<Longrightarrow> t_wf (t_put k r t)" by (simp add: t_put_def t_wf_upd)
qed

lemma t_get_map: "t_get (t_map f t) k = map_option f (t_get t k)"
  by (simp add: t_get_def t_map_def map_of_map_rows)

lemma t_wf_map: "t_wf (t_map f t) = t_wf t"
  by (simp add: t_wf_def t_map_def comp_def case_prod_unfold)

lemma seq_del [simp]: "seq (t_del D t) = seq t"
  by (simp add: t_del_def)

lemma seq_map [simp]: "seq (t_map f t) = seq t"
  by (simp add: t_map_def)

lemma seq_put [simp]: "seq (t_put k r t) = seq t"
  by (simp add: t_put_def t_upd_def)

lemma save_implementation_Inr:
  assumes "save_implementation (k, r) w = (Inr (), w')"
  shows "offer w' j = (if j = k then Some (offer_of r) else offer w j)"
    and "seq (w_implementations w') = seq (w_implementations w)" and "w_states w' = w_states w"
    and "t_wf (w_implementations w) \<Longrightarrow> k \<le> seq (w_implementations w) \<Longrightarrow> t_wf (w_implementations w')"
  using assms
  by (auto simp: save_implementation_def offer_eq t_get_put offer_of_def t_wf_put split: if_splits)

lemma insert_implementation_Inr:
  assumes "insert_implementation r w = (Inr k, w')" and "t_wf (w_implementations w)"
  shows "offer w' j = (if j = k then Some (offer_of r) else offer w j)" and "t_get (w_implementations w) k = None"
    and "t_wf (w_implementations w')" and "w_states w' = w_states w" and "k \<le> seq (w_implementations w')"
    and "seq (w_implementations w) \<le> seq (w_implementations w')"
  using assms t_get_fresh [OF assms(2)]
  by (auto simp: insert_implementation_def Let_def offer_eq t_get_add t_wf_add seq_add split: if_splits)

lemma implementation_goes_simps [simp]:
  "implementation_goes [] [] = (\<lambda>r. False)" "implementation_goes [] [k] = (\<lambda>r. im_action r = k)"
  by (simp_all add: fun_eq_iff)

text \<open>Leaving an action touches no implementation but the one that leaves.\<close>

lemma leave_action_Inr:
  assumes "leave_action (k, r) a w = (Inr (), w')" and "t_wf (w_implementations w)"
    and "offer w k = Some (offer_of r)" and "j \<noteq> k"
  shows "offer w' j = offer w j" and "t_wf (w_implementations w')"
    and "seq (w_implementations w') = seq (w_implementations w)" and "w_states w' = w_states w"
proof -
  have "offer w' j = offer w j \<and> t_wf (w_implementations w') \<and>
      seq (w_implementations w') = seq (w_implementations w) \<and> w_states w' = w_states w"
  proof (cases "w' = w")
    case True
    with assms(2) show ?thesis by simp
  next
    case False
    define d where "d = collect_doomed (nothing\<lparr>dm_actions := [im_action r]\<rparr>) w"
    from False assms(1) have one: "length (t_filter (\<lambda>x. im_action x = im_action r) (w_implementations w)) = 1"
      and w': "w' = remove_doomed d w"
      by (auto simp: leave_action_def delete_rows_def Let_def d_def split: if_splits)
    have impls: "set (dm_implementations d) = set (keys_where (\<lambda>x. im_action x = im_action r) (w_implementations w))"
      by (simp add: d_def collect_doomed_def Let_def nothing_def)
    obtain r' where r': "t_get (w_implementations w) k = Some r'" "im_action r' = im_action r"
      using assms(3) by (auto simp: offer_eq offer_of_def)
    then have "(k, r') \<in> set (t_filter (\<lambda>x. im_action x = im_action r) (w_implementations w))"
      using t_filter_get [OF assms(2)] by metis
    with one have "t_filter (\<lambda>x. im_action x = im_action r) (w_implementations w) = [(k, r')]"
      by (auto simp: length_Suc_conv)
    then have only: "set (dm_implementations d) = {k}" unfolding impls by (simp add: keys_where_def)
    have states: "dm_states d = []" by (simp add: d_def collect_doomed_def Let_def nothing_def keys_where_def t_filter_def)
    have "t_get (t_del (\<lambda>i r. i \<in> set (dm_implementations d)) (w_implementations w)) j = t_get (w_implementations w) j"
      using t_del_get [OF assms(2), of "\<lambda>i r. i \<in> set (dm_implementations d)" j] assms(4) only
      by (cases "t_get (w_implementations w) j") force+
    then have "offer w' j = offer w j"
      by (simp add: w' remove_doomed_def offer_def t_get_map option.map_comp comp_def)
    moreover have "w_states w' = w_states w" by (simp add: w' remove_doomed_def states t_del_def)
    ultimately show ?thesis
      using assms(2) by (simp add: w' remove_doomed_def t_wf_map t_wf_del)
  qed
  then show "offer w' j = offer w j" and "t_wf (w_implementations w')"
    and "seq (w_implementations w') = seq (w_implementations w)" and "w_states w' = w_states w" by blast+
qed

text \<open>What a map, or the table without one, says of an interface.\<close>

definition finds :: "implementation_map option \<Rightarrow> nat \<Rightarrow> world \<Rightarrow> bool" where
  "finds m a w \<longleftrightarrow>
     (\<forall>n k r. find_registered m a n w = Some (k, r) \<longrightarrow>
        im_interface r = n \<and> im_agent r = a \<and> offer w k = Some (offer_of r))"

lemma finds_table: "t_wf (w_implementations w) \<Longrightarrow> finds None a w"
  by (auto simp: finds_def find_registered_def offer_eq dest: t_first_Some)

lemma finds_cong: "w_implementations w' = w_implementations w \<Longrightarrow> finds m a w' = finds m a w"
  by (simp add: finds_def find_registered_def offer_def split: option.split)

definition registers :: "string \<Rightarrow> nat \<Rightarrow> nat \<Rightarrow> nat \<Rightarrow> world \<Rightarrow> world \<Rightarrow> bool" where
  "registers n a k ac w w' \<longleftrightarrow>
     (\<forall>j. offer w' j = (if j = k then Some (n, a, ac) else offer w j)) \<and>
     (\<forall>x. offer w k = Some x \<longrightarrow> fst x = n \<and> fst (snd x) = a) \<and>
     t_wf (w_implementations w') \<and> w_states w' = w_states w"

lemma upsert_implementation_Inr:
  assumes "upsert_implementation i a ag x m w = (Inr (k, r), w')" and wf: "t_wf (w_implementations w)" and "finds m a w"
  shows "registers (ii_interface i) a k (fst x) w w'" and "offer_of r = (ii_interface i, a, fst x)"
proof -
  have "registers (ii_interface i) a k (fst x) w w' \<and> offer_of r = (ii_interface i, a, fst x)"
  proof (cases "find_registered m a (ii_interface i) w")
    case None
    let ?r = "declared_implementation i ag x (blank_implementation a (ii_interface i))"
    obtain res w1 where ins: "insert_implementation ?r w = (res, w1)" by fastforce
    with assms(1) None have eq: "insert_implementation ?r w = (Inr k, w')" "r = ?r"
      by (cases res; simp add: upsert_implementation_def Let_def)+
    have "offer_of ?r = (ii_interface i, a, fst x)"
      by (simp add: offer_of_def declared_implementation_def blank_implementation_def)
    with insert_implementation_Inr [OF eq(1) wf] eq(2) show ?thesis by (simp add: registers_def offer_def)
  next
    case (Some y)
    obtain k0 r0 where y: "y = (k0, r0)" by (cases y)
    let ?r = "declared_implementation i ag x r0"
    have known: "im_interface r0 = ii_interface i" "im_agent r0 = a" "offer w k0 = Some (offer_of r0)"
      using assms(3) Some by (auto simp: finds_def y)
    obtain u w1 where leave: "leave_action (k0, r0) (fst x) w = (u, w1)" by fastforce
    obtain v w2 where save: "save_implementation (k0, ?r) w1 = (v, w2)" by fastforce
    from assms(1) Some leave save have eq: "leave_action (k0, r0) (fst x) w = (Inr (), w1)"
      "save_implementation (k0, ?r) w1 = (Inr (), w')" "k = k0" "r = ?r"
      by (cases u; cases v; simp add: upsert_implementation_def y)+
    have off: "offer_of ?r = (ii_interface i, a, fst x)"
      using known by (simp add: offer_of_def declared_implementation_def)
    note left = leave_action_Inr [OF eq(1) wf known(3)]
    have seq: "seq (w_implementations w1) = seq (w_implementations w)" "t_wf (w_implementations w1)" "w_states w1 = w_states w"
      using left(2-4) [of "Suc k0"] by auto
    have "k0 \<le> seq (w_implementations w1)"
      using known(3) t_get_le_seq [OF wf] by (auto simp: seq(1) offer_def)
    with save_implementation_Inr [OF eq(2)] left(1) seq off known show ?thesis by (auto simp: registers_def eq(3,4) offer_of_def)
  qed
  then show "registers (ii_interface i) a k (fst x) w w'" and "offer_of r = (ii_interface i, a, fst x)" by blast+
qed

lemma offer_set_manipulates [simp]: "offer (set_manipulates k a ns w) j = offer w j"
  "t_wf (w_implementations (set_manipulates k a ns w)) = t_wf (w_implementations w)"
  "w_states (set_manipulates k a ns w) = w_states w"
  by (simp_all add: set_manipulates_def offer_def t_get_upd t_wf_upd option.map_comp comp_def)

lemma set_tracks_Inr:
  assumes "set_tracks env (k, r) tracks w = (Inr z, w')" and "t_wf (w_implementations w)" and "offer w k = Some (offer_of r)"
  shows "fst z = k" and "offer_of (snd z) = offer_of r" and "offer w' j = offer w j" and "t_wf (w_implementations w')"
    and "w_states w' = w_states w"
proof -
  have "fst z = k \<and> offer_of (snd z) = offer_of r \<and> offer w' j = offer w j \<and> t_wf (w_implementations w') \<and> w_states w' = w_states w"
  proof (cases "listed tracks = []")
    case True
    with assms show ?thesis by (auto simp: set_tracks_def)
  next
    case False
    let ?r = "r\<lparr>im_tracks := map (dump_track env) (listed tracks)\<rparr>"
    obtain u w1 where save: "save_implementation (k, ?r) w = (u, w1)" by fastforce
    with assms(1) False have eq: "save_implementation (k, ?r) w = (Inr (), w')" "z = (k, ?r)"
      by (cases u; simp add: set_tracks_def Let_def)+
    have "k \<le> seq (w_implementations w)" using assms(3) t_get_le_seq [OF assms(2)] by (auto simp: offer_def)
    with save_implementation_Inr [OF eq(1)] assms(2,3) eq(2) show ?thesis by (simp add: offer_of_def)
  qed
  then show "fst z = k" and "offer_of (snd z) = offer_of r" and "offer w' j = offer w j" and "t_wf (w_implementations w')"
    and "w_states w' = w_states w" by blast+
qed

lemma and_then_returns: "and_then r k = (Inr y, w') \<Longrightarrow> \<exists>x w1. r = (Inr x, w1) \<and> k x w1 = (Inr y, w')"
  by (cases r; cases "fst r") auto

lemma create_row_Inr:
  assumes "create_implementation_row env i a ag am im w = (Inr (k, am', im'), w')"
    and wf: "t_wf (w_implementations w)" and finds: "finds im a w"
  obtains ac r where "registers (ii_interface i) a k ac w w'" and "offer_of r = (ii_interface i, a, ac)"
    and "im' = map_option (AList.update (ii_interface i) (k, r)) im"
proof -
  from assms(1) have "and_then (register_action env (ii_definition i) ag am w)
       (\<lambda>(x, am1) w1.
          and_then (upsert_implementation i a ag x im w1)
            (\<lambda>y w2.
               and_then (sync_dependencies (fst y) (ii_dependencies i) w2)
                 (\<lambda>_ w3.
                    and_then (set_tracks env y (ii_tracks i) (set_manipulates (fst y) a (ii_manipulates i) w3))
                      (\<lambda>z w4. (Inr (fst z, am1, map_option (AList.update (ii_interface i) z) im), w4))))) =
      (Inr (k, am', im'), w')"
    by (simp add: create_implementation_row_def split: sum.splits)
  then obtain x am1 w1 where act: "register_action env (ii_definition i) ag am w = (Inr (x, am1), w1)"
    and "and_then (upsert_implementation i a ag x im w1)
            (\<lambda>y w2.
               and_then (sync_dependencies (fst y) (ii_dependencies i) w2)
                 (\<lambda>_ w3.
                    and_then (set_tracks env y (ii_tracks i) (set_manipulates (fst y) a (ii_manipulates i) w3))
                      (\<lambda>z w4. (Inr (fst z, am1, map_option (AList.update (ii_interface i) z) im), w4)))) =
      (Inr (k, am', im'), w')"
    by (auto dest!: and_then_returns)
  then obtain y w2 where ups: "upsert_implementation i a ag x im w1 = (Inr y, w2)"
    and "and_then (sync_dependencies (fst y) (ii_dependencies i) w2)
          (\<lambda>_ w3. and_then (set_tracks env y (ii_tracks i) (set_manipulates (fst y) a (ii_manipulates i) w3))
             (\<lambda>z w4. (Inr (fst z, am1, map_option (AList.update (ii_interface i) z) im), w4))) = (Inr (k, am', im'), w')"
    using and_then_returns by meson
  then obtain w3 z where deps: "w3 = snd (sync_dependencies (fst y) (ii_dependencies i) w2)"
    and tracks: "set_tracks env y (ii_tracks i) (set_manipulates (fst y) a (ii_manipulates i) w3) = (Inr z, w')"
    and k: "k = fst z" "im' = map_option (AList.update (ii_interface i) z) im"
    using and_then_returns by (smt (verit) Pair_inject snd_conv sum.inject(2))
  have w1: "w_implementations w1 = w_implementations w" "w_states w1 = w_states w"
    using register_action_offer [of w env "ii_definition i" ag am] act by (simp_all add: same_offer_def)
  obtain j r where y: "y = (j, r)" by (cases y)
  have "t_wf (w_implementations w1)" "finds im a w1" using wf finds finds_cong [of w1 w] w1 by simp_all
  note up = upsert_implementation_Inr [OF ups [unfolded y] this]
  have same: "offer w1 = offer w" by (simp add: offer_def fun_eq_iff w1)
  have "offer w3 = offer w2" "w_implementations w3 = w_implementations w2" "w_states w3 = w_states w2"
    by (simp_all add: deps offer_def fun_eq_iff)
  note z = set_tracks_Inr [OF tracks [unfolded y]]
  have "t_wf (w_implementations (set_manipulates (fst (j, r)) a (ii_manipulates i) w3))"
    "offer (set_manipulates (fst (j, r)) a (ii_manipulates i) w3) j = Some (offer_of r)"
    using up \<open>offer w3 = offer w2\<close> \<open>w_implementations w3 = w_implementations w2\<close> by (simp_all add: registers_def)
  note z = z [OF this]
  show ?thesis
  proof (rule that [of "fst x" "snd z"])
    show "registers (ii_interface i) a k (fst x) w w'"
      using up(1) z same \<open>offer w3 = offer w2\<close> \<open>w_states w3 = w_states w2\<close> w1(2) k(1) by (simp add: registers_def)
    show "offer_of (snd z) = (ii_interface i, a, fst x)" using z(2) up(2) by simp
    show "im' = map_option (AList.update (ii_interface i) (k, snd z)) im" using k by simp
  qed
qed

section \<open>A batch\<close>

lemma finds_registered:
  assumes "finds (Some m) a w" and "registers n a k ac w w'" and "offer_of r = (n, a, ac)"
  shows "finds (Some (AList.update n (k, r) m)) a w'"
  unfolding finds_def find_registered_def option.case
proof (intro allI impI)
  fix n' k' r'
  assume found: "map_of (AList.update n (k, r) m) n' = Some (k', r')"
  show "im_interface r' = n' \<and> im_agent r' = a \<and> offer w' k' = Some (offer_of r')"
  proof (cases "n' = n")
    case True
    with found have "k' = k" "r' = r" by (simp_all add: update_conv')
    with assms(2,3) True show ?thesis by (simp add: registers_def offer_of_def)
  next
    case False
    with found have "map_of m n' = Some (k', r')" by (simp add: update_conv')
    with assms(1) have old: "im_interface r' = n'" "im_agent r' = a" "offer w k' = Some (offer_of r')"
      by (auto simp: finds_def find_registered_def)
    with assms(2) False have "k' \<noteq> k" by (auto simp: registers_def offer_of_def)
    with assms(2) old show ?thesis by (simp add: registers_def)
  qed
qed

text \<open>An offer keeps its interface and its agent; those of other agents are not touched at all.\<close>

definition offers_kept :: "nat \<Rightarrow> world \<Rightarrow> world \<Rightarrow> bool" where
  "offers_kept a w w' \<longleftrightarrow>
     (\<forall>j n b ac. offer w j = Some (n, b, ac) \<longrightarrow>
        (\<exists>ac'. offer w' j = Some (n, b, ac')) \<and> (b \<noteq> a \<longrightarrow> offer w' j = Some (n, b, ac)))"

lemma registers_kept: "registers n a k ac w w' \<Longrightarrow> offers_kept a w w'"
  by (auto simp: registers_def offers_kept_def)

lemma offers_kept_refl [simp]: "offers_kept a w w"
  by (simp add: offers_kept_def)

lemma offers_kept_trans: "offers_kept a w w1 \<Longrightarrow> offers_kept a w1 w2 \<Longrightarrow> offers_kept a w w2"
  unfolding offers_kept_def by metis

lemma batch_Inr:
  assumes "create_implementations env a ag ins am (Some m) w = (Inr ks, w')"
    and "t_wf (w_implementations w)" and "finds (Some m) a w"
  shows "list_all2 (\<lambda>k i. \<exists>ac. offer w' k = Some (ii_interface i, a, ac)) ks ins \<and> offers_kept a w w' \<and>
    t_wf (w_implementations w') \<and> w_states w' = w_states w"
  using assms
proof (induction ins arbitrary: am m w ks)
  case Nil
  then show ?case by simp
next
  case (Cons i ins)
  obtain k am1 im1 w1 where row: "create_implementation_row env i a ag am (Some m) w = (Inr (k, am1, im1), w1)"
    and "and_then (create_implementations env a ag ins am1 im1 w1) (\<lambda>ks w2. (Inr (k # ks), w2)) = (Inr ks, w')"
    using Cons.prems(1) by (auto dest!: and_then_returns)
  then obtain ks' where rest: "create_implementations env a ag ins am1 im1 w1 = (Inr ks', w')" and ks: "ks = k # ks'"
    by (auto dest!: and_then_returns)
  obtain ac r where reg: "registers (ii_interface i) a k ac w w1" and r: "offer_of r = (ii_interface i, a, ac)"
    and im1: "im1 = map_option (AList.update (ii_interface i) (k, r)) (Some m)"
    by (rule create_row_Inr [OF row Cons.prems(2,3)])
  have "t_wf (w_implementations w1)" using reg by (simp add: registers_def)
  from Cons.IH [OF rest [unfolded im1 option.map] this finds_registered [OF Cons.prems(3) reg r]]
  have IH: "list_all2 (\<lambda>k i. \<exists>ac. offer w' k = Some (ii_interface i, a, ac)) ks' ins" "offers_kept a w1 w'"
    "t_wf (w_implementations w')" "w_states w' = w_states w1" by simp_all
  have "offer w1 k = Some (ii_interface i, a, ac)" using reg by (simp add: registers_def)
  with IH(2) have "\<exists>ac. offer w' k = Some (ii_interface i, a, ac)" unfolding offers_kept_def by blast
  with IH reg offers_kept_trans [OF registers_kept [OF reg] IH(2)] show ?case by (simp add: ks registers_def)
qed

lemma prefetch_finds:
  assumes "t_wf (w_implementations w)"
  shows "finds (Some (prefetch_implementations a w)) a w"
  unfolding finds_def find_registered_def option.case
proof (intro allI impI)
  fix n k r
  assume "map_of (prefetch_implementations a w) n = Some (k, r)"
  then have "(n, k, r) \<in> set (prefetch_implementations a w)" by (rule map_of_SomeD)
  then have "(k, r) \<in> set (t_filter (\<lambda>r. im_agent r = a) (w_implementations w))" "im_interface r = n"
    by (auto simp: prefetch_implementations_def)
  with t_filter_get [OF assms] show "im_interface r = n \<and> im_agent r = a \<and> offer w k = Some (offer_of r)"
    by (simp add: offer_eq)
qed

section \<open>States\<close>

definition slot :: "world \<Rightarrow> nat \<Rightarrow> (string \<times> nat) option" where
  "slot w k = map_option (\<lambda>s. (st_interface s, st_agent s)) (t_get (w_states w) k)"

lemma register_state_Inr:
  assumes "register_state env a ag i w = (Inr k, w')" and wf: "t_wf (w_states w)"
  shows "slot w' j = (if j = k then Some (sii_interface i, a) else slot w j)" and "t_wf (w_states w')"
    and "w_implementations w' = w_implementations w" and "\<forall>x. slot w k = Some x \<longrightarrow> x = (sii_interface i, a)"
proof -
  let ?P = "\<lambda>s. st_interface s = sii_interface i \<and> st_agent s = a"
  obtain d w1 where d: "upsert_state_definition env (sii_definition i) w = (d, w1)" by fastforce
  then have w1: "w_states w1 = w_states w" "w_implementations w1 = w_implementations w"
    by (auto simp: upsert_state_definition_def Let_def split: option.splits)
  have res: "(case t_filter ?P (w_states w1) of
       [] \<Rightarrow> (Inr (Suc (seq (w_states w1))),
           w1\<lparr>w_states := t_add (declared_state env d ag i
              \<lparr>st_definition = d, st_interface = sii_interface i, st_key = None, st_app_identifier = None,
               st_agent = a, st_value = []\<rparr>) (w_states w1)\<rparr>)
     | [(k, _)] \<Rightarrow> (Inr k, w1\<lparr>w_states := t_upd k (declared_state env d ag i) (w_states w1)\<rparr>)
     | _ \<Rightarrow> (Inl (MultipleObjectsReturned ''State''), w1)) = (Inr k, w')"
    using assms(1) by (simp add: register_state_def d)
  have "slot w' j = (if j = k then Some (sii_interface i, a) else slot w j) \<and> t_wf (w_states w') \<and>
    w_implementations w' = w_implementations w \<and> (\<forall>x. slot w k = Some x \<longrightarrow> x = (sii_interface i, a))"
  proof (cases "t_filter ?P (w_states w1)")
    case Nil
    let ?s = "declared_state env d ag i \<lparr>st_definition = d, st_interface = sii_interface i, st_key = None,
        st_app_identifier = None, st_agent = a, st_value = []\<rparr>"
    from res Nil have eq: "k = Suc (seq (w_states w))" "w' = w1\<lparr>w_states := t_add ?s (w_states w)\<rparr>"
      unfolding Nil list.case by (simp_all add: w1)
    have "(st_interface ?s, st_agent ?s) = (sii_interface i, a)" by (simp add: declared_state_def)
    with wf t_get_fresh [OF wf] show ?thesis by (simp add: eq slot_def t_get_add t_wf_add w1)
  next
    case (Cons x xs)
    obtain k0 s where x: "x = (k0, s)" by (cases x)
    have xs: "xs = []" using res unfolding Cons x by (cases xs) simp_all
    have eq: "k = k0" "w' = w1\<lparr>w_states := t_upd k0 (declared_state env d ag i) (w_states w)\<rparr>"
      using res unfolding Cons x xs by (auto simp: w1)
    have "(k0, s) \<in> set (t_filter ?P (w_states w1))" unfolding Cons x by simp
    then have "t_get (w_states w) k0 = Some s \<and> ?P s" unfolding w1 t_filter_get [OF wf] .
    with wf show ?thesis by (auto simp: eq slot_def t_get_upd t_wf_upd w1 declared_state_def)
  qed
  then show "slot w' j = (if j = k then Some (sii_interface i, a) else slot w j)" and "t_wf (w_states w')"
    and "w_implementations w' = w_implementations w" and "\<forall>x. slot w k = Some x \<longrightarrow> x = (sii_interface i, a)"
    by blast+
qed

lemma register_states_Inr:
  assumes "register_states env a ag ins w = (Inr ks, w')" and "t_wf (w_states w)"
  shows "list_all2 (\<lambda>k i. slot w' k = Some (sii_interface i, a)) ks ins \<and> (\<forall>j x. slot w j = Some x \<longrightarrow> slot w' j = Some x) \<and>
    t_wf (w_states w') \<and> w_implementations w' = w_implementations w"
  using assms
proof (induction ins arbitrary: w ks)
  case Nil
  then show ?case by simp
next
  case (Cons i ins)
  obtain k w1 where one: "register_state env a ag i w = (Inr k, w1)"
    and "and_then (register_states env a ag ins w1) (\<lambda>ks w2. (Inr (k # ks), w2)) = (Inr ks, w')"
    using Cons.prems(1) by (auto dest!: and_then_returns)
  then obtain ks' where rest: "register_states env a ag ins w1 = (Inr ks', w')" and ks: "ks = k # ks'"
    by (auto dest!: and_then_returns)
  note reg = register_state_Inr [OF one Cons.prems(2)]
  from Cons.IH [OF rest reg(2)] have IH: "list_all2 (\<lambda>k i. slot w' k = Some (sii_interface i, a)) ks' ins"
    "\<forall>j x. slot w1 j = Some x \<longrightarrow> slot w' j = Some x" "t_wf (w_states w')" "w_implementations w' = w_implementations w1"
    by simp_all
  have "slot w1 k = Some (sii_interface i, a)" using reg(1) [of k] by simp
  moreover have "\<forall>j x. slot w j = Some x \<longrightarrow> slot w1 j = Some x" using reg(1,4) by auto
  ultimately show ?case using IH reg(3) by (simp add: ks)
qed

section \<open>Reaping\<close>

lemma keys_where_none: "keys_where (\<lambda>r. False) t = []"
  by (simp add: keys_where_def t_filter_def)

lemma get_del_keys: "t_wf t \<Longrightarrow> t_get (t_del (\<lambda>k r. k \<in> set ks) t) j = (if j \<in> set ks then None else t_get t j)"
  using t_del_get [of t "\<lambda>k r. k \<in> set ks" j] by (cases "t_get t j") fastforce+

lemma delete_some:
  assumes "delete_rows start w = (Inr (), w')" and "dm_agents start = []" and "dm_actions start = []"
    and "t_wf (w_implementations w)" and "t_wf (w_states w)"
  shows "offer w' j = (if j \<in> set (dm_implementations start) then None else offer w j)"
    and "slot w' j = (if j \<in> set (dm_states start) then None else slot w j)"
    and "t_wf (w_implementations w')" and "t_wf (w_states w')"
proof -
  have w': "w' = remove_doomed (collect_doomed start w) w"
    using assms(1) by (auto simp: delete_rows_def Let_def split: if_splits)
  have d: "dm_implementations (collect_doomed start w) = dm_implementations start"
    "dm_states (collect_doomed start w) = dm_states start"
    using assms(2,3) by (simp_all add: collect_doomed_def Let_def keys_where_none)
  show "offer w' j = (if j \<in> set (dm_implementations start) then None else offer w j)"
    using get_del_keys [OF assms(4)] by (simp add: w' remove_doomed_def offer_def t_get_map d option.map_comp comp_def)
  show "slot w' j = (if j \<in> set (dm_states start) then None else slot w j)"
    using get_del_keys [OF assms(5)] by (simp add: w' remove_doomed_def slot_def d)
  show "t_wf (w_implementations w')" using assms(4) by (simp add: w' remove_doomed_def t_wf_map t_wf_del)
  show "t_wf (w_states w')" using assms(5) by (simp add: w' remove_doomed_def t_wf_del)
qed

lemma owned_keys:
  "t_wf (w_implementations w) \<Longrightarrow> j \<in> set (keys_where (\<lambda>r. im_agent r = a) (w_implementations w)) \<longleftrightarrow>
     (\<exists>n ac. offer w j = Some (n, a, ac))"
  "t_wf (w_states w) \<Longrightarrow> j \<in> set (keys_where (\<lambda>s. st_agent s = a) (w_states w)) \<longleftrightarrow> (\<exists>n. slot w j = Some (n, a))"
  by (auto simp: keys_where_iff t_get_rows offer_def slot_def)

lemma reap_Inr:
  assumes "reap a states impls w = (Inr (), w')" and "t_wf (w_implementations w)" and "t_wf (w_states w)"
  shows "offer w' j = (if (\<exists>n ac. offer w j = Some (n, a, ac)) \<and> j \<notin> set impls then None else offer w j)"
    and "slot w' j = (if (\<exists>n. slot w j = Some (n, a)) \<and> j \<notin> set states then None else slot w j)"
proof -
  let ?S = "filter (\<lambda>k. k \<notin> set states) (keys_where (\<lambda>s. st_agent s = a) (w_states w))"
  obtain w1 where one: "delete_rows (nothing\<lparr>dm_states := ?S\<rparr>) w = (Inr (), w1)"
    and two: "delete_rows (nothing\<lparr>dm_implementations := filter (\<lambda>k. k \<notin> set impls)
                  (keys_where (\<lambda>r. im_agent r = a) (w_implementations w1))\<rparr>) w1 = (Inr (), w')"
    using assms(1) unfolding reap_def by (auto dest!: and_then_returns)
  note d1 = delete_some [OF one _ _ assms(2,3)]
  have wf1: "t_wf (w_implementations w1)" "t_wf (w_states w1)" using d1(3,4) by (simp_all add: nothing_def)
  note d2 = delete_some [OF two _ _ wf1]
  have off: "offer w1 j = offer w j" for j using d1(1) [of j] by (simp add: nothing_def)
  show "offer w' j = (if (\<exists>n ac. offer w j = Some (n, a, ac)) \<and> j \<notin> set impls then None else offer w j)"
    using d2(1) [of j] by (auto simp: nothing_def owned_keys(1) [OF wf1(1)] off)
  show "slot w' j = (if (\<exists>n. slot w j = Some (n, a)) \<and> j \<notin> set states then None else slot w j)"
    using d2(2) [of j] d1(2) [of j] owned_keys(2) [OF assms(3), of j a] by (auto simp: nothing_def)
qed

section \<open>Registering an agent\<close>

lemma update_or_create_agent_frame:
  "w_implementations (snd (update_or_create_agent env rq n h w)) = w_implementations w"
  "w_states (snd (update_or_create_agent env rq n h w)) = w_states w"
  by (simp_all add: update_or_create_agent_def insert_agent_def fresh_uuid_def save_agent_def agent_post_save_def emit_def
      Let_def split: option.split)

lemma register_locks_frame:
  "w_implementations (snd (register_locks a ls w)) = w_implementations w \<and> w_states (snd (register_locks a ls w)) = w_states w"
proof (induction ls arbitrary: w)
  case (Cons l ls)
  have one: "w_implementations (snd (register_lock a l w)) = w_implementations w \<and> w_states (snd (register_lock a l w)) = w_states w"
    by (auto simp: register_lock_def split: list.split)
  obtain r w1 where "register_lock a l w = (r, w1)" by fastforce
  with one Cons.IH [of w1] show ?case by (cases r) simp_all
qed simp

text \<open>The body of \<^verbatim>\<open>implement_agent\<close>, opened at its steps.\<close>

lemma implement_agent_steps:
  assumes "implement_agent env rq i w = (Inr a, w')"
  obtains ag w2 w3 w4 impls states where
    "w_implementations w2 = w_implementations w" "w_states w2 = w_states w"
    "create_implementations env a ag (listed (iai_implementations i))
       (if listed (iai_implementations i) = [] then None else Some (prefetch_actions (listed (iai_implementations i)) ag w2))
       (if listed (iai_implementations i) = [] then None else Some (prefetch_implementations a w2)) w2 = (Inr impls, w3)"
    "register_states env a ag (listed (iai_states i)) w3 = (Inr states, w4)"
    "reap a states impls w4 = (Inr (), w')"
proof -
  obtain h w0 where h: "(case filled (iai_hash i) of Some h \<Rightarrow> (h, w) | None \<Rightarrow> fresh_uuid env w) = (h, w0)"
    by fastforce
  then have w0: "w_implementations w0 = w_implementations w" "w_states w0 = w_states w"
    by (auto simp: fresh_uuid_def split: option.splits)
  obtain k ag w1 where u: "update_or_create_agent env rq (named_or_client env rq (iai_name i)) (Some h) w0 = ((k, ag), w1)"
    by (metis prod.collapse)
  from assms have body: "implement_agent_body env rq i w = (Inr a, w')"
    by (auto simp: implement_agent_def atomic_def split: prod.splits sum.splits if_splits)
  then obtain w2 impls w3 states w4 where k: "k = a"
    and locks: "register_locks k (listed (iai_locks i)) w1 = (Inr (), w2)"
    and steps: "create_implementations env k ag (listed (iai_implementations i))
       (if listed (iai_implementations i) = [] then None else Some (prefetch_actions (listed (iai_implementations i)) ag w2))
       (if listed (iai_implementations i) = [] then None else Some (prefetch_implementations k w2)) w2 = (Inr impls, w3)"
      "register_states env k ag (listed (iai_states i)) w3 = (Inr states, w4)"
      "reap k states impls w4 = (Inr (), w')"
    unfolding implement_agent_body_def h u Let_def prod.case by (auto dest!: and_then_returns)
  have "w_implementations w2 = w_implementations w" "w_states w2 = w_states w"
    using locks register_locks_frame [of k "listed (iai_locks i)" w1] w0
      update_or_create_agent_frame [of env rq "named_or_client env rq (iai_name i)" "Some h" w0] u by simp_all
  from that [OF this steps [unfolded k]] show ?thesis .
qed

text \<open>What an agent offers: the interfaces of its implementations, and of its states.\<close>

definition offered :: "world \<Rightarrow> nat \<Rightarrow> string set" where
  "offered w a = {n. \<exists>j ac. offer w j = Some (n, a, ac)}"

definition declared_states :: "world \<Rightarrow> nat \<Rightarrow> string set" where
  "declared_states w a = {n. \<exists>j. slot w j = Some (n, a)}"

lemma named_exactly:
  assumes "list_all2 (\<lambda>k x. P k (f x)) ks xs" and "\<And>k n n'. P k n \<Longrightarrow> P k n' \<Longrightarrow> n = n'"
  shows "{n. \<exists>k \<in> set ks. P k n} = set (map f xs)"
  using assms
proof (induction rule: list_all2_induct)
  case (Cons x xs y ys)
  then have "{n. \<exists>k \<in> set (x # xs). P k n} = insert (f y) {n. \<exists>k \<in> set xs. P k n}" by auto
  with Cons show ?case by simp
qed simp

text \<open>
  C30. After a registration the implementations of the agent are exactly those it declared and its
  states exactly those it declared, by interface, whatever it had before; the implementations of other
  agents keep their rows, their interfaces and their actions.
\<close>

theorem registration_is_declarative:
  assumes "implement_agent env rq i w = (Inr a, w')" and "t_wf (w_implementations w)" and "t_wf (w_states w)"
  shows "offered w' a = set (map ii_interface (listed (iai_implementations i))) \<and>
    declared_states w' a = set (map sii_interface (listed (iai_states i))) \<and>
    (\<forall>j n b ac. offer w j = Some (n, b, ac) \<and> b \<noteq> a \<longrightarrow> offer w' j = Some (n, b, ac))"
proof -
  let ?decl = "listed (iai_implementations i)"
  obtain ag w2 w3 w4 impls states where w2: "w_implementations w2 = w_implementations w" "w_states w2 = w_states w"
    and batch: "create_implementations env a ag ?decl
       (if ?decl = [] then None else Some (prefetch_actions ?decl ag w2))
       (if ?decl = [] then None else Some (prefetch_implementations a w2)) w2 = (Inr impls, w3)"
    and sts: "register_states env a ag (listed (iai_states i)) w3 = (Inr states, w4)"
    and reap: "reap a states impls w4 = (Inr (), w')"
    by (rule implement_agent_steps [OF assms(1)])
  have wf2: "t_wf (w_implementations w2)" using assms(2) w2 by simp
  have B: "list_all2 (\<lambda>k i. \<exists>ac. offer w3 k = Some (ii_interface i, a, ac)) impls ?decl \<and> offers_kept a w2 w3 \<and>
    t_wf (w_implementations w3) \<and> w_states w3 = w_states w2"
  proof (cases "?decl = []")
    case True
    with batch wf2 show ?thesis by simp
  next
    case False
    with batch_Inr [of env a ag ?decl _ _ w2 impls w3] batch wf2 prefetch_finds [OF wf2] show ?thesis by simp
  qed
  have wf3: "t_wf (w_states w3)" using B w2 assms(3) by simp
  note S = register_states_Inr [OF sts wf3]
  have off4: "offer w4 = offer w3" using S by (simp add: offer_def fun_eq_iff)
  have wf4: "t_wf (w_implementations w4)" "t_wf (w_states w4)" using S B by simp_all
  note R = reap_Inr [OF reap wf4, unfolded off4]
  have "offered w' a = {n. \<exists>k \<in> set impls. \<exists>ac. offer w3 k = Some (n, a, ac)}"
    by (auto simp: offered_def R(1))
  also have "\<dots> = set (map ii_interface ?decl)" using B by (intro named_exactly) auto
  finally have "offered w' a = set (map ii_interface ?decl)" .
  moreover have "declared_states w' a = {n. \<exists>k \<in> set states. slot w4 k = Some (n, a)}"
    by (auto simp: declared_states_def R(2))
  moreover have "\<dots> = set (map sii_interface (listed (iai_states i)))" using S by (intro named_exactly) auto
  moreover have "offer w = offer w2" by (simp add: offer_def fun_eq_iff w2)
  ultimately show ?thesis using B unfolding offers_kept_def by (auto simp: R(1))
qed

text \<open>An agent that offers \<^verbatim>\<open>f\<close> and keeps a position registers \<^verbatim>\<open>g\<close> alone.\<close>

definition small_definition :: definition_input where
  "small_definition = images_definition
     \<lparr>df_key := ''k'', df_name := ''n'',
      df_args := [Port None ''x'' None P_LIST None None False None None None None None None None None
                   (Some [Port None ''y'' None P_INT None None False None None None None None None None None None])]\<rparr>"

definition demo_offer :: "string \<Rightarrow> string \<Rightarrow> implementation_input" where
  "demo_offer key interface =
     \<lparr>ii_definition = small_definition\<lparr>df_key := key\<rparr>, ii_dependencies = [], ii_tracks = None, ii_interface = interface,
      ii_params = None, ii_instance_id = None, ii_locks = None, ii_optimistics = None, ii_manipulates = Some [''pos''],
      ii_needs_token = True, ii_provenance_audience = None, ii_effect = EFFECT_NONE\<rparr>"

definition next_registration :: implement_agent_input where
  "next_registration =
     \<lparr>iai_name = None, iai_states = None, iai_implementations = Some [demo_offer ''crop'' ''g''], iai_locks = None,
      iai_hash = Some ''h''\<rparr>"

definition demo_request :: request_ctx where
  "demo_request = \<lparr>rq_client = 1, rq_user = 1, rq_organization = 1\<rparr>"

definition registered_world :: world where
  "registered_world = empty_world
     \<lparr>w_agents := \<lparr>rows = [(1, demo_agent)], seq = 1\<rparr>,
      w_actions := \<lparr>rows = [(1, demo_action False ''stitch'')], seq = 1\<rparr>,
      w_implementations := \<lparr>rows = [(1, demo_implementation 1 EFFECT_NONE None)], seq = 1\<rparr>,
      w_state_definitions := \<lparr>rows = [(1, \<lparr>sdf_name = ''Position'', sdf_hash = ''p'', sdf_ports = [], sdf_description = []\<rparr>)], seq = 1\<rparr>,
      w_states := \<lparr>rows = [(1, \<lparr>st_definition = 1, st_interface = ''pos'', st_key = None, st_app_identifier = None,
                               st_agent = 1, st_value = []\<rparr>)], seq = 1\<rparr>\<rparr>"

lemma registered_wf:
  "fst (implement_agent demo_env demo_request next_registration registered_world) = Inr 1"
  "t_wf (w_implementations registered_world)" "t_wf (w_states registered_world)"
  by code_simp+

lemma registration_is_declarative_witness:
  "offered (snd (implement_agent demo_env demo_request next_registration registered_world)) 1 = {''g''} \<and>
   declared_states (snd (implement_agent demo_env demo_request next_registration registered_world)) 1 = {}"
proof -
  have "implement_agent demo_env demo_request next_registration registered_world =
      (Inr 1, snd (implement_agent demo_env demo_request next_registration registered_world))"
    using registered_wf(1) by (metis prod.collapse)
  from registration_is_declarative [OF this registered_wf(2,3)] show ?thesis
    by (simp add: next_registration_def demo_offer_def listed_def)
qed

end
