(* ===== verification/Action_Properties.thy ===== *)
theory Action_Properties
  imports Registration_Properties
begin

text \<open>What the registration of an action stores, and that doing it again changes nothing.\<close>

section \<open>Rows of actions\<close>

lemma sole_row:
  assumes "t_wf t"
  shows "t_filter P t = [(k, r)] \<longleftrightarrow> (\<forall>j s. t_get t j = Some s \<and> P s \<longleftrightarrow> j = k \<and> s = r)"
proof
  assume "t_filter P t = [(k, r)]"
  then show "\<forall>j s. t_get t j = Some s \<and> P s \<longleftrightarrow> j = k \<and> s = r"
    using t_filter_get [OF assms, of _ _ P] by auto
next
  assume *: "\<forall>j s. t_get t j = Some s \<and> P s \<longleftrightarrow> j = k \<and> s = r"
  have "set (t_filter P t) = {(k, r)}" using t_filter_get [OF assms, of _ _ P] * by auto
  moreover have "distinct (t_filter P t)"
    using assms by (auto simp: t_filter_def t_wf_def distinct_map)
  ultimately show "t_filter P t = [(k, r)]"
    by (cases "t_filter P t"; cases "tl (t_filter P t)") auto
qed

text \<open>The columns of a row, without its many-to-many relations.\<close>

definition columns :: "action \<Rightarrow> action" where
  "columns a = a\<lparr>ac_collections := [], ac_is_test_for := [], ac_protocols := []\<rparr>"

definition names_action :: "definition_input \<Rightarrow> agent \<Rightarrow> action \<Rightarrow> bool" where
  "names_action d ag a \<longleftrightarrow> ac_key a = df_key d \<and> ac_version a = df_version d \<and> ac_app a = ag_app ag \<and>
     ac_organization a = ag_organization ag"

lemma columns_same:
  assumes "columns a = columns b"
  shows "ac_hash a = ac_hash b" "ac_pure a = ac_pure b" "ac_idempotent a = ac_idempotent b" "ac_is_dev a = ac_is_dev b"
    "ac_arg_count a = ac_arg_count b" "ac_return_count a = ac_return_count b" "names_action d ag a = names_action d ag b"
    "columns (qualify d a) = columns (qualify d b)" "columns (counted d a) = columns (counted d b)"
  using assms by (cases a; cases b; simp add: columns_def names_action_def qualify_def counted_def)+

lemma columns_relations [simp]:
  "columns (a\<lparr>ac_collections := xs\<rparr>) = columns a" "columns (a\<lparr>ac_is_test_for := ys\<rparr>) = columns a"
  "columns (a\<lparr>ac_protocols := zs\<rparr>) = columns a" "columns (with_action_relations old a) = columns a"
  by (simp_all add: columns_def with_action_relations_def split: option.split)

text \<open>The row \<open>k\<close> has the columns of \<open>a\<close>, and every other row is as it was.\<close>

definition stored_as :: "nat \<Rightarrow> action \<Rightarrow> world \<Rightarrow> world \<Rightarrow> bool" where
  "stored_as k a w w' \<longleftrightarrow>
     t_wf (w_actions w') \<and> (\<exists>r. t_get (w_actions w') k = Some r \<and> columns r = columns a) \<and>
     (\<forall>j. j \<noteq> k \<longrightarrow> t_get (w_actions w') j = t_get (w_actions w) j)"

lemma stored_as_trans: "stored_as k a w w1 \<Longrightarrow> stored_as k b w1 w' \<Longrightarrow> stored_as k b w w'"
  by (simp add: stored_as_def)

lemma stored_as_upd:
  assumes "stored_as k a w w1" and "w_actions w' = t_upd k f (w_actions w1)"
    and "\<And>r. columns r = columns a \<Longrightarrow> columns (f r) = columns b"
  shows "stored_as k b w w'"
  using assms by (auto simp: stored_as_def t_get_upd t_wf_upd)

lemma stored_as_cong: "stored_as k a w w1 \<Longrightarrow> w_actions w' = w_actions w1 \<Longrightarrow> columns a = columns b \<Longrightarrow> stored_as k b w w'"
  by (simp add: stored_as_def)

lemma stored_as_save: "stored_as k a w w1 \<Longrightarrow> stored_as k b w (save_action (k, b) w1)"
  by (auto simp: stored_as_def save_action_def t_put_def t_get_upd t_wf_upd)

section \<open>The steps of a registration\<close>

definition alone :: "definition_input \<Rightarrow> agent \<Rightarrow> nat \<Rightarrow> world \<Rightarrow> bool" where
  "alone d ag k w \<longleftrightarrow> (\<forall>j s. t_get (w_actions w) j = Some s \<longrightarrow> names_action d ag s \<longrightarrow> j = k)"

lemma alone_stored: "alone d ag k w \<Longrightarrow> stored_as k a w w' \<Longrightarrow> alone d ag k w'"
  unfolding alone_def stored_as_def by metis

definition as_declared :: "'c env \<Rightarrow> definition_input \<Rightarrow> agent \<Rightarrow> action \<Rightarrow> bool" where
  "as_declared env d ag a \<longleftrightarrow> (columns (qualify d a))\<lparr>ac_arg_count := 0, ac_return_count := 0\<rparr> = new_action env d ag"

lemma as_declared_cong: "columns a = columns b \<Longrightarrow> as_declared env d ag a = as_declared env d ag b"
  using columns_same(8) [of a b d] by (simp add: as_declared_def)

lemma as_declared_updated: "names_action d ag a \<Longrightarrow> as_declared env d ag (updated_action env d a)"
  by (cases a) (simp add: as_declared_def names_action_def columns_def qualify_def updated_action_def new_action_def desired_idempotent_def)

lemma find_action_rows:
  "find_action None (df_key d) (df_version d) ag w =
     (case t_filter (names_action d ag) (w_actions w) of
        [] \<Rightarrow> Inr None | [x] \<Rightarrow> Inr (Some x) | _ \<Rightarrow> Inl (MultipleObjectsReturned ''Action''))"
  by (simp add: find_action_def names_action_def [abs_def])

lemma upsert_action_Inr:
  assumes "upsert_action env d ag None w = (Inr ((k, a), changed, m), w')" and wf: "t_wf (w_actions w)"
  shows "stored_as k a w w' \<and> alone d ag k w \<and> names_action d ag a \<and> ac_hash a = unique_hash env d \<and> m = None \<and>
    w_arg_ports w' = w_arg_ports w \<and> w_return_ports w' = w_return_ports w \<and>
    (if changed then as_declared env d ag a
     else w' = w \<and> (\<exists>r. t_get (w_actions w) k = Some r \<and> names_action d ag r \<and> ac_hash r = unique_hash env d))"
proof (cases "t_filter (names_action d ag) (w_actions w)")
  case Nil
  let ?a = "new_action env d ag"
  have none: "\<not> names_action d ag s" if "t_get (w_actions w) j = Some s" for j s
    using t_filter_get [OF wf, of j s "names_action d ag"] Nil that by simp
  from assms(1) Nil have new: "create_action ?a w = (Inr k, w')" "a = ?a" "changed" "m = None"
    by (cases "fst (create_action ?a w)"; cases "create_action ?a w"; simp add: upsert_action_def find_action_rows)+
  then have w': "k = Suc (seq (w_actions w))" "w' = w\<lparr>w_actions := t_add ?a (w_actions w)\<rparr>"
    by (auto simp: create_action_def split: if_splits)
  have "stored_as k a w w'" using wf by (simp add: stored_as_def w' new(2) t_get_add t_wf_add)
  moreover have "alone d ag k w" using none by (simp add: alone_def)
  moreover have "names_action d ag ?a" "ac_hash ?a = unique_hash env d" "as_declared env d ag ?a"
    by (simp_all add: names_action_def new_action_def as_declared_def columns_def qualify_def)
  ultimately show ?thesis using new(3,4) by (simp add: w' new(2))
next
  case (Cons x xs)
  obtain r where one: "t_filter (names_action d ag) (w_actions w) = [(k, r)]"
    and step: "(if ac_hash r = unique_hash env d then (Inr ((k, r), False, None), w)
        else if ac_app r = ag_app ag then (Inr ((k, updated_action env d r), True, None), save_action (k, updated_action env d r) w)
        else (Inl (ValueError ''already exists but has different hash''), w)) = (Inr ((k, a), changed, m), w')"
    using assms(1) Cons
    by (cases x; cases xs; cases "ac_hash (snd x) = unique_hash env d"; cases "ac_app (snd x) = ag_app ag")
      (auto simp: upsert_action_def find_action_rows Let_def)
  from one have row: "t_get (w_actions w) k = Some r" "names_action d ag r" and al: "alone d ag k w"
    using sole_row [OF wf] by (auto simp: alone_def)
  have self: "stored_as k r w w" using wf row by (simp add: stored_as_def)
  have upd: "names_action d ag (updated_action env d r)" "ac_hash (updated_action env d r) = unique_hash env d"
    using row(2) by (simp_all add: names_action_def updated_action_def)
  show ?thesis
  proof (cases "ac_hash r = unique_hash env d")
    case True
    with step self row al show ?thesis by auto
  next
    case False
    with step have "ac_app r = ag_app ag" by (auto split: if_splits)
    with False step have "a = updated_action env d r" "changed" "m = None" "w' = save_action (k, updated_action env d r) w"
      by auto
    with upd al stored_as_save [OF self] as_declared_updated [OF row(2)] show ?thesis by (simp add: save_action_def)
  qed
qed

lemma sync_qualifiers_Inr:
  assumes "sync_qualifiers d (k, a) w1 = (Inr x, w')" and "stored_as k a w w1"
  shows "fst x = k \<and> snd x = qualify d a \<and> stored_as k (qualify d a) w w' \<and>
    w_arg_ports w' = w_arg_ports w1 \<and> w_return_ports w' = w_return_ports w1"
proof (cases "ac_pure a = df_pure d \<and> ac_idempotent a = desired_idempotent d \<and> ac_is_dev a = df_is_dev d")
  case True
  then have "qualify d a = a" by (cases a) (simp add: qualify_def)
  with True assms show ?thesis by (auto simp: sync_qualifiers_def)
next
  case False
  let ?w = "w1\<lparr>w_actions := t_upd k (qualify d) (w_actions w1)\<rparr>"
  have "t_get (w_actions w1) k \<noteq> None" using assms(2) by (auto simp: stored_as_def)
  with False assms(1) have eq: "x = (k, qualify d a)" "w' = ?w"
    by (auto simp: sync_qualifiers_def save_action_fields_def Let_def)
  moreover have "stored_as k (qualify d a) w ?w"
    by (rule stored_as_upd [OF assms(2), where f = "qualify d"]) (simp, rule columns_same(8))
  ultimately show ?thesis by simp
qed

lemma derive_action_Inr:
  assumes "derive_action env d ag (k, a) w1 = (Inr x, w')" and "stored_as k a w w1"
    and "ports_wf (w_arg_ports w1)" and "ports_wf (w_return_ports w1)"
  shows "x = (k, counted d a) \<and> stored_as k (counted d a) w w' \<and> ports_wf (w_arg_ports w') \<and> ports_wf (w_return_ports w') \<and>
    forest_stored (w_arg_ports w') k (df_args d) \<and> forest_stored (w_return_ports w') k (df_returns d)"
proof -
  obtain w2 where rebuilt: "rebuild_relational_ports k d w1 = (Inr (), w2)"
    and rest: "(case upsert_protocols (infer_protocols d) w2 of
               (protocols, w2) \<Rightarrow>
                 (let w3 = set_relations k (\<lambda>r. r\<lparr>ac_protocols := protocols\<rparr>) w2;
                      w4 = set_relations k (\<lambda>r. r\<lparr>ac_is_test_for := resolve_test_targets env d ag w3\<rparr>) w3 in
                  case get_or_create_collections ag (df_collections d) w4 of
                    (collections, w5) \<Rightarrow>
                      (let w6 = set_relations k (\<lambda>r. r\<lparr>ac_collections := remdups collections\<rparr>) w5;
                           x' = (k, counted d a) in
                       (Inr x' :: action_obj outcome, save_action x' w6)))) = (Inr x, w')"
    using assms(1) unfolding derive_action_def fst_conv snd_conv
    by (auto dest!: and_then_returns split: if_splits)
  obtain A R where w2: "w2 = w1\<lparr>w_arg_ports := A, w_return_ports := R,
      w_actions := t_upd k (\<lambda>r. r\<lparr>ac_arg_count := int (length (df_args d)),
        ac_return_count := int (length (df_returns d))\<rparr>) (w_actions w1)\<rparr>"
    and ports: "ports_wf A" "ports_wf R" "forest_stored A k (df_args d)" "forest_stored R k (df_returns d)"
    by (rule rebuild_Inr [OF rebuilt assms(3,4)])
  let ?b = "counted d a"
  have "w_actions w2 = t_upd k (counted d) (w_actions w1)" by (simp add: w2 counted_def [abs_def])
  then have s2: "stored_as k ?b w w2"
    by (rule stored_as_upd [OF assms(2)]) (rule columns_same(9))
  obtain ps w3 where u: "upsert_protocols (infer_protocols d) w2 = (ps, w3)" by fastforce
  have f3: "w_actions w3 = w_actions w2" "w_arg_ports w3 = A" "w_return_ports w3 = R"
    using upsert_protocols_frame [of "infer_protocols d" w2, unfolded u snd_conv] by (simp_all add: w2)
  let ?w4 = "set_relations k (\<lambda>r. r\<lparr>ac_protocols := ps\<rparr>) w3"
  let ?w5 = "set_relations k (\<lambda>r. r\<lparr>ac_is_test_for := resolve_test_targets env d ag ?w4\<rparr>) ?w4"
  obtain cs w6 where c: "get_or_create_collections ag (df_collections d) ?w5 = (cs, w6)" by fastforce
  have f6: "w_actions w6 = w_actions ?w5" "w_arg_ports w6 = A" "w_return_ports w6 = R"
    using get_or_create_collections_frame [of ag "df_collections d" ?w5, unfolded c snd_conv] f3
    by (simp_all add: set_relations_def)
  let ?w7 = "set_relations k (\<lambda>r. r\<lparr>ac_collections := remdups cs\<rparr>) w6"
  from rest u c have eq: "x = (k, ?b)" "w' = save_action (k, ?b) ?w7" by (auto simp: Let_def)
  have s3: "stored_as k ?b w w3" by (rule stored_as_cong [OF s2 f3(1) refl])
  have s4: "stored_as k ?b w ?w4" by (rule stored_as_upd [OF s3, where f = "\<lambda>r. r\<lparr>ac_protocols := ps\<rparr>"]) (simp_all add: set_relations_def)
  have s5: "stored_as k ?b w ?w5" by (rule stored_as_upd [OF s4, where f = "\<lambda>r. r\<lparr>ac_is_test_for := resolve_test_targets env d ag ?w4\<rparr>"]) (simp_all add: set_relations_def)
  have s6: "stored_as k ?b w w6" by (rule stored_as_cong [OF s5 f6(1) refl])
  have "stored_as k ?b w ?w7" by (rule stored_as_upd [OF s6, where f = "\<lambda>r. r\<lparr>ac_collections := remdups cs\<rparr>"]) (simp_all add: set_relations_def)
  from stored_as_save [OF this] ports show ?thesis
    by (simp add: eq f6 save_action_def set_relations_def)
qed

section \<open>Registering an action\<close>

lemma columns_idle:
  "columns a = columns b \<Longrightarrow> qualify d a = a \<Longrightarrow> qualify d b = b"
  by (cases a; cases b) (simp add: columns_def qualify_def)

lemma qualify_idle [simp]: "qualify d (qualify d a) = qualify d a"
  "names_action d' ag (qualify d a) = names_action d' ag a" "ac_hash (qualify d a) = ac_hash a"
  by (simp_all add: qualify_def names_action_def)

lemma counted_idle:
  "qualify d (counted d a) = counted d (qualify d a)" "names_action d' ag (counted d a) = names_action d' ag a"
  "ac_hash (counted d a) = ac_hash a" "as_declared env d ag (counted d a) = as_declared env d ag a"
  "as_declared env d ag (qualify d a) = as_declared env d ag a"
  by (simp_all add: qualify_def names_action_def counted_def as_declared_def columns_def)

text \<open>A forest with a port has a row.\<close>

lemma forest_row:
  assumes "forest_stored t a ps"
  shows "ps = [] \<or> t_filter (\<lambda>r. pr_action r = a) t \<noteq> []"
proof (cases ps)
  case (Cons p ps')
  then obtain x where "x \<in> set (roots t a)"
    using assms by (cases "roots t a") (auto simp: forest_stored_def)
  then show ?thesis by (force simp: roots_def t_filter_def filter_empty_conv)
qed simp

lemma forests_current:
  assumes "stored_as k (counted d a) w w'" and "forest_stored (w_arg_ports w') k (df_args d)"
    and "forest_stored (w_return_ports w') k (df_returns d)"
  shows "relational_state_is_current (k, counted d a) d w' = Inr True"
  using assms(1) forest_row [OF assms(2)] forest_row [OF assms(3)]
  by (auto simp: relational_state_is_current_def stored_as_def counted_def)

text \<open>All that holds of the object and of its row when the registration returns.\<close>

definition settled :: "'c env \<Rightarrow> definition_input \<Rightarrow> agent \<Rightarrow> nat \<Rightarrow> action \<Rightarrow> world \<Rightarrow> world \<Rightarrow> bool" where
  "settled env d ag k a w w' \<longleftrightarrow>
     stored_as k a w w' \<and> alone d ag k w \<and> names_action d ag a \<and> ac_hash a = unique_hash env d \<and> qualify d a = a \<and>
     relational_state_is_current (k, a) d w' = Inr True"

lemma register_action_Inr:
  assumes "register_action env d ag None w = (Inr ((k, a), m), w')" and wf: "t_wf (w_actions w)"
    and ports: "ports_wf (w_arg_ports w)" "ports_wf (w_return_ports w)"
  shows "settled env d ag k a w w'" and "m = None"
    and "(\<forall>j s. t_get (w_actions w) j = Some s \<longrightarrow> names_action d ag s \<longrightarrow> ac_hash s \<noteq> unique_hash env d) \<Longrightarrow>
      as_declared env d ag a \<and> ac_arg_count a = int (length (df_args d)) \<and> ac_return_count a = int (length (df_returns d)) \<and>
      forest_stored (w_arg_ports w') k (df_args d) \<and> forest_stored (w_return_ports w') k (df_returns d)"
proof -
  obtain k1 a1 changed m1 w1 where up: "upsert_action env d ag None w = (Inr ((k1, a1), changed, m1), w1)"
    and rest1: "and_then (sync_qualifiers d (k1, a1) w1)
            (\<lambda>x2 w2.
               case (if changed then Inr False else relational_state_is_current x2 d w2) of
                 Inl e \<Rightarrow> (Inl e, w2)
               | Inr True \<Rightarrow> (Inr (x2, remember_action d x2 m1), w2)
               | Inr False \<Rightarrow>
                   and_then (derive_action env d ag x2 w2)
                     (\<lambda>x3 w3. (Inr (x3, remember_action d x3 m1), w3))) = (Inr ((k, a), m), w')"
    using assms(1) unfolding register_action_def by (auto dest!: and_then_returns)
  note U = upsert_action_Inr [OF up wf]
  then have s1: "stored_as k1 a1 w w1" and m1: "m1 = None" by blast+
  obtain x2 w2 where sy: "sync_qualifiers d (k1, a1) w1 = (Inr x2, w2)"
    and rest2: "(case (if changed then Inr False else relational_state_is_current x2 d w2) of
                 Inl e \<Rightarrow> (Inl e, w2)
               | Inr True \<Rightarrow> (Inr (x2, remember_action d x2 m1), w2)
               | Inr False \<Rightarrow>
                   and_then (derive_action env d ag x2 w2)
                     (\<lambda>x3 w3. (Inr (x3, remember_action d x3 m1), w3))) = (Inr ((k, a), m), w')"
    using rest1 by (auto dest!: and_then_returns)
  from sync_qualifiers_Inr [OF sy s1] have x2: "x2 = (k1, qualify d a1)" and s2: "stored_as k1 (qualify d a1) w w2"
    and ports2: "w_arg_ports w2 = w_arg_ports w" "w_return_ports w2 = w_return_ports w"
    using U by (cases x2; simp)+
  have base: "alone d ag k1 w" "names_action d ag a1" "ac_hash a1 = unique_hash env d" using U by blast+
  let ?new = "\<forall>j s. t_get (w_actions w) j = Some s \<longrightarrow> names_action d ag s \<longrightarrow> ac_hash s \<noteq> unique_hash env d"
  have "settled env d ag k a w w' \<and> m = None \<and> (?new \<longrightarrow>
      as_declared env d ag a \<and> ac_arg_count a = int (length (df_args d)) \<and> ac_return_count a = int (length (df_returns d)) \<and>
      forest_stored (w_arg_ports w') k (df_args d) \<and> forest_stored (w_return_ports w') k (df_returns d))"
  proof (cases "\<not> changed \<and> relational_state_is_current x2 d w2 = Inr True")
    case True
    with rest2 x2 m1 have eq: "k = k1" "a = qualify d a1" "w' = w2" "m = None" by (auto simp: remember_action_def)
    have "\<not> ?new" using U True by auto
    moreover have "settled env d ag k a w w'" using eq True s2 base x2 by (simp add: settled_def)
    ultimately show ?thesis using eq by blast
  next
    case False
    with rest2 obtain x3 where de: "derive_action env d ag x2 w2 = (Inr x3, w')" and x3: "x3 = (k, a)" "m = None"
      using m1 by (auto dest!: and_then_returns simp: remember_action_def split: if_splits sum.splits bool.splits)
    have "ports_wf (w_arg_ports w2)" "ports_wf (w_return_ports w2)" using ports ports2 by simp_all
    from derive_action_Inr [OF de [unfolded x2] s2 this] x3
    have D: "k = k1" "a = counted d (qualify d a1)" "stored_as k (counted d (qualify d a1)) w w'"
      "forest_stored (w_arg_ports w') k (df_args d)" "forest_stored (w_return_ports w') k (df_returns d)" by auto
    have "settled env d ag k a w w'"
      using D forests_current [OF D(3-5)] base by (simp add: settled_def counted_idle)
    moreover have "as_declared env d ag a" if ?new
      using that U by (auto simp: D(2) counted_idle split: if_splits)
    moreover have "ac_arg_count a = int (length (df_args d))" "ac_return_count a = int (length (df_returns d))"
      by (simp_all add: D(2) counted_def)
    ultimately show ?thesis using D x3 by blast
  qed
  then show "settled env d ag k a w w'" and "m = None" and "?new \<Longrightarrow>
      as_declared env d ag a \<and> ac_arg_count a = int (length (df_args d)) \<and> ac_return_count a = int (length (df_returns d)) \<and>
      forest_stored (w_arg_ports w') k (df_args d) \<and> forest_stored (w_return_ports w') k (df_returns d)"
    by blast+
qed

text \<open>
  C31. Registering a definition whose hash no action has yet, for a new action or for a new form of a
  known one, leaves the action's row with exactly the columns the definition declares, its counts and
  the rows of both of its port trees, and touches no other action.
\<close>

theorem registered_action_is_stored:
  assumes "register_action env d ag None w = (Inr ((k, a), m), w')" and "t_wf (w_actions w)"
    and "ports_wf (w_arg_ports w)" and "ports_wf (w_return_ports w)"
    and "\<forall>j s. t_get (w_actions w) j = Some s \<longrightarrow> ac_hash s \<noteq> unique_hash env d"
  shows "(\<exists>r. t_get (w_actions w') k = Some r \<and>
            r\<lparr>ac_collections := [], ac_is_test_for := [], ac_protocols := [], ac_arg_count := 0, ac_return_count := 0\<rparr>
              = new_action env d ag \<and>
            ac_arg_count r = int (length (df_args d)) \<and> ac_return_count r = int (length (df_returns d))) \<and>
    forest_stored (w_arg_ports w') k (df_args d) \<and> forest_stored (w_return_ports w') k (df_returns d) \<and>
    (\<forall>j. j \<noteq> k \<longrightarrow> t_get (w_actions w') j = t_get (w_actions w) j)"
proof -
  note R = register_action_Inr [OF assms(1-4)]
  have new: "as_declared env d ag a" "ac_arg_count a = int (length (df_args d))"
    "ac_return_count a = int (length (df_returns d))" "forest_stored (w_arg_ports w') k (df_args d)"
    "forest_stored (w_return_ports w') k (df_returns d)"
    using R(3) assms(5) by blast+
  obtain r where r: "t_get (w_actions w') k = Some r" "columns r = columns a"
    using R(1) by (auto simp: settled_def stored_as_def)
  have "qualify d a = a" using R(1) by (simp add: settled_def)
  then have "(columns r)\<lparr>ac_arg_count := 0, ac_return_count := 0\<rparr> = new_action env d ag"
    using new(1) by (simp add: as_declared_def r(2))
  then have "r\<lparr>ac_collections := [], ac_is_test_for := [], ac_protocols := [], ac_arg_count := 0, ac_return_count := 0\<rparr>
      = new_action env d ag" by (simp add: columns_def)
  moreover have "ac_arg_count r = int (length (df_args d))" "ac_return_count r = int (length (df_returns d))"
    using new(2,3) columns_same(5,6) [OF r(2)] by simp_all
  ultimately show ?thesis using r(1) new(4,5) R(1) by (auto simp: settled_def stored_as_def)
qed

text \<open>
  C32. Registering the same definition again changes nothing: it finds the row it left, and the world
  is the same after it.
\<close>

theorem reregistration_is_idle:
  assumes "register_action env d ag None w = (Inr ((k, a), m), w')" and "t_wf (w_actions w)"
    and "ports_wf (w_arg_ports w)" and "ports_wf (w_return_ports w)"
  shows "\<exists>r. t_get (w_actions w') k = Some r \<and> register_action env d ag None w' = (Inr ((k, r), None), w')"
proof -
  note S = register_action_Inr(1) [OF assms, unfolded settled_def]
  obtain r where r: "t_get (w_actions w') k = Some r" "columns r = columns a" and wf: "t_wf (w_actions w')"
    using S by (auto simp: stored_as_def)
  have named: "names_action d ag r" and "ac_hash r = unique_hash env d" and "qualify d r = r"
    using S columns_same(1,7) [OF r(2)] columns_idle [OF r(2) [symmetric]] by auto
  have "alone d ag k w'" using S alone_stored by blast
  then have "\<forall>j s. t_get (w_actions w') j = Some s \<and> names_action d ag s \<longleftrightarrow> j = k \<and> s = r"
    using r(1) named unfolding alone_def by (metis option.inject)
  then have "t_filter (names_action d ag) (w_actions w') = [(k, r)]" unfolding sole_row [OF wf] .
  then have "upsert_action env d ag None w' = (Inr ((k, r), False, None), w')"
    using \<open>ac_hash r = unique_hash env d\<close> by (simp add: upsert_action_def find_action_rows)
  moreover have "sync_qualifiers d (k, r) w' = (Inr (k, r), w')"
    using \<open>qualify d r = r\<close> by (cases r) (auto simp: sync_qualifiers_def qualify_def)
  moreover have "relational_state_is_current (k, r) d w' = relational_state_is_current (k, a) d w'"
    unfolding relational_state_is_current_def fst_conv snd_conv columns_same(5,6) [OF r(2)] ..
  moreover have "relational_state_is_current (k, a) d w' = Inr True" using S by blast
  ultimately show ?thesis using r(1) by (simp add: register_action_def remember_action_def)
qed

definition first_registration :: "(action_obj \<times> action_map option) outcome \<times> world" where
  "first_registration = register_action demo_env small_definition demo_agent None empty_world"

lemma first_registration_returns: "\<exists>k a m w'. first_registration = (Inr ((k, a), m), w')"
proof -
  have "(case fst first_registration of Inl _ \<Rightarrow> False | Inr _ \<Rightarrow> True)" by code_simp
  then show ?thesis by (metis sum.case_eq_if prod.collapse sum.collapse(2))
qed

lemma empty_tables:
  "t_wf (w_actions empty_world)" "ports_wf (w_arg_ports empty_world)" "ports_wf (w_return_ports empty_world)"
  "\<forall>j s. t_get (w_actions empty_world) j = Some s \<longrightarrow> ac_hash s \<noteq> unique_hash demo_env small_definition"
  by (simp_all add: empty_world_def t_empty_def t_wf_def ports_wf_def t_get_def)

lemma registered_action_is_stored_witness:
  "\<exists>k r. t_get (w_actions (snd first_registration)) k = Some r \<and> ac_arg_count r = 1 \<and>
     forest_stored (w_arg_ports (snd first_registration)) k (df_args small_definition)"
proof -
  obtain k a m w' where *: "first_registration = (Inr ((k, a), m), w')" using first_registration_returns by blast
  from registered_action_is_stored [OF * [unfolded first_registration_def] empty_tables]
  show ?thesis unfolding * snd_conv by (auto simp: small_definition_def)
qed

lemma reregistration_is_idle_witness:
  "\<exists>k r. register_action demo_env small_definition demo_agent None (snd first_registration) =
     (Inr ((k, r), None), snd first_registration)"
proof -
  obtain k a m w' where *: "first_registration = (Inr ((k, a), m), w')" using first_registration_returns by blast
  from reregistration_is_idle [OF * [unfolded first_registration_def] empty_tables(1-3)]
  show ?thesis unfolding * snd_conv by blast
qed

end
