(* ===== verification/Resolution.thy ===== *)
theory Resolution
  imports Registration State_Queries
begin

text \<open>
  Resolving the dependencies of an implementation: \<^verbatim>\<open>facade/mutations/resolution.py\<close> and
  \<^verbatim>\<open>auto_resolve\<close> of \<^verbatim>\<open>facade/logic.py\<close>. The resolver goes down the dependencies of every implementation it
  chooses. It shares one set of visited implementations; the recursion is given a depth, and a depth
  above the number of implementations is never used up.
\<close>

section \<open>Choosing an agent\<close>

definition any_demand :: action_demand where
  "any_demand = \<lparr>ad_hash = None, ad_key = None, ad_app = None, ad_version = None, ad_name = None, ad_arg_matches = None,
     ad_return_matches = None, ad_protocols = None, ad_force_arg_length = None, ad_force_return_length = None,
     ad_pure = None, ad_idempotent = None, ad_stateful = None\<rparr>"

definition demand_of :: "action_dependency \<Rightarrow> action_demand" where
  "demand_of a = (case adep_demand a of None \<Rightarrow> any_demand | Some d \<Rightarrow> d)"

text \<open>The action ids per key; a later dependency of the same key overwrites an earlier one.\<close>

fun matched_ids :: "(action_dependency \<times> nat list) list \<Rightarrow> nat list dict \<Rightarrow> nat list dict outcome" where
  "matched_ids [] m = Inr m"
| "matched_ids ((a, ids) # rest) m =
     (if ids = [] then Inl (ValueError ''No actions found that match the given action demands'')
      else matched_ids rest (dict_set (adep_key a) ids m))"

fun state_filters :: "state_dependency list \<Rightarrow> world \<Rightarrow> state_filter list outcome" where
  "state_filters [] w = Inr []"
| "state_filters (s # rest) w =
     (case sdep_demand s of
        None \<Rightarrow> state_filters rest w
      | Some d \<Rightarrow>
          (case state_demand_state_filters d w of
             Inl e \<Rightarrow> Inl e
           | Inr f \<Rightarrow>
               if sf_definition_ids f = Some [] then
                 Inl (ValueError ''No state definitions found that match the given state demand'')
               else map_sum id ((#) f) (state_filters rest w)))"

definition implements_one :: "world \<Rightarrow> nat \<Rightarrow> nat list \<Rightarrow> bool" where
  "implements_one w agent_id ids \<longleftrightarrow>
     t_filter (\<lambda>r. im_agent r = agent_id \<and> im_action r \<in> set ids) (w_implementations w) \<noteq> []"

definition keeps_state :: "world \<Rightarrow> nat \<Rightarrow> state_filter \<Rightarrow> bool" where
  "keeps_state w agent_id f \<longleftrightarrow> t_filter (\<lambda>s. st_agent s = agent_id \<and> state_passes w f s) (w_states w) \<noteq> []"

definition by_key :: "(nat \<times> 'r) list \<Rightarrow> (nat \<times> 'r) list" where
  "by_key xs = sort_key fst xs"

definition select_agent :: "'c env \<Rightarrow> nat \<Rightarrow> dependency \<Rightarrow> world \<Rightarrow> (nat \<times> nat list dict) outcome" where
  "select_agent env organization d w =
     (case get_action_ids_by_action_demands env w (map demand_of (de_action_demands d)) (Some organization) of
        Inl e \<Rightarrow> Inl e
      | Inr found \<Rightarrow>
          (case matched_ids (zip (de_action_demands d) found) [] of
             Inl e \<Rightarrow> Inl e
           | Inr matched \<Rightarrow>
               (case state_filters (de_state_demands d) w of
                  Inl e \<Rightarrow> Inl e
                | Inr filters \<Rightarrow>
                    (case first_row (by_key (filter (\<lambda>(i, a). ag_organization a = organization \<and>
                              list_all (implements_one w i) found \<and> list_all (keeps_state w i) filters) (rows (w_agents w)))) of
                       None \<Rightarrow> Inl (ValueError ''No agent found that can satisfy dependency'')
                     | Some (i, _) \<Rightarrow> Inr (i, matched)))))"

section \<open>The walk\<close>

text \<open>An outcome with the visited implementations; None when the depth is used up.\<close>

type_synonym walk = "(unit outcome \<times> nat list \<times> world) option"

definition continue :: "walk \<Rightarrow> (nat list \<Rightarrow> world \<Rightarrow> walk) \<Rightarrow> walk" where
  "continue r k = (case r of Some (Inr _, v, w) \<Rightarrow> k v w | _ \<Rightarrow> r)"

definition implementation_title :: "world \<Rightarrow> nat \<Rightarrow> string" where
  "implementation_title w k =
     (case t_get (w_implementations w) k of
        None \<Rightarrow> []
      | Some r \<Rightarrow>
          (case t_get (w_actions w) (im_action r) of None \<Rightarrow> [] | Some a \<Rightarrow> ac_name a) @ '' implemented by '' @
          (case t_get (w_agents w) (im_agent r) of None \<Rightarrow> [] | Some a \<Rightarrow> ag_name a))"

definition add_resolution :: "request_ctx \<Rightarrow> string \<Rightarrow> nat \<Rightarrow> world \<Rightarrow> nat \<times> world" where
  "add_resolution rq name implementation w =
     (Suc (seq (w_resolutions w)),
      w\<lparr>w_resolutions := t_add \<lparr>rsn_name = Some name, rsn_is_template = False, rsn_implementation = implementation,
          rsn_creator = rq_user rq, rsn_organization = rq_organization rq\<rparr> (w_resolutions w)\<rparr>)"

definition add_resolved ::
    "'c env \<Rightarrow> nat \<Rightarrow> nat \<Rightarrow> string \<Rightarrow> nat \<Rightarrow> nat option \<Rightarrow> world \<Rightarrow> world" where
  "add_resolved env resolution dependency key implementation down_stream w =
     (case fresh_uuid env w of
        (u, w1) \<Rightarrow>
          w1\<lparr>w_resolved := t_add \<lparr>rsd_resolution = resolution, rsd_dependency = Some dependency, rsd_key = key,
               rsd_resolution_key = Some u, rsd_implementation = implementation,
               rsd_down_stream_resolution = down_stream\<rparr> (w_resolved w1)\<rparr>)"

type_synonym descent = "nat \<Rightarrow> nat \<Rightarrow> nat list \<Rightarrow> world \<Rightarrow> walk"

text \<open>One implementation that was not visited yet: with dependencies of its own it gets a resolution,
  which is filled first.\<close>

definition choose_one ::
    "descent \<Rightarrow> 'c env \<Rightarrow> request_ctx \<Rightarrow> nat \<Rightarrow> nat \<Rightarrow> nat \<Rightarrow> string \<Rightarrow> nat \<Rightarrow> nat list \<Rightarrow> world \<Rightarrow> walk" where
  "choose_one down env rq implementation resolution dependency key impl visited w =
     (if t_filter (\<lambda>r. de_implementation r = impl) (w_dependencies w) \<noteq> [] then
        (case add_resolution rq (''Auto-resolve for Dependency object ('' @ str_of_nat dependency @ '')'' @ key @ '' on '' @
                implementation_title w implementation) impl w of
           (sub, w1) \<Rightarrow>
             continue (down impl sub (impl # visited) w1)
               (\<lambda>v w2. Some (Inr (), v, add_resolved env resolution dependency key impl (Some sub) w2)))
      else Some (Inr (), impl # visited, add_resolved env resolution dependency key impl None w))"

text \<open>The count is compared after each implementation that was chosen, not after one that was visited
  before.\<close>

fun choose_among ::
    "descent \<Rightarrow> 'c env \<Rightarrow> request_ctx \<Rightarrow> nat \<Rightarrow> nat \<Rightarrow> nat \<times> dependency \<Rightarrow> string \<Rightarrow> nat list \<Rightarrow> nat \<Rightarrow> nat list \<Rightarrow> world \<Rightarrow> walk"
where
  "choose_among down env rq implementation resolution d key [] count visited w = Some (Inr (), visited, w)"
| "choose_among down env rq implementation resolution d key (impl # rest) count visited w =
     (if impl \<in> set visited then choose_among down env rq implementation resolution d key rest count visited w
      else
        continue (choose_one down env rq implementation resolution (fst d) key impl visited w)
          (\<lambda>v w1.
             case de_prefered_instances (snd d) of
               None \<Rightarrow> Some (Inl (TypeError ''>= not supported between int and NoneType''), v, w1)
             | Some n \<Rightarrow>
                 if n \<le> int (Suc count) then Some (Inr (), v, w1)
                 else choose_among down env rq implementation resolution d key rest (Suc count) v w1))"

fun resolve_keys ::
    "descent \<Rightarrow> 'c env \<Rightarrow> request_ctx \<Rightarrow> nat \<Rightarrow> nat \<Rightarrow> nat \<times> dependency \<Rightarrow> nat \<Rightarrow> nat list dict \<Rightarrow> nat list \<Rightarrow> world \<Rightarrow> walk"
where
  "resolve_keys down env rq implementation resolution d agent_id [] visited w = Some (Inr (), visited, w)"
| "resolve_keys down env rq implementation resolution d agent_id ((key, ids) # rest) visited w =
     continue (choose_among down env rq implementation resolution d key
         (keys_where (\<lambda>r. im_action r \<in> set ids \<and> im_agent r = agent_id) (w_implementations w)) 0 visited w)
       (resolve_keys down env rq implementation resolution d agent_id rest)"

fun resolve_dependencies ::
    "descent \<Rightarrow> 'c env \<Rightarrow> request_ctx \<Rightarrow> nat \<Rightarrow> nat \<Rightarrow> (nat \<times> dependency) list \<Rightarrow> nat list \<Rightarrow> world \<Rightarrow> walk" where
  "resolve_dependencies down env rq implementation resolution [] visited w = Some (Inr (), visited, w)"
| "resolve_dependencies down env rq implementation resolution (d # rest) visited w =
     continue
       (case select_agent env (rq_organization rq) (snd d) w of
          Inl e \<Rightarrow> Some (Inl e, visited, w)
        | Inr (agent_id, matched) \<Rightarrow> resolve_keys down env rq implementation resolution d agent_id matched visited w)
       (resolve_dependencies down env rq implementation resolution rest)"

fun resolve_at :: "nat \<Rightarrow> 'c env \<Rightarrow> request_ctx \<Rightarrow> descent" where
  "resolve_at 0 env rq implementation resolution visited w = None"
| "resolve_at (Suc n) env rq implementation resolution visited w =
     resolve_dependencies (resolve_at n env rq) env rq implementation resolution
       (t_filter (\<lambda>r. de_implementation r = implementation) (w_dependencies w)) visited w"

definition resolve_tree :: "'c env \<Rightarrow> request_ctx \<Rightarrow> nat \<Rightarrow> nat \<Rightarrow> world \<Rightarrow> walk" where
  "resolve_tree env rq implementation resolution w =
     resolve_at (Suc (length (rows (w_implementations w)))) env rq implementation resolution [] w"

section \<open>The mutations\<close>

definition auto_resolve :: "'c env \<Rightarrow> request_ctx \<Rightarrow> string \<Rightarrow> world \<Rightarrow> (nat outcome \<times> world) option" where
  "auto_resolve env rq implementation w =
     (case t_get_wire ''Implementation'' (w_implementations w) implementation of
        Inl e \<Rightarrow> Some (Inl e, w)
      | Inr (k, r) \<Rightarrow>
          (case t_get (w_actions w) (im_action r) of
             None \<Rightarrow> Some (Inl (DoesNotExist ''Action''), w)
           | Some a \<Rightarrow>
               (case add_resolution rq (''Auto-resolve for '' @ ac_name a) k w of
                  (resolution, w1) \<Rightarrow>
                    map_option (\<lambda>(res, v, w2). (map_sum id (\<lambda>_. resolution) res, w2)) (resolve_tree env rq k resolution w1))))"

record create_resolution_input =
  cri_implementation :: string
  cri_name :: string
  cri_resolved_dependencies :: "resolved_dependency_input list option"

record update_resolution_input =
  uri_id :: string
  uri_name :: string
  uri_resolved_dependencies :: "resolved_dependency_input list option"

text \<open>The entries of the list are read under names their input type does not have.\<close>

definition create_resolution :: "request_ctx \<Rightarrow> create_resolution_input \<Rightarrow> world \<Rightarrow> nat outcome \<times> world" where
  "create_resolution rq i w =
     (case t_get_wire ''Implementation'' (w_implementations w) (cri_implementation i) of
        Inl e \<Rightarrow> (Inl e, w)
      | Inr (k, _) \<Rightarrow>
          (case add_resolution rq (cri_name i) k w of
             (resolution, w1) \<Rightarrow>
               if listed (cri_resolved_dependencies i) = [] then (Inr resolution, w1)
               else (Inl (AttributeError ''implementation''), w1)))"

definition update_resolution :: "update_resolution_input \<Rightarrow> world \<Rightarrow> nat outcome \<times> world" where
  "update_resolution i w =
     (case t_get_wire ''Resolution'' (w_resolutions w) (uri_id i) of
        Inl e \<Rightarrow> (Inl e, w)
      | Inr (k, _) \<Rightarrow>
          (let w1 = (if uri_name i = [] then w
                     else w\<lparr>w_resolutions := t_upd k (\<lambda>r. r\<lparr>rsn_name := Some (uri_name i)\<rparr>) (w_resolutions w)\<rparr>) in
           case uri_resolved_dependencies i of
             None \<Rightarrow> (Inr k, w1)
           | Some entries \<Rightarrow>
               (let w2 = w1\<lparr>w_resolved := t_del (\<lambda>j r. rsd_resolution r = k) (w_resolved w1)\<rparr> in
                if entries = [] then (Inr k, w2) else (Inl (AttributeError ''resolution_key''), w2))))"

definition delete_resolution :: "string \<Rightarrow> world \<Rightarrow> string outcome \<times> world" where
  "delete_resolution resolution w =
     (case t_get_wire ''Resolution'' (w_resolutions w) resolution of
        Inl e \<Rightarrow> (Inl e, w)
      | Inr (k, _) \<Rightarrow> and_then (delete_rows (nothing\<lparr>dm_resolutions := [k]\<rparr>) w) (\<lambda>_ w1. (Inr resolution, w1)))"

end
