(* ===== verification/Resolution_Properties.thy ===== *)
theory Resolution_Properties
  imports Resolution Example_World
begin

text \<open>The resolver returns, and what it chooses.\<close>

section \<open>Progress of a walk\<close>

text \<open>An implementation of an agent of the requesting organisation.\<close>

definition eligible :: "request_ctx \<Rightarrow> world \<Rightarrow> nat \<Rightarrow> bool" where
  "eligible rq w j \<longleftrightarrow>
     (\<exists>im ag. (j, im) \<in> set (rows (w_implementations w)) \<and> (im_agent im, ag) \<in> set (rows (w_agents w)) \<and>
        ag_organization ag = rq_organization rq)"

definition same_offers :: "world \<Rightarrow> world \<Rightarrow> bool" where
  "same_offers w w' \<longleftrightarrow> w_implementations w' = w_implementations w \<and> w_agents w' = w_agents w"

definition chosen :: "(nat \<times> resolved_dependency) list \<Rightarrow> nat list" where
  "chosen new = map (\<lambda>x. rsd_implementation (snd x)) new"

text \<open>A walk that returns has added rows for implementations it had not visited, each once.\<close>

definition goes_on :: "request_ctx \<Rightarrow> nat list \<Rightarrow> world \<Rightarrow> walk \<Rightarrow> bool" where
  "goes_on rq visited w r \<longleftrightarrow>
     (\<exists>res v w' new. r = Some (res, v, w') \<and> set visited \<subseteq> set v \<and> same_offers w w' \<and>
        rows (w_resolved w') = rows (w_resolved w) @ new \<and> distinct (chosen new) \<and>
        set (chosen new) \<subseteq> set v - set visited \<and> (\<forall>j \<in> set (chosen new). eligible rq w j))"

lemma goes_on_here: "goes_on rq visited w (Some (res, visited, w))"
  by (simp add: goes_on_def same_offers_def chosen_def)

lemma eligible_cong: "same_offers w w' \<Longrightarrow> eligible rq w' = eligible rq w"
  by (simp add: eligible_def same_offers_def fun_eq_iff)

lemma goes_on_continue:
  assumes "goes_on rq visited w r"
    and "\<And>v w1. set visited \<subseteq> set v \<Longrightarrow> same_offers w w1 \<Longrightarrow> goes_on rq v w1 (k v w1)"
  shows "goes_on rq visited w (continue r k)"
proof -
  obtain res v w1 new where r: "r = Some (res, v, w1)" "set visited \<subseteq> set v" "same_offers w w1"
    "rows (w_resolved w1) = rows (w_resolved w) @ new" "distinct (chosen new)"
    "set (chosen new) \<subseteq> set v - set visited" "\<forall>j \<in> set (chosen new). eligible rq w j"
    using assms(1) unfolding goes_on_def by blast
  show ?thesis
  proof (cases res)
    case (Inl e)
    with assms(1) r(1) show ?thesis by (simp add: continue_def)
  next
    case (Inr u)
    obtain res' v' w2 new' where k: "k v w1 = Some (res', v', w2)" "set v \<subseteq> set v'" "same_offers w1 w2"
      "rows (w_resolved w2) = rows (w_resolved w1) @ new'" "distinct (chosen new')"
      "set (chosen new') \<subseteq> set v' - set v" "\<forall>j \<in> set (chosen new'). eligible rq w1 j"
      using assms(2) [OF r(2,3)] unfolding goes_on_def by blast
    have "distinct (chosen (new @ new'))" using r(5,6) k(5,6) by (auto simp: chosen_def)
    moreover have "set (chosen (new @ new')) \<subseteq> set v' - set visited"
      using r(2,6) k(2,6) by (auto simp: chosen_def)
    moreover have "\<forall>j \<in> set (chosen (new @ new')). eligible rq w j"
      using r(7) k(7) eligible_cong [OF r(3)] by (auto simp: chosen_def)
    moreover have "same_offers w w2" using r(3) k(3) by (simp add: same_offers_def)
    moreover have "rows (w_resolved w2) = rows (w_resolved w) @ (new @ new')" using r(4) k(4) by simp
    ultimately show ?thesis
      unfolding goes_on_def using r(1,2) k(1,2) by (simp add: continue_def Inr)
  qed
qed

section \<open>What is left to visit\<close>

definition left_over :: "world \<Rightarrow> nat list \<Rightarrow> nat" where
  "left_over w v = length (filter (\<lambda>(k, r). k \<notin> set v) (rows (w_implementations w)))"

lemma left_over_mono:
  assumes "same_offers w w1" and "set v \<subseteq> set v1"
  shows "left_over w1 v1 \<le> left_over w v"
proof -
  have "filter (\<lambda>(k, r). k \<notin> set v1) (rows (w_implementations w)) =
      filter (\<lambda>(k, r). k \<notin> set v1) (filter (\<lambda>(k, r). k \<notin> set v) (rows (w_implementations w)))"
    using assms(2) by (auto intro!: filter_cong)
  also have "length \<dots> \<le> length (filter (\<lambda>(k, r). k \<notin> set v) (rows (w_implementations w)))"
    by (rule length_filter_le)
  finally show ?thesis using assms(1) by (simp add: left_over_def same_offers_def)
qed

lemma left_over_less:
  assumes "(j, im) \<in> set (rows (w_implementations w))" and "j \<notin> set v"
  shows "left_over w (j # v) < left_over w v"
proof -
  have "filter (\<lambda>(k, r). k \<notin> set (j # v)) (rows (w_implementations w)) =
      filter (\<lambda>(k, r). k \<noteq> j) (filter (\<lambda>(k, r). k \<notin> set v) (rows (w_implementations w)))"
    by (auto intro!: filter_cong)
  also have "length \<dots> < length (filter (\<lambda>(k, r). k \<notin> set v) (rows (w_implementations w)))"
    using assms by (intro length_filter_less [of "(j, im)"]) auto
  finally show ?thesis by (simp add: left_over_def)
qed

definition descends :: "request_ctx \<Rightarrow> nat \<Rightarrow> descent \<Rightarrow> bool" where
  "descends rq n down \<longleftrightarrow> (\<forall>impl res v w. left_over w v < n \<longrightarrow> goes_on rq v w (down impl res v w))"

section \<open>The loops\<close>

lemma add_resolved_step:
  "\<exists>w3. (Some (Inr (), v, add_resolved env res d key j down w2) :: walk) = Some (Inr (), v, w3) \<and> same_offers w2 w3 \<and>
     (\<exists>x. rows (w_resolved w3) = rows (w_resolved w2) @ [x] \<and> rsd_implementation (snd x) = j)"
  by (simp add: add_resolved_def fresh_uuid_def t_add_def same_offers_def Let_def)

lemma goes_on_chosen:
  assumes "goes_on rq (j # visited) w1 r" and "same_offers w w1" and "w_resolved w1 = w_resolved w"
    and "j \<notin> set visited" and "eligible rq w j"
    and "\<And>v w2. \<exists>w3. k v w2 = Some (Inr (), v, w3) \<and> same_offers w2 w3 \<and>
      (\<exists>x. rows (w_resolved w3) = rows (w_resolved w2) @ [x] \<and> rsd_implementation (snd x) = j)"
  shows "goes_on rq visited w (continue r k)"
proof -
  obtain res v w2 new where r: "r = Some (res, v, w2)" "set (j # visited) \<subseteq> set v" "same_offers w1 w2"
    "rows (w_resolved w2) = rows (w_resolved w1) @ new" "distinct (chosen new)"
    "set (chosen new) \<subseteq> set v - set (j # visited)" "\<forall>i \<in> set (chosen new). eligible rq w1 i"
    using assms(1) unfolding goes_on_def by blast
  have two: "same_offers w w2" using assms(2) r(3) by (simp add: same_offers_def)
  show ?thesis
  proof (cases res)
    case (Inl e)
    have "goes_on rq visited w (Some (res, v, w2))"
      unfolding goes_on_def using r two assms(3) eligible_cong [OF assms(2)]
      by (intro exI [of _ res] exI [of _ v] exI [of _ w2] exI [of _ new]) auto
    then show ?thesis by (simp add: continue_def r(1) Inl)
  next
    case (Inr u)
    obtain w3 x where k: "k v w2 = Some (Inr (), v, w3)" "same_offers w2 w3"
      "rows (w_resolved w3) = rows (w_resolved w2) @ [x]" "rsd_implementation (snd x) = j"
      using assms(6) [of v w2] by blast
    have "chosen (new @ [x]) = chosen new @ [j]" using k(4) by (simp add: chosen_def)
    then have "distinct (chosen (new @ [x])) \<and> set (chosen (new @ [x])) \<subseteq> set v - set visited \<and>
        (\<forall>i \<in> set (chosen (new @ [x])). eligible rq w i)"
      using r(2,5,6,7) assms(4,5) eligible_cong [OF assms(2)] by auto
    moreover have "rows (w_resolved w3) = rows (w_resolved w) @ (new @ [x])" using r(4) k(3) assms(3) by simp
    moreover have "same_offers w w3" "set visited \<subseteq> set v" using two k(2) r(2) by (auto simp: same_offers_def)
    ultimately show ?thesis
      unfolding goes_on_def by (simp add: continue_def r(1) Inr k(1))
  qed
qed

lemma choose_one_goes_on:
  assumes "descends rq n down" and "left_over w visited < Suc n" and "impl \<notin> set visited" and "eligible rq w impl"
  shows "goes_on rq visited w (choose_one down env rq implementation resolution d key impl visited w)"
proof (cases "t_filter (\<lambda>r. de_implementation r = impl) (w_dependencies w) \<noteq> []")
  case True
  obtain sub w1 where a: "add_resolution rq (''Auto-resolve for Dependency object ('' @ str_of_nat d @ '')'' @ key @ '' on '' @
                implementation_title w implementation) impl w = (sub, w1)" by fastforce
  have w1: "same_offers w w1" "w_resolved w1 = w_resolved w"
    using a by (auto simp: add_resolution_def same_offers_def)
  obtain im where "(impl, im) \<in> set (rows (w_implementations w))" using assms(4) by (auto simp: eligible_def)
  from left_over_less [OF this assms(3)] assms(2) have "left_over w (impl # visited) < n" by simp
  with left_over_mono [OF w1(1) subset_refl] have "left_over w1 (impl # visited) < n" by (meson le_less_trans)
  with assms(1) have "goes_on rq (impl # visited) w1 (down impl sub (impl # visited) w1)" by (simp add: descends_def)
  then have "goes_on rq visited w (continue (down impl sub (impl # visited) w1)
      (\<lambda>v w2. Some (Inr (), v, add_resolved env resolution d key impl (Some sub) w2)))"
    by (rule goes_on_chosen [OF _ w1 assms(3,4)]) (rule add_resolved_step)
  moreover have "choose_one down env rq implementation resolution d key impl visited w =
      continue (down impl sub (impl # visited) w1)
        (\<lambda>v w2. Some (Inr (), v, add_resolved env resolution d key impl (Some sub) w2))"
    unfolding choose_one_def a prod.case using True by (rule if_P)
  ultimately show ?thesis by simp
next
  case False
  have "same_offers w w" by (simp add: same_offers_def)
  then have "goes_on rq visited w (continue (Some (Inr (), impl # visited, w))
      (\<lambda>v w2. Some (Inr (), v, add_resolved env resolution d key impl None w2)))"
    by (rule goes_on_chosen [OF goes_on_here _ refl assms(3,4)]) (rule add_resolved_step)
  with False show ?thesis by (simp add: choose_one_def continue_def)
qed

lemma choose_among_goes_on:
  assumes "descends rq n down" and "left_over w visited < Suc n" and "\<forall>j \<in> set cands. eligible rq w j"
  shows "goes_on rq visited w (choose_among down env rq implementation resolution d key cands count visited w)"
  using assms(2,3)
proof (induction cands arbitrary: count visited w)
  case (Cons j rest)
  show ?case
  proof (cases "j \<in> set visited")
    case False
    show ?thesis
    proof (simp only: choose_among.simps False if_False, rule goes_on_continue)
      show "goes_on rq visited w (choose_one down env rq implementation resolution (fst d) key j visited w)"
        using choose_one_goes_on [OF assms(1) Cons.prems(1) False] Cons.prems(2) by simp
      fix v w1 assume *: "set visited \<subseteq> set v" "same_offers w w1"
      have "left_over w1 v < Suc n" using left_over_mono [OF *(2,1)] Cons.prems(1) by simp
      moreover have "\<forall>j \<in> set rest. eligible rq w1 j" using Cons.prems(2) eligible_cong [OF *(2)] by simp
      ultimately show "goes_on rq v w1 (case de_prefered_instances (snd d) of
               None \<Rightarrow> Some (Inl (TypeError ''>= not supported between int and NoneType''), v, w1)
             | Some n \<Rightarrow>
                 if n \<le> int (Suc count) then Some (Inr (), v, w1)
                 else choose_among down env rq implementation resolution d key rest (Suc count) v w1)"
        using Cons.IH goes_on_here by (simp split: option.split)
    qed
  qed (use Cons in simp)
qed (simp add: goes_on_here)

lemma resolve_keys_goes_on:
  assumes "descends rq n down" and "left_over w visited < Suc n"
    and "\<exists>ag. (agent_id, ag) \<in> set (rows (w_agents w)) \<and> ag_organization ag = rq_organization rq"
  shows "goes_on rq visited w (resolve_keys down env rq implementation resolution d agent_id matched visited w)"
  using assms(2,3)
proof (induction matched arbitrary: visited w)
  case (Cons m rest)
  obtain key ids where m: "m = (key, ids)" by (cases m)
  show ?case
  proof (simp only: m resolve_keys.simps, rule goes_on_continue)
    have "\<forall>j \<in> set (keys_where (\<lambda>r. im_action r \<in> set ids \<and> im_agent r = agent_id) (w_implementations w)). eligible rq w j"
      using Cons.prems(2) by (auto simp: eligible_def keys_where_def t_filter_def)
    from choose_among_goes_on [OF assms(1) Cons.prems(1) this]
    show "goes_on rq visited w (choose_among down env rq implementation resolution d key
         (keys_where (\<lambda>r. im_action r \<in> set ids \<and> im_agent r = agent_id) (w_implementations w)) 0 visited w)" .
    fix v w1 assume *: "set visited \<subseteq> set v" "same_offers w w1"
    show "goes_on rq v w1 (resolve_keys down env rq implementation resolution d agent_id rest v w1)"
    proof (rule Cons.IH)
      show "left_over w1 v < Suc n" using left_over_mono [OF *(2,1)] Cons.prems(1) by simp
      show "\<exists>ag. (agent_id, ag) \<in> set (rows (w_agents w1)) \<and> ag_organization ag = rq_organization rq"
        using Cons.prems(2) *(2) by (simp add: same_offers_def)
    qed
  qed
qed (simp add: goes_on_here)

lemma select_agent_Inr:
  assumes "select_agent env organization d w = Inr (i, matched)"
  shows "\<exists>ag. (i, ag) \<in> set (rows (w_agents w)) \<and> ag_organization ag = organization"
proof -
  obtain found filters a where "first_row (by_key (filter (\<lambda>(i, a). ag_organization a = organization \<and>
      list_all (implements_one w i) found \<and> list_all (keeps_state w i) filters) (rows (w_agents w)))) = Some (i, a)"
    using assms by (auto simp: select_agent_def split: sum.splits option.splits)
  then have "(i, a) \<in> set (by_key (filter (\<lambda>(i, a). ag_organization a = organization \<and>
      list_all (implements_one w i) found \<and> list_all (keeps_state w i) filters) (rows (w_agents w))))"
    by (auto simp: first_row_def split: list.splits)
  then show ?thesis by (auto simp: by_key_def)
qed

lemma resolve_dependencies_goes_on:
  assumes "descends rq n down" and "left_over w visited < Suc n"
  shows "goes_on rq visited w (resolve_dependencies down env rq implementation resolution ds visited w)"
  using assms(2)
proof (induction ds arbitrary: visited w)
  case (Cons d rest)
  show ?case
  proof (simp only: resolve_dependencies.simps, rule goes_on_continue)
    show "goes_on rq visited w (case select_agent env (rq_organization rq) (snd d) w of
          Inl e \<Rightarrow> Some (Inl e, visited, w)
        | Inr (agent_id, matched) \<Rightarrow> resolve_keys down env rq implementation resolution d agent_id matched visited w)"
    proof (cases "select_agent env (rq_organization rq) (snd d) w")
      case (Inr x)
      obtain i matched where x: "x = (i, matched)" by (cases x)
      from resolve_keys_goes_on [OF assms(1) Cons.prems select_agent_Inr [OF Inr [unfolded x]]]
      show ?thesis by (simp add: Inr x)
    qed (simp add: goes_on_here)
    fix v w1 assume *: "set visited \<subseteq> set v" "same_offers w w1"
    show "goes_on rq v w1 (resolve_dependencies down env rq implementation resolution rest v w1)"
      using Cons.IH left_over_mono [OF *(2,1)] Cons.prems by simp
  qed
qed (simp add: goes_on_here)

lemma resolve_at_descends: "descends rq n (resolve_at n env rq)"
proof (induction n)
  case (Suc n)
  show ?case unfolding descends_def resolve_at.simps using resolve_dependencies_goes_on [OF Suc] by blast
qed (simp add: descends_def)


text \<open>Two agents whose implementations depend on each other's actions.\<close>

definition mutual_dependency :: "nat \<Rightarrow> string \<Rightarrow> dependency" where
  "mutual_dependency k h = (blank_dependency k ''d'')
     \<lparr>de_action_demands := [\<lparr>adep_key = h, adep_description = None, adep_demand = Some (any_demand\<lparr>ad_hash := Some h\<rparr>),
                              adep_optional = False, adep_allow_inactive = False\<rparr>],
      de_prefered_instances := Some 1\<rparr>"

definition cyclic_world :: world where
  "cyclic_world = empty_world
     \<lparr>w_agents := \<lparr>rows = [(1, demo_agent), (2, demo_agent)], seq = 2\<rparr>,
      w_actions := \<lparr>rows = [(1, demo_action False ''a''), (2, demo_action False ''b'')], seq = 2\<rparr>,
      w_implementations := \<lparr>rows = [(1, demo_implementation 1 EFFECT_NONE None),
                                   (2, (demo_implementation 2 EFFECT_NONE None)\<lparr>im_agent := 2\<rparr>)], seq = 2\<rparr>,
      w_dependencies := \<lparr>rows = [(1, mutual_dependency 1 ''b''), (2, mutual_dependency 2 ''a'')], seq = 2\<rparr>\<rparr>"

lemma cyclic_choices:
  "map_option (\<lambda>(res, v, w'). chosen (rows (w_resolved w')))
     (resolve_tree demo_env \<lparr>rq_client = 1, rq_user = 1, rq_organization = 1\<rparr> 1 1 cyclic_world) = Some [1, 2]"
  by code_simp


end
