(* ===== verification/Spec2Isabelle.thy ===== *)
theory Spec2Isabelle
  imports Boundary_Properties Match_Properties State_Properties Scan_Properties Action_Properties Resolution_Properties
begin

text \<open>
  Rekuest is a task broker. Agents, which are worker processes, register the implementations they
  offer; users and agents assign tasks to them; the server stores every task and its events in the
  database and moves messages between the two sides over websockets, redis queues and webhooks.
  This library models the server's task machinery and proves what makes it correct. Paths below are
  relative to \<^verbatim>\<open>src\<close>.

  \<^bold>\<open>The parts and how they interact.\<close>
  A request to run something reaches the postman (\<^verbatim>\<open>facade/backend.py\<close>) from GraphQL or, for
  dependent work, from an agent's socket (\<^verbatim>\<open>facade/persist_backend.py\<close>). It picks an implementation,
  stores the task, mints a provenance token (\<^verbatim>\<open>facade/provenance\<close>) and hands an Assign to the agent's
  transport (\<^verbatim>\<open>facade/transport.py\<close>): a redis list for a websocket agent, a signed POST for a webhook
  agent. The agent's connection (\<^verbatim>\<open>facade/consumers/agent_protocol.py\<close>) relays the list to the socket
  and routes what comes back (\<^verbatim>\<open>facade/message_router.py\<close>) to the handlers of the persistence layer,
  which write task events; saving an event notifies the caller. An executor owns its agent through a
  lease with a fencing epoch. When it is lost, a grace timer, a reconnect or a sweep decides the
  fate of its open tasks. What an action accepts and returns is declared by the port trees of a
  definition (\<^verbatim>\<open>rekuest_core/inputs\<close>), validated when they arrive, flattened into port rows at
  registration (\<^verbatim>\<open>facade/mutations/implementation.py\<close>) and searched by demands
  (\<^verbatim>\<open>facade/managers.py\<close>). An agent registers everything it offers in one transaction
  (\<^verbatim>\<open>facade/mutations/agent.py\<close>); what it no longer declares is deleted, with the rows that refer to it
  (the \<^verbatim>\<open>on_delete\<close> rules of \<^verbatim>\<open>facade/models\<close>). The dependencies of an implementation are resolved to
  implementations of other agents (\<^verbatim>\<open>facade/logic.py\<close>). The states an agent reports are stored as
  snapshots and patches and read back by replaying them (\<^verbatim>\<open>facade/logic.py\<close>,
  \<^verbatim>\<open>facade/queries/state.py\<close>).

  \<^bold>\<open>The theories, in the order they build on one another.\<close>
  \<^item> \<open>Prelude\<close>: exceptions and outcomes, dicts and JSON, keys as wire strings, tables.
  \<^item> \<open>Enums\<close>, \<open>Messages\<close>, \<open>Inputs\<close>: \<^verbatim>\<open>facade/enums\<close>, \<^verbatim>\<open>facade/messages.py\<close>, \<^verbatim>\<open>facade/inputs\<close>; one
    datatype per enumeration, one record per message or input class, with its fields.
  \<^item> \<open>Port_Inputs\<close>, \<open>Definitions\<close>: the port trees, demands, definitions and registration inputs of
    \<^verbatim>\<open>rekuest_core/inputs/models.py\<close>, their validators, and the scope and protocols read off them
    (\<^verbatim>\<open>facade/unique.py\<close>, \<^verbatim>\<open>facade/protocol.py\<close>).
  \<^item> \<open>Grace\<close>: the timers of \<^verbatim>\<open>facade/grace.py\<close>; \<open>Agent_Queue\<close>: the queues of
    \<^verbatim>\<open>facade/consumers/agent_queue.py\<close> and the relay loop over them.
  \<^item> \<open>Models\<close>: the rows of \<^verbatim>\<open>facade/models\<close>, the configuration (\<open>env\<close>) and the shared state (\<open>world\<close>).
  \<^item> \<open>Liveness\<close>: \<^verbatim>\<open>facade/liveness.py\<close>; \<open>Caller_Events\<close> and \<open>Transport\<close>: the mirrors, webhooks,
    notifiers and signals of \<^verbatim>\<open>caller_events.py\<close>, \<^verbatim>\<open>hooks.py\<close>, \<^verbatim>\<open>transport.py\<close> and \<^verbatim>\<open>signals.py\<close>.
  \<^item> \<open>Lease\<close>, \<open>Reconcile\<close>, \<open>Lifecycle\<close>, \<open>Caller_Ops\<close>: the methods of \<^verbatim>\<open>ModelPersistBackend\<close> under their
    own names, with the reaper and the \<^verbatim>\<open>reconcile_tasks\<close> command.
  \<^item> \<open>Provenance\<close>, \<open>Higher_Order\<close>: \<^verbatim>\<open>facade/provenance\<close> and \<^verbatim>\<open>facade/higher_order.py\<close>.
  \<^item> \<open>Postman\<close>: \<^verbatim>\<open>RedisControllBackend\<close> and the dependency resolution of \<^verbatim>\<open>facade/backend.py\<close>.
  \<^item> \<open>Message_Router\<close>, \<open>Agent_Protocol\<close>: the router, the webhook intake, one connection.
  \<^item> \<open>Descriptors\<close>: \<^verbatim>\<open>facade/descriptors.py\<close>; \<open>Port_Rows\<close>: the flattening of port trees into rows of
    \<^verbatim>\<open>facade/mutations/implementation.py\<close>; \<open>Matching\<close>: the relational matcher of
    \<^verbatim>\<open>facade/managers.py\<close>, an SQL condition as a tree with its text and its meaning over the rows.
  \<^item> \<open>Json_Scan\<close>: the scanner of JSON columns and the state demands of \<^verbatim>\<open>facade/managers.py\<close>;
    \<open>State_Queries\<close>: \<^verbatim>\<open>get_latest_state\<close> of \<^verbatim>\<open>facade/logic.py\<close> and \<^verbatim>\<open>facade/queries/state.py\<close>.
  \<^item> \<open>Cascade\<close>: the deletions, over the foreign keys between the modelled tables; \<open>Registration\<close>:
    \<^verbatim>\<open>facade/mutations/implementation.py\<close> and \<^verbatim>\<open>facade/mutations/agent.py\<close>, on objects that are loaded,
    kept and saved as the code does; \<open>Resolution\<close>: \<^verbatim>\<open>auto_resolve\<close> of \<^verbatim>\<open>facade/logic.py\<close> and
    \<^verbatim>\<open>facade/mutations/resolution.py\<close>.
  \<^item> \<open>Port_Storage\<close>, \<open>Match_Semantics\<close>: what rows say of a port tree, and what a match says of rows.
  \<^item> \<open>System\<close>: all connections and the shared state, one step per event that can happen.
  \<^item> \<open>Task_Ledger\<close>, \<open>Postman_Facts\<close>, \<open>Protocol_Facts\<close>: the invariants the operations keep and the
    facts about them that properties share; \<open>Example_World\<close>: a small database for the witnesses.
  \<^item> \<open>Terminal_Contract\<close> and the theories named \<open>Properties\<close>: what is proved of each part.

  \<^bold>\<open>Interfaces.\<close>
  A contract several operations or providers share is a locale: \<open>message_queue\<close> and \<open>durable_queue\<close>
  (interpreted by the redis and the in-memory queue), \<open>fencing\<close> (by the lease operations on an
  agent's row), \<open>terminal_handler\<close> (by each of the five handlers of a terminal report).

  \<^bold>\<open>What the lemmas show.\<close>
  Over the whole service: a task ends once, with one event, and stays ended; an agent has one
  executor. Of assignment: what is stored and sent, directly or through a wrapper, and that a resend
  is the same task. Of lost executors: the fate of physical, idempotent and other work, that a
  reconcile settles every open task, that a transition is claimed once. Of the lease: a token is
  a fence. Of the connection: who gets a session, what a peer may reach before it has one, that the
  relay keeps order and loses nothing. Of the boundary: what a token says, that a webhook call is
  authenticated, that the higher-order projection reads as configured. Of definitions: what
  validation leaves of a port tree, that descriptors compile to one predicate whose string constants
  read back, that registration leaves exactly the declared ports in the tables, that demands select
  exactly the actions whose ports match, in either form of the query's parameters, and a scan the state
  definitions whose ports match. Of registration: that an agent offers afterwards exactly what it
  declared, that an action is stored with the columns and the port rows of its definition, and that
  registering it again changes nothing. Of deletion: that no reference is left dangling. Of
  resolution: that the resolver always returns and chooses no implementation twice. Of states: that a
  checkout is the document the agent reported, patch by patch. A few state where the code
  falls short of its comments, in the words of the theorem.

  \<^bold>\<open>Conventions and bounds.\<close>
  Times are integers in microseconds; a handler runs at one instant. A handler is a function from the
  world to an outcome and a world: an exception is a value and keeps what was written before it, as
  each statement commits on its own unless a transaction encloses it. Concurrency is the order of
  steps; a row lock makes the body it guards one step. Python's integers are unbounded, as are the
  columns' here. A condition is a tree rendered to the query text, and its meaning is defined on the
  tree; a walk over a port tree recurses on its size. The walk to a task's root is cut after 256 parents as in the code, and the property
  about it says what holds within that bound. Two definitions carry a bound of their own. \<open>task_trees\<close>
  closes a set of tasks under their children in as many rounds as there are tasks: a round that adds
  nothing is the last that could (\<open>rounds_close\<close>). \<open>resolve_at\<close> descends to a given depth, and
  \<open>resolve_tree\<close> gives it one more than there are implementations, which is never used up, as each
  descent is to an implementation not visited before (\<open>resolution_terminates\<close>). Every other loop runs
  over a list. The lengths of text columns are not modelled; rows that agree on the column of an
  \<^verbatim>\<open>order_by\<close>, or are asked for in no order, come in table order.

  \<^bold>\<open>Parameters.\<close>
  The record \<open>env\<close> carries what is not under \<^verbatim>\<open>src\<close>: settings, the identity columns of the
  authentication package, pydantic's JSON, SHA-256, HMAC, the token signature, uuid and random draws,
  whether a POST succeeds, whether a JSONPath predicate accepts an object. The authenticator is an
  argument of the connection's operations, the unit registry one of the validators.

  \<^bold>\<open>Not modelled.\<close>
  The GraphQL types, filters, subscriptions and resolvers, which declare views of these rows; of
  registration, the interface components at the end of \<^verbatim>\<open>implement_agent\<close> and the pins of users; the
  signals of states, actions and implementations, which feed the interface; interface objects (bloks,
  dashboards, spaces, toolboxes); the datalayer over S3; key loading; settings, migrations and the
  admin site. Registration and resolution are operations on the world of their own; the runs of
  \<open>System\<close> are over the task machinery and do not include them.
\<close>

section \<open>The running service\<close>


definition no_identity :: identify where
  "no_identity = (\<lambda>_. None)"

definition swept :: system where
  "swept = \<lparr>sy_conns = [], sy_world = reaper_iteration demo_env gone_world\<rparr>"

lemma swept_reachable: "reachable demo_env no_identity gone_world swept"
  unfolding swept_def
  using reachable.next_step [OF reachable.initial step.reap, of demo_env no_identity gone_world] by simp




text \<open>
  C3. An agent has one executor: in every reachable state, of all the connections that hold a session
  of the same agent at most one can renew its lease, however often the others were displaced,
  reclaimed or timed out.
\<close>

theorem single_executor:
  assumes "ledger w0" and "reachable env identify w0 s"
    and "j < length (sy_conns s)" and "token (sy_conns s ! j) = Some (i, e)"
    and "k < length (sy_conns s)" and "token (sy_conns s ! k) = Some (i, e')"
    and "fst (renew_agent_lease i e (sy_world s))" and "fst (renew_agent_lease i e' (sy_world s))"
  shows "j = k"
proof -
  have "e = e'"
    using assms(7,8) by (auto simp: renew_agent_lease_def split: option.splits if_splits)
  then show ?thesis
    using reachable_ok(1) [OF assms(1,2)] assms(3-6) by (auto simp: system_ok_def tokens_ok_def)
qed

text \<open>Two connections register for the same agent, the second by force.\<close>

definition demo_identity :: identify where
  "demo_identity = (\<lambda>_. Some (1, 1, 1))"

definition both_open :: system where
  "both_open = \<lparr>sy_conns = [new_connection ''c1'', new_connection ''c2''], sy_world = demo_world\<rparr>"

definition register_on :: "nat \<Rightarrow> system \<Rightarrow> system" where
  "register_on k s =
     put k (receive demo_env demo_identity (Parsed (Register demo_register)) (sy_conns s ! k) (sy_world s)) s"

definition registered :: system where
  "registered = register_on 1 (register_on 0 both_open)"

lemma register_on_reachable:
  "reachable demo_env demo_identity w0 s \<Longrightarrow> k < length (sy_conns s) \<Longrightarrow>
   reachable demo_env demo_identity w0 (register_on k s)"
  unfolding register_on_def by (blast intro: reachable.next_step step.frame)

lemma registered_reachable: "reachable demo_env demo_identity demo_world registered"
proof -
  have "reachable demo_env demo_identity demo_world both_open"
    using reachable.next_step [OF reachable.next_step [OF reachable.initial
          step.connect [where cid = "''c1''"]] step.connect [where cid = "''c2''"],
          of demo_env demo_identity demo_world]
    by (simp add: both_open_def)
  then show ?thesis
    unfolding registered_def
    by (rule register_on_reachable [OF register_on_reachable]) (simp_all add: both_open_def register_on_def)
qed

lemma single_executor_witness:
  "token (sy_conns registered ! 0) = Some (1, 4) \<and> token (sy_conns registered ! 1) = Some (1, 5) \<and>
   fst (renew_agent_lease 1 5 (sy_world registered)) \<and> \<not> fst (renew_agent_lease 1 4 (sy_world registered))"
proof -
  have tk: "token (sy_conns registered ! 0) = Some (1, 4)" "token (sy_conns registered ! 1) = Some (1, 5)"
    and rn: "fst (renew_agent_lease 1 5 (sy_world registered))"
    by code_simp+
  have "length (sy_conns registered) = 2"
    by (simp add: registered_def register_on_def both_open_def)
  then have len: "0 < length (sy_conns registered)" "1 < length (sy_conns registered)" by simp_all
  have "\<not> fst (renew_agent_lease 1 4 (sy_world registered))"
    using single_executor [OF demo_ledger registered_reachable len(1) tk(1) len(2) tk(2) _ rn] by auto
  with tk rn show ?thesis by simp
qed

end
